theory Spec2Isabelle
  imports Complex_Main
begin

section \<open>TimeTrack: location-restricted attendance and the audit trail\<close>

text \<open>
  The development embeds the schema migration
  \<^verbatim>\<open>supabase/migrations/20250210134118_patient_lantern.sql\<close>: its six tables, the
  function \<^verbatim>\<open>check_location_restrictions\<close>, the trigger function
  \<^verbatim>\<open>audit_log_changes\<close> with the five row-level triggers that call it, and the
  insert policy of \<^verbatim>\<open>time_entries\<close>.

  SQL values are modelled as follows. A nullable column is an \<open>option\<close> (\<open>None\<close> is
  NULL), a \<^verbatim>\<open>NOT NULL\<close> column is the plain type. \<^verbatim>\<open>UUID\<close> and
  \<^verbatim>\<open>TIMESTAMPTZ\<close> values are represented by their text. \<^verbatim>\<open>DECIMAL\<close> values
  are exact rationals and \<^verbatim>\<open>INTEGER\<close> values are integers; a row is a value of
  its column types, so the coercion of a client literal to \<^verbatim>\<open>DECIMAL(10, 8)\<close> or
  to a 32-bit integer has already happened when a row exists. The special values
  \<^verbatim>\<open>NaN\<close> and \<^verbatim>\<open>Infinity\<close> of \<^verbatim>\<open>DECIMAL\<close> are not modelled. \<^verbatim>\<open>float8\<close>,
  the type of the geometric operators, is IEEE 754 double precision: a finite value is the
  real number it denotes, and every operation rounds its exact result to the nearest
  double.
\<close>

subsection \<open>Values\<close>

type_synonym uuid = string

type_synonym timestamptz = string

type_synonym numeric = rat

text \<open>JSON values, as stored in the \<^verbatim>\<open>JSONB\<close> columns; an object keeps its members in
  the order in which they were written.\<close>

datatype jvalue =
    JNull
  | JString string
  | JNumber rat
  | JBoolean bool
  | JArray "jvalue list"
  | JObject "(string \<times> jvalue) list"

subsection \<open>Tables\<close>

text \<open>\<^verbatim>\<open>CREATE TABLE profiles\<close>\<close>

record profile =
  p_id :: uuid
  p_email :: string
  p_full_name :: "string option"
  p_role :: string
  p_employee_id :: "string option"
  p_department :: "string option"
  p_created_at :: "timestamptz option"
  p_updated_at :: "timestamptz option"

text \<open>\<^verbatim>\<open>CREATE TABLE time_entries\<close>\<close>

record time_entry =
  te_id :: uuid
  te_user_id :: "uuid option"
  te_entry_type :: string
  te_timestamp :: "timestamptz option"
  te_ip_address :: "string option"
  te_device_info :: "jvalue option"
  te_latitude :: "numeric option"
  te_longitude :: "numeric option"
  te_notes :: "string option"
  te_created_at :: "timestamptz option"

text \<open>\<^verbatim>\<open>CREATE TABLE schedules\<close>\<close>

record schedule =
  sc_id :: uuid
  sc_user_id :: "uuid option"
  sc_start_time :: timestamptz
  sc_end_time :: timestamptz
  sc_created_by :: "uuid option"
  sc_created_at :: "timestamptz option"
  sc_updated_at :: "timestamptz option"

text \<open>\<^verbatim>\<open>CREATE TABLE audit_logs\<close>\<close>

record audit_log =
  al_id :: uuid
  al_user_id :: "uuid option"
  al_action :: string
  al_table_name :: "string option"
  al_record_id :: "uuid option"
  al_old_data :: "jvalue option"
  al_new_data :: "jvalue option"
  al_ip_address :: "string option"
  al_created_at :: "timestamptz option"

text \<open>\<^verbatim>\<open>CREATE TABLE ip_whitelist\<close>\<close>

record ip_whitelist_entry =
  iw_id :: uuid
  iw_ip_address :: string
  iw_description :: "string option"
  iw_created_by :: "uuid option"
  iw_created_at :: "timestamptz option"
  iw_updated_at :: "timestamptz option"

text \<open>\<^verbatim>\<open>CREATE TABLE geo_fences\<close>\<close>

record geo_fence =
  gf_id :: uuid
  gf_name :: string
  gf_latitude :: numeric
  gf_longitude :: numeric
  gf_radius :: int
  gf_created_by :: "uuid option"
  gf_created_at :: "timestamptz option"
  gf_updated_at :: "timestamptz option"

text \<open>
  The database: the six tables of the migration, each a list of rows in insertion order,
  and the identifiers of \<^verbatim>\<open>auth.users\<close>, the table of the identity provider that
  \<^verbatim>\<open>profiles.id\<close> references (the migration does not create or change it).
\<close>

record database =
  auth_users :: "uuid list"
  profiles :: "profile list"
  time_entries :: "time_entry list"
  schedules :: "schedule list"
  audit_logs :: "audit_log list"
  ip_whitelist :: "ip_whitelist_entry list"
  geo_fences :: "geo_fence list"

subsection \<open>Errors\<close>

text \<open>
  The errors a statement can raise, named after the SQLSTATE conditions of the database:
  \<open>UniqueViolation\<close> (23505, a primary key or \<^verbatim>\<open>UNIQUE\<close> column),
  \<open>ForeignKeyViolation\<close> (23503), \<open>CheckViolation\<close> (23514, a \<^verbatim>\<open>CHECK\<close>
  constraint), \<open>InsufficientPrivilege\<close> (42501, a new row violates a row-level security
  policy), \<open>UndefinedObject\<close> (42704, an unrecognized configuration parameter),
  \<open>InvalidTextRepresentation\<close> (22P02, a text that is not JSON cast to \<^verbatim>\<open>json\<close>)
  and \<open>NumericValueOutOfRange\<close> (22003, a value out of range for
  \<^verbatim>\<open>double precision\<close>, or the overflow or underflow of a \<^verbatim>\<open>float8\<close> operation).
  An error aborts the statement: no state is returned, the database stays as it was.
\<close>

datatype error =
    UniqueViolation
  | ForeignKeyViolation
  | CheckViolation
  | InsufficientPrivilege
  | UndefinedObject
  | InvalidTextRepresentation
  | NumericValueOutOfRange

subsection \<open>Three-valued logic\<close>

text \<open>
  A comparison with NULL is NULL, and a \<^verbatim>\<open>WHERE\<close> clause keeps a row only when its
  condition is true.
\<close>

definition sql_eq :: "'a option \<Rightarrow> 'a option \<Rightarrow> bool option" where
  "sql_eq a b = (case a of None \<Rightarrow> None | Some x \<Rightarrow>
                  (case b of None \<Rightarrow> None | Some y \<Rightarrow> Some (x = y)))"

definition sql_where :: "bool option \<Rightarrow> bool" where
  "sql_where c = (c = Some True)"

subsection \<open>Double precision\<close>

text \<open>
  A double is \<open>k * 2 ^ q\<close> for integers \<open>\<bar>k\<bar> < 2 ^ 53\<close> and \<open>- 1074 \<le> q \<le> 971\<close>. The
  operations of \<^verbatim>\<open>float8\<close> round the exact result to the nearest double, a tie to the
  one with the even \<open>k\<close>: \<open>round_half_even\<close> rounds a real to an integer in this way,
  \<open>float8_exponent x\<close> is the exponent \<open>q\<close> of the doubles around \<open>x\<close> (\<open>- 1074\<close> for the
  subnormal ones, below \<open>2 ^ (- 1022)\<close>), and \<open>float8_round x\<close> is the rounded value, with
  the exponent left unbounded upwards. A rounded value of magnitude \<open>2 ^ 1024\<close> or more
  stands for an infinite result (\<open>float8_overflow\<close>). The database raises an error where
  an operation used here would yield an infinity, so that infinities and NaN do not
  occur as values.
\<close>

definition round_half_even :: "real \<Rightarrow> int" where
  "round_half_even x =
     (let n = \<lfloor>x\<rfloor>; d = x - of_int n
      in if d < 1 / 2 then n else if 1 / 2 < d then n + 1 else if even n then n else n + 1)"

definition float8_exponent :: "real \<Rightarrow> int" where
  "float8_exponent x = max (\<lfloor>log 2 \<bar>x\<bar>\<rfloor> - 52) (- 1074)"

definition float8_round :: "real \<Rightarrow> real" where
  "float8_round x =
     (if x = 0 then 0
      else of_int (round_half_even (x / 2 powi float8_exponent x)) * 2 powi float8_exponent x)"

definition float8_overflow :: "real \<Rightarrow> bool" where
  "float8_overflow x = (2 powi 1024 \<le> \<bar>x\<bar>)"

text \<open>
  The cast of a \<^verbatim>\<open>DECIMAL\<close> to \<^verbatim>\<open>float8\<close> (\<^verbatim>\<open>numeric_float8\<close>) reads the decimal
  text of the value as a double: the nearest double, and an error when that is infinite,
  or zero for a value that is not zero. The cast of an \<^verbatim>\<open>INTEGER\<close> is exact.
\<close>

definition numeric_to_float8 :: "numeric \<Rightarrow> error + real" where
  "numeric_to_float8 v =
     (let val = float8_round (of_rat v)
      in if float8_overflow val \<or> (val = 0 \<and> v \<noteq> 0) then Inl NumericValueOutOfRange
         else Inr val)"

definition int4_to_float8 :: "int \<Rightarrow> real" where
  "int4_to_float8 v = of_int v"

text \<open>\<^verbatim>\<open>float8_mi\<close>, the checked subtraction: an error when the difference of two finite
  doubles is infinite.\<close>

definition float8_mi :: "real \<Rightarrow> real \<Rightarrow> error + real" where
  "float8_mi val1 val2 =
     (let result = float8_round (val1 - val2)
      in if float8_overflow result then Inl NumericValueOutOfRange else Inr result)"

text \<open>
  \<^verbatim>\<open>pg_hypot\<close>, the length of the hypotenuse: with \<open>x\<close> the larger and \<open>y\<close> the smaller
  of the two magnitudes, \<open>x\<close> when \<open>y\<close> is zero, and \<^verbatim>\<open>x * sqrt(1.0 + (yx * yx))\<close> for
  \<^verbatim>\<open>yx = y / x\<close> otherwise. The quotient, the product, the sum, the square root and
  the last product are each rounded on their own (the product and the sum are not
  fused); an infinite result is an overflow and a zero result an underflow.
\<close>

definition pg_hypot :: "real \<Rightarrow> real \<Rightarrow> error + real" where
  "pg_hypot a b =
     (let x = max \<bar>a\<bar> \<bar>b\<bar>; y = min \<bar>a\<bar> \<bar>b\<bar>
      in if y = 0 then Inr x
         else
           let yx = float8_round (y / x);
               result = float8_round
                 (x * float8_round (sqrt (float8_round (1 + float8_round (yx * yx)))))
           in if float8_overflow result then Inl NumericValueOutOfRange
              else if result = 0 then Inl NumericValueOutOfRange
              else Inr result)"

subsection \<open>The geometric operators\<close>

type_synonym point = "real \<times> real"

type_synonym circle = "point \<times> real"

text \<open>
  \<^verbatim>\<open>point(x, y)\<close> on two \<^verbatim>\<open>DECIMAL\<close> arguments, with their casts to \<^verbatim>\<open>float8\<close>. The
  function is strict, NULL when an argument is NULL, but each argument is evaluated
  first: the cast of an argument that is not NULL raises its error whatever the other
  argument is.
\<close>

definition cast_float8 :: "numeric option \<Rightarrow> error + real option" where
  "cast_float8 v = (case v of None \<Rightarrow> Inr None | Some d \<Rightarrow>
                     (case numeric_to_float8 d of Inl e \<Rightarrow> Inl e | Inr x \<Rightarrow> Inr (Some x)))"

definition sql_point :: "numeric option \<Rightarrow> numeric option \<Rightarrow> error + point option" where
  "sql_point x y =
     (case cast_float8 x of Inl e \<Rightarrow> Inl e | Inr a \<Rightarrow>
        (case cast_float8 y of Inl e \<Rightarrow> Inl e | Inr b \<Rightarrow>
           Inr (case a of None \<Rightarrow> None | Some u \<Rightarrow>
                  (case b of None \<Rightarrow> None | Some v \<Rightarrow> Some (u, v)))))"

text \<open>\<^verbatim>\<open>circle(center, radius)\<close> on a point and an \<^verbatim>\<open>INTEGER\<close> that is not NULL: NULL
  when the center is NULL. It takes any radius, also a negative one.\<close>

definition sql_circle :: "point option \<Rightarrow> int \<Rightarrow> circle option" where
  "sql_circle center radius =
     (case center of None \<Rightarrow> None | Some p \<Rightarrow> Some (p, int4_to_float8 radius))"

text \<open>\<^verbatim>\<open>point_dt\<close>, the distance of two points: the hypotenuse of the differences of
  their coordinates.\<close>

definition point_dt :: "point \<Rightarrow> point \<Rightarrow> error + real" where
  "point_dt pt1 pt2 =
     (case float8_mi (fst pt1) (fst pt2) of Inl e \<Rightarrow> Inl e | Inr dx \<Rightarrow>
        (case float8_mi (snd pt1) (snd pt2) of Inl e \<Rightarrow> Inl e | Inr dy \<Rightarrow> pg_hypot dx dy))"

text \<open>The operator \<^verbatim>\<open>point <@ circle\<close> (\<^verbatim>\<open>pt_contained_circle\<close>): the distance of the
  point from the center, taken from the center, is at most the radius.\<close>

definition pt_contained_circle :: "point \<Rightarrow> circle \<Rightarrow> error + bool" where
  "pt_contained_circle p c =
     (case point_dt (fst c) p of Inl e \<Rightarrow> Inl e | Inr d \<Rightarrow> Inr (d \<le> snd c))"

subsection \<open>The location authorizer\<close>

text \<open>
  \<^verbatim>\<open>SELECT EXISTS (SELECT 1 FROM ip_whitelist WHERE ip_address = p_ip_address)\<close>
\<close>

definition ip_allowed :: "database \<Rightarrow> string option \<Rightarrow> bool" where
  "ip_allowed db p_ip_address =
     (\<exists>w \<in> set (ip_whitelist db). sql_where (sql_eq (Some (iw_ip_address w)) p_ip_address))"

text \<open>
  The condition
  \<^verbatim>\<open>point(longitude, latitude) <@ circle(point(p_longitude, p_latitude), radius)\<close> on a
  row of \<^verbatim>\<open>geo_fences\<close>. The point of the two parameters does not depend on the row:
  \<open>center\<close> is its value. With a NULL center the circle and the condition are NULL and
  nothing of the row is evaluated.
\<close>

definition fence_where :: "point option \<Rightarrow> geo_fence \<Rightarrow> error + bool option" where
  "fence_where center f =
     (case sql_circle center (gf_radius f) of None \<Rightarrow> Inr None | Some c \<Rightarrow>
        (case sql_point (Some (gf_longitude f)) (Some (gf_latitude f)) of
           Inl e \<Rightarrow> Inl e
         | Inr None \<Rightarrow> Inr None
         | Inr (Some p) \<Rightarrow>
             (case pt_contained_circle p c of Inl e \<Rightarrow> Inl e | Inr b \<Rightarrow> Inr (Some b))))"

text \<open>\<^verbatim>\<open>SELECT EXISTS (SELECT 1 FROM \<dots> WHERE \<dots>)\<close>: the rows are read in order, up to the
  first one for which the condition is true; an error on the way is the result.\<close>

fun select_exists :: "('r \<Rightarrow> error + bool option) \<Rightarrow> 'r list \<Rightarrow> error + bool" where
  "select_exists w [] = Inr False"
| "select_exists w (r # rs) =
     (case w r of Inl e \<Rightarrow> Inl e
      | Inr c \<Rightarrow> if sql_where c then Inr True else select_exists w rs)"

text \<open>
  \<^verbatim>\<open>SELECT EXISTS (SELECT 1 FROM geo_fences WHERE
    point(longitude, latitude) <@ circle(point(p_longitude, p_latitude), radius))\<close>.
  The point of the parameters is a constant of the query, evaluated before the table is
  read: a parameter out of the range of \<^verbatim>\<open>float8\<close> raises the error also when the
  table is empty.
\<close>

definition geo_allowed :: "database \<Rightarrow> numeric option \<Rightarrow> numeric option \<Rightarrow> error + bool" where
  "geo_allowed db p_latitude p_longitude =
     (case sql_point p_longitude p_latitude of Inl e \<Rightarrow> Inl e
      | Inr center \<Rightarrow> select_exists (fence_where center) (geo_fences db))"

text \<open>\<^verbatim>\<open>RETURN v_ip_allowed AND v_geo_allowed\<close>, after both queries have run. The function
  is \<^verbatim>\<open>SECURITY DEFINER\<close>: it reads the two tables whole, whoever calls it.\<close>

definition check_location_restrictions ::
  "database \<Rightarrow> numeric option \<Rightarrow> numeric option \<Rightarrow> string option \<Rightarrow> error + bool" where
  "check_location_restrictions db p_latitude p_longitude p_ip_address =
     (let v_ip_allowed = ip_allowed db p_ip_address
      in case geo_allowed db p_latitude p_longitude of Inl e \<Rightarrow> Inl e
         | Inr v_geo_allowed \<Rightarrow> Inr (v_ip_allowed \<and> v_geo_allowed))"

text \<open>
  The exact distance of a point, given in degrees, from the center of a fence: the
  planar distance of the specification, with no rounding.
\<close>

definition fence_distance :: "geo_fence \<Rightarrow> numeric \<Rightarrow> numeric \<Rightarrow> real" where
  "fence_distance f la lo =
     sqrt ((of_rat (gf_longitude f) - of_rat lo)\<^sup>2 + (of_rat (gf_latitude f) - of_rat la)\<^sup>2)"

text \<open>
  The coordinates for which no operation of the authorizer leaves the range of
  \<^verbatim>\<open>float8\<close>: zero, and the magnitudes from \<open>2 ^ (- 1000)\<close> to \<open>2 ^ 1000\<close>. Every value of
  a \<^verbatim>\<open>DECIMAL(11, 8)\<close> column is one of them.
\<close>

definition float8_safe :: "numeric \<Rightarrow> bool" where
  "float8_safe v = (v = 0 \<or> (1 / 2 ^ 1000 \<le> \<bar>v\<bar> \<and> \<bar>v\<bar> \<le> 2 ^ 1000))"

subsection \<open>The request context\<close>

text \<open>
  The text of a configuration parameter, read as the cast \<^verbatim>\<open>::json\<close> reads it: not
  JSON at all, a JSON value that is not an object, or an object, each member paired with
  the text that \<^verbatim>\<open>->>\<close> yields for its value (\<open>None\<close> for the JSON null).
\<close>

datatype json_text =
    NotJson
  | JsonNonObject
  | JsonObject "(string \<times> string option) list"

text \<open>
  What a statement reads from its session: \<^verbatim>\<open>auth.uid()\<close> (the identifier in the
  caller's token, NULL without one), whether the role is exempt from row-level security
  (the owner of the tables, or a role with \<^verbatim>\<open>BYPASSRLS\<close> such as the service role),
  the parameter \<^verbatim>\<open>request.headers\<close> (\<open>None\<close> when it is not set), \<^verbatim>\<open>now()\<close>,
  and the draws of \<^verbatim>\<open>gen_random_uuid()\<close>: the identifier drawn for the audit record
  that would be the \<open>n\<close>-th of the log.
\<close>

record session =
  auth_uid :: "uuid option"
  bypassrls :: bool
  request_headers :: "json_text option"
  now :: timestamptz
  gen_random_uuid :: "nat \<Rightarrow> uuid"

text \<open>\<^verbatim>\<open>current_setting('request.headers')\<close>, with one argument, raises when the
  parameter is not set.\<close>

definition current_setting_request_headers :: "session \<Rightarrow> error + json_text" where
  "current_setting_request_headers s =
     (case request_headers s of None \<Rightarrow> Inl UndefinedObject | Some t \<Rightarrow> Inr t)"

text \<open>The cast \<^verbatim>\<open>::json\<close> raises on a text that is not JSON.\<close>

definition cast_json :: "json_text \<Rightarrow> error + json_text" where
  "cast_json t = (case t of NotJson \<Rightarrow> Inl InvalidTextRepresentation | _ \<Rightarrow> Inr t)"

text \<open>The operator \<^verbatim>\<open>json ->> key\<close>: the member's value as text; NULL when the value
  is not an object, has no such member, or the member is the JSON null. Of several
  members with the same key the last one counts.\<close>

definition json_field_text :: "json_text \<Rightarrow> string \<Rightarrow> string option" where
  "json_field_text j k =
     (case j of
        JsonObject kvs \<Rightarrow> (case map_of (rev kvs) k of None \<Rightarrow> None | Some v \<Rightarrow> v)
      | _ \<Rightarrow> None)"

subsection \<open>Rows as the triggers see them\<close>

text \<open>The five tables that carry the audit trigger, and a row of any of them
  (\<^verbatim>\<open>OLD\<close> and \<^verbatim>\<open>NEW\<close> of a row-level trigger).\<close>

datatype table = Profiles | TimeEntries | Schedules | IpWhitelist | GeoFences

datatype row =
    ProfilesRow profile
  | TimeEntriesRow time_entry
  | SchedulesRow schedule
  | IpWhitelistRow ip_whitelist_entry
  | GeoFencesRow geo_fence

datatype tg_op = INSERT | UPDATE | DELETE

fun tg_op_text :: "tg_op \<Rightarrow> string" where
  "tg_op_text INSERT = ''INSERT''"
| "tg_op_text UPDATE = ''UPDATE''"
| "tg_op_text DELETE = ''DELETE''"

fun tg_table_name :: "table \<Rightarrow> string" where
  "tg_table_name Profiles = ''profiles''"
| "tg_table_name TimeEntries = ''time_entries''"
| "tg_table_name Schedules = ''schedules''"
| "tg_table_name IpWhitelist = ''ip_whitelist''"
| "tg_table_name GeoFences = ''geo_fences''"

fun row_table :: "row \<Rightarrow> table" where
  "row_table (ProfilesRow p) = Profiles"
| "row_table (TimeEntriesRow e) = TimeEntries"
| "row_table (SchedulesRow c) = Schedules"
| "row_table (IpWhitelistRow w) = IpWhitelist"
| "row_table (GeoFencesRow g) = GeoFences"

fun row_id :: "row \<Rightarrow> uuid" where
  "row_id (ProfilesRow p) = p_id p"
| "row_id (TimeEntriesRow e) = te_id e"
| "row_id (SchedulesRow c) = sc_id c"
| "row_id (IpWhitelistRow w) = iw_id w"
| "row_id (GeoFencesRow g) = gf_id g"

fun table_rows :: "table \<Rightarrow> database \<Rightarrow> row list" where
  "table_rows Profiles db = map ProfilesRow (profiles db)"
| "table_rows TimeEntries db = map TimeEntriesRow (time_entries db)"
| "table_rows Schedules db = map SchedulesRow (schedules db)"
| "table_rows IpWhitelist db = map IpWhitelistRow (ip_whitelist db)"
| "table_rows GeoFences db = map GeoFencesRow (geo_fences db)"

text \<open>\<^verbatim>\<open>row_to_json\<close>: an object with one member per column, in column order.\<close>

definition j_text :: "string option \<Rightarrow> jvalue" where
  "j_text v = (case v of None \<Rightarrow> JNull | Some t \<Rightarrow> JString t)"

definition j_numeric :: "numeric option \<Rightarrow> jvalue" where
  "j_numeric v = (case v of None \<Rightarrow> JNull | Some n \<Rightarrow> JNumber n)"

definition j_json :: "jvalue option \<Rightarrow> jvalue" where
  "j_json v = (case v of None \<Rightarrow> JNull | Some j \<Rightarrow> j)"

fun row_to_json :: "row \<Rightarrow> jvalue" where
  "row_to_json (ProfilesRow p) = JObject
     [(''id'', JString (p_id p)), (''email'', JString (p_email p)),
      (''full_name'', j_text (p_full_name p)), (''role'', JString (p_role p)),
      (''employee_id'', j_text (p_employee_id p)), (''department'', j_text (p_department p)),
      (''created_at'', j_text (p_created_at p)), (''updated_at'', j_text (p_updated_at p))]"
| "row_to_json (TimeEntriesRow e) = JObject
     [(''id'', JString (te_id e)), (''user_id'', j_text (te_user_id e)),
      (''entry_type'', JString (te_entry_type e)), (''timestamp'', j_text (te_timestamp e)),
      (''ip_address'', j_text (te_ip_address e)), (''device_info'', j_json (te_device_info e)),
      (''latitude'', j_numeric (te_latitude e)), (''longitude'', j_numeric (te_longitude e)),
      (''notes'', j_text (te_notes e)), (''created_at'', j_text (te_created_at e))]"
| "row_to_json (SchedulesRow c) = JObject
     [(''id'', JString (sc_id c)), (''user_id'', j_text (sc_user_id c)),
      (''start_time'', JString (sc_start_time c)), (''end_time'', JString (sc_end_time c)),
      (''created_by'', j_text (sc_created_by c)),
      (''created_at'', j_text (sc_created_at c)), (''updated_at'', j_text (sc_updated_at c))]"
| "row_to_json (IpWhitelistRow w) = JObject
     [(''id'', JString (iw_id w)), (''ip_address'', JString (iw_ip_address w)),
      (''description'', j_text (iw_description w)), (''created_by'', j_text (iw_created_by w)),
      (''created_at'', j_text (iw_created_at w)), (''updated_at'', j_text (iw_updated_at w))]"
| "row_to_json (GeoFencesRow g) = JObject
     [(''id'', JString (gf_id g)), (''name'', JString (gf_name g)),
      (''latitude'', JNumber (gf_latitude g)), (''longitude'', JNumber (gf_longitude g)),
      (''radius'', JNumber (of_int (gf_radius g))), (''created_by'', j_text (gf_created_by g)),
      (''created_at'', j_text (gf_created_at g)), (''updated_at'', j_text (gf_updated_at g))]"

subsection \<open>The audit trigger\<close>

text \<open>A column \<^verbatim>\<open>REFERENCES profiles(id)\<close> holds NULL or the identifier of a
  profile.\<close>

definition refs_profile :: "uuid option \<Rightarrow> database \<Rightarrow> bool" where
  "refs_profile u db = (case u of None \<Rightarrow> True | Some i \<Rightarrow> i \<in> set (map p_id (profiles db)))"

text \<open>\<^verbatim>\<open>INSERT INTO audit_logs\<close>: the primary key and the reference of
  \<^verbatim>\<open>user_id\<close> to \<^verbatim>\<open>profiles\<close> are checked.\<close>

definition insert_audit_logs :: "audit_log \<Rightarrow> database \<Rightarrow> error + database" where
  "insert_audit_logs a db =
     (if al_id a \<in> set (map al_id (audit_logs db)) then Inl UniqueViolation
      else if \<not> refs_profile (al_user_id a) db then Inl ForeignKeyViolation
      else Inr (db\<lparr>audit_logs := audit_logs db @ [a]\<rparr>))"

definition coalesce :: "'a option \<Rightarrow> 'a option \<Rightarrow> 'a option" where
  "coalesce a b = (case a of None \<Rightarrow> b | Some x \<Rightarrow> Some x)"

text \<open>
  The trigger function \<^verbatim>\<open>audit_log_changes\<close>. \<open>OLD\<close> is NULL for an insert and
  \<open>NEW\<close> is NULL for a delete. The values of the new audit row are computed first (the
  read of \<^verbatim>\<open>request.headers\<close> and its cast to \<^verbatim>\<open>json\<close> can raise), then the row
  is inserted; \<^verbatim>\<open>id\<close> and \<^verbatim>\<open>created_at\<close> take their column defaults.
\<close>

definition audit_log_changes ::
  "session \<Rightarrow> tg_op \<Rightarrow> table \<Rightarrow> row option \<Rightarrow> row option \<Rightarrow> database \<Rightarrow> error + database" where
  "audit_log_changes s TG_OP TG_TABLE OLD NEW db =
     (case current_setting_request_headers s of
        Inl e \<Rightarrow> Inl e
      | Inr t \<Rightarrow>
         (case cast_json t of
            Inl e \<Rightarrow> Inl e
          | Inr j \<Rightarrow>
              insert_audit_logs
                \<lparr>al_id = gen_random_uuid s (length (audit_logs db)),
                 al_user_id = auth_uid s,
                 al_action = tg_op_text TG_OP,
                 al_table_name = Some (tg_table_name TG_TABLE),
                 al_record_id = coalesce (map_option row_id NEW) (map_option row_id OLD),
                 al_old_data = (if TG_OP = DELETE then map_option row_to_json OLD else None),
                 al_new_data =
                   (if TG_OP = INSERT \<or> TG_OP = UPDATE then map_option row_to_json NEW else None),
                 al_ip_address = json_field_text j ''x-forwarded-for'',
                 al_created_at = Some (now s)\<rparr>
                db))"

text \<open>The trigger fired once for each of several deleted rows, in order, each row with
  the trigger of its own table.\<close>

fun audit_each :: "session \<Rightarrow> row list \<Rightarrow> database \<Rightarrow> error + database" where
  "audit_each s [] db = Inr db"
| "audit_each s (r # rs) db =
     (case audit_log_changes s DELETE (row_table r) (Some r) None db of
        Inl e \<Rightarrow> Inl e
      | Inr db' \<Rightarrow> audit_each s rs db')"

subsection \<open>Constraints of the tables\<close>

text \<open>The \<^verbatim>\<open>CHECK\<close> constraints: \<^verbatim>\<open>role IN ('admin', 'employee')\<close> and
  \<^verbatim>\<open>entry_type IN ('clock_in', 'clock_out')\<close>. \<^verbatim>\<open>geo_fences.radius\<close> has
  none.\<close>

fun check_ok :: "row \<Rightarrow> bool" where
  "check_ok (ProfilesRow p) = (p_role p = ''admin'' \<or> p_role p = ''employee'')"
| "check_ok (TimeEntriesRow e) = (te_entry_type e = ''clock_in'' \<or> te_entry_type e = ''clock_out'')"
| "check_ok (SchedulesRow c) = True"
| "check_ok (IpWhitelistRow w) = True"
| "check_ok (GeoFencesRow g) = True"

text \<open>The primary keys, \<^verbatim>\<open>profiles.employee_id UNIQUE\<close> (NULLs do not collide)
  and \<^verbatim>\<open>ip_whitelist.ip_address UNIQUE\<close>, of a row against the rows of a
  database.\<close>

fun unique_ok :: "row \<Rightarrow> database \<Rightarrow> bool" where
  "unique_ok (ProfilesRow p) db =
     (p_id p \<notin> set (map p_id (profiles db)) \<and>
      (case p_employee_id p of None \<Rightarrow> True
       | Some n \<Rightarrow> Some n \<notin> set (map p_employee_id (profiles db))))"
| "unique_ok (TimeEntriesRow e) db = (te_id e \<notin> set (map te_id (time_entries db)))"
| "unique_ok (SchedulesRow c) db = (sc_id c \<notin> set (map sc_id (schedules db)))"
| "unique_ok (IpWhitelistRow w) db =
     (iw_id w \<notin> set (map iw_id (ip_whitelist db)) \<and>
      iw_ip_address w \<notin> set (map iw_ip_address (ip_whitelist db)))"
| "unique_ok (GeoFencesRow g) db = (gf_id g \<notin> set (map gf_id (geo_fences db)))"

text \<open>The columns of a row that reference \<^verbatim>\<open>profiles(id)\<close>.\<close>

fun profile_refs :: "row \<Rightarrow> uuid option list" where
  "profile_refs (ProfilesRow p) = []"
| "profile_refs (TimeEntriesRow e) = [te_user_id e]"
| "profile_refs (SchedulesRow c) = [sc_user_id c, sc_created_by c]"
| "profile_refs (IpWhitelistRow w) = [iw_created_by w]"
| "profile_refs (GeoFencesRow g) = [gf_created_by g]"

text \<open>The foreign keys of an inserted row; \<^verbatim>\<open>profiles.id\<close> references
  \<^verbatim>\<open>auth.users(id)\<close>.\<close>

fun fk_ok :: "row \<Rightarrow> database \<Rightarrow> bool" where
  "fk_ok (ProfilesRow p) db = (p_id p \<in> set (auth_users db))"
| "fk_ok r db = list_all (\<lambda>u. refs_profile u db) (profile_refs r)"

text \<open>The foreign keys of an updated row: a reference that did not change is not
  checked again.\<close>

fun fk_ok_update :: "row \<Rightarrow> row \<Rightarrow> database \<Rightarrow> bool" where
  "fk_ok_update (ProfilesRow p) (ProfilesRow q) db = (p_id q = p_id p \<or> p_id q \<in> set (auth_users db))"
| "fk_ok_update r r' db =
     list_all (\<lambda>(u, u'). u' = u \<or> refs_profile u' db) (zip (profile_refs r) (profile_refs r'))"

text \<open>Rows that reference a profile with \<^verbatim>\<open>ON DELETE CASCADE\<close>
  (\<^verbatim>\<open>time_entries.user_id\<close>, \<^verbatim>\<open>schedules.user_id\<close>), and rows that reference
  it without a referential action (\<^verbatim>\<open>schedules.created_by\<close>,
  \<^verbatim>\<open>audit_logs.user_id\<close>, \<^verbatim>\<open>ip_whitelist.created_by\<close>,
  \<^verbatim>\<open>geo_fences.created_by\<close>).\<close>

definition cascade_refs :: "uuid \<Rightarrow> database \<Rightarrow> bool" where
  "cascade_refs u db =
     (Some u \<in> set (map te_user_id (time_entries db)) \<or>
      Some u \<in> set (map sc_user_id (schedules db)))"

definition restrict_refs :: "uuid \<Rightarrow> database \<Rightarrow> bool" where
  "restrict_refs u db =
     (Some u \<in> set (map sc_created_by (schedules db)) \<or>
      Some u \<in> set (map al_user_id (audit_logs db)) \<or>
      Some u \<in> set (map iw_created_by (ip_whitelist db)) \<or>
      Some u \<in> set (map gf_created_by (geo_fences db)))"

subsection \<open>Storing, replacing and removing a row\<close>

fun replace1 :: "'a \<Rightarrow> 'a \<Rightarrow> 'a list \<Rightarrow> 'a list" where
  "replace1 a b [] = []"
| "replace1 a b (x # xs) = (if x = a then b # xs else x # replace1 a b xs)"

fun put_row :: "row \<Rightarrow> database \<Rightarrow> database" where
  "put_row (ProfilesRow p) db = db\<lparr>profiles := profiles db @ [p]\<rparr>"
| "put_row (TimeEntriesRow e) db = db\<lparr>time_entries := time_entries db @ [e]\<rparr>"
| "put_row (SchedulesRow c) db = db\<lparr>schedules := schedules db @ [c]\<rparr>"
| "put_row (IpWhitelistRow w) db = db\<lparr>ip_whitelist := ip_whitelist db @ [w]\<rparr>"
| "put_row (GeoFencesRow g) db = db\<lparr>geo_fences := geo_fences db @ [g]\<rparr>"

fun remove_row :: "row \<Rightarrow> database \<Rightarrow> database" where
  "remove_row (ProfilesRow p) db = db\<lparr>profiles := remove1 p (profiles db)\<rparr>"
| "remove_row (TimeEntriesRow e) db = db\<lparr>time_entries := remove1 e (time_entries db)\<rparr>"
| "remove_row (SchedulesRow c) db = db\<lparr>schedules := remove1 c (schedules db)\<rparr>"
| "remove_row (IpWhitelistRow w) db = db\<lparr>ip_whitelist := remove1 w (ip_whitelist db)\<rparr>"
| "remove_row (GeoFencesRow g) db = db\<lparr>geo_fences := remove1 g (geo_fences db)\<rparr>"

fun replace_row :: "row \<Rightarrow> row \<Rightarrow> database \<Rightarrow> database" where
  "replace_row (ProfilesRow p) (ProfilesRow q) db = db\<lparr>profiles := replace1 p q (profiles db)\<rparr>"
| "replace_row (TimeEntriesRow e) (TimeEntriesRow f) db =
     db\<lparr>time_entries := replace1 e f (time_entries db)\<rparr>"
| "replace_row (SchedulesRow c) (SchedulesRow d) db = db\<lparr>schedules := replace1 c d (schedules db)\<rparr>"
| "replace_row (IpWhitelistRow w) (IpWhitelistRow v) db =
     db\<lparr>ip_whitelist := replace1 w v (ip_whitelist db)\<rparr>"
| "replace_row (GeoFencesRow g) (GeoFencesRow h) db =
     db\<lparr>geo_fences := replace1 g h (geo_fences db)\<rparr>"
| "replace_row r r' db = db"

text \<open>The row of a table with a given identifier.\<close>

definition find_row :: "table \<Rightarrow> uuid \<Rightarrow> database \<Rightarrow> row option" where
  "find_row t i db = find (\<lambda>r. row_id r = i) (table_rows t db)"

subsection \<open>Mutations of the audited tables\<close>

text \<open>
  A mutation of one row: the constraints of the table are checked, the row is stored,
  replaced or removed, and the trigger \<^verbatim>\<open>AFTER INSERT OR UPDATE OR DELETE ... FOR EACH
  ROW EXECUTE FUNCTION audit_log_changes()\<close> of the table runs in the same statement. An
  error at any step, the trigger included, is the result of the whole mutation. The
  functions model a statement that row-level security has admitted; the one policy
  modelled here, the insert policy of \<^verbatim>\<open>time_entries\<close>, follows below.
\<close>

text \<open>\<^verbatim>\<open>INSERT\<close>: check constraints, unique indexes, then the foreign keys.\<close>

definition insert_row :: "row \<Rightarrow> database \<Rightarrow> error + database" where
  "insert_row NEW db =
     (if \<not> check_ok NEW then Inl CheckViolation
      else if \<not> unique_ok NEW db then Inl UniqueViolation
      else if \<not> fk_ok NEW (put_row NEW db) then Inl ForeignKeyViolation
      else Inr (put_row NEW db))"

definition table_insert :: "session \<Rightarrow> row \<Rightarrow> database \<Rightarrow> error + database" where
  "table_insert s NEW db =
     (case insert_row NEW db of
        Inl e \<Rightarrow> Inl e
      | Inr db1 \<Rightarrow> audit_log_changes s INSERT (row_table NEW) None (Some NEW) db1)"

text \<open>\<^verbatim>\<open>UPDATE\<close> of the row \<open>OLD\<close> to \<open>NEW\<close>. The unique indexes are checked against
  the other rows. A profile whose \<^verbatim>\<open>id\<close> changes must not be referenced: no foreign
  key of the migration has an \<^verbatim>\<open>ON UPDATE\<close> action.\<close>

definition update_row :: "row \<Rightarrow> row \<Rightarrow> database \<Rightarrow> error + database" where
  "update_row OLD NEW db =
     (if \<not> check_ok NEW then Inl CheckViolation
      else if \<not> unique_ok NEW (remove_row OLD db) then Inl UniqueViolation
      else if \<not> fk_ok_update OLD NEW (replace_row OLD NEW db) then Inl ForeignKeyViolation
      else if row_table OLD = Profiles \<and> row_id NEW \<noteq> row_id OLD \<and>
              (cascade_refs (row_id OLD) db \<or> restrict_refs (row_id OLD) db)
        then Inl ForeignKeyViolation
      else Inr (replace_row OLD NEW db))"

text \<open>The row with identifier \<open>target\<close> of the table of \<open>NEW\<close> is updated; without such a
  row the statement changes nothing and fires no trigger.\<close>

definition table_update :: "session \<Rightarrow> uuid \<Rightarrow> row \<Rightarrow> database \<Rightarrow> error + database" where
  "table_update s target NEW db =
     (case find_row (row_table NEW) target db of
        None \<Rightarrow> Inr db
      | Some OLD \<Rightarrow>
         (case update_row OLD NEW db of
            Inl e \<Rightarrow> Inl e
          | Inr db1 \<Rightarrow> audit_log_changes s UPDATE (row_table NEW) (Some OLD) (Some NEW) db1))"

text \<open>
  The referential actions of a deleted profile. The row triggers of the deleted profile
  run in the order of their names: first the triggers of the foreign keys
  (\<^verbatim>\<open>RI_ConstraintTrigger_...\<close>), then \<^verbatim>\<open>audit_profiles_changes\<close>. The triggers of
  \<^verbatim>\<open>ON DELETE CASCADE\<close> delete the time entries and then the schedules of the
  profile; the audit triggers of the rows they delete do not run inside them but are
  queued behind the triggers of the profile. Then no row may still reference the
  profile.
\<close>

definition cascaded_rows :: "uuid \<Rightarrow> database \<Rightarrow> row list" where
  "cascaded_rows u db =
     map TimeEntriesRow (filter (\<lambda>e. te_user_id e = Some u) (time_entries db)) @
     map SchedulesRow (filter (\<lambda>c. sc_user_id c = Some u) (schedules db))"

definition delete_profile_actions :: "profile \<Rightarrow> database \<Rightarrow> error + database" where
  "delete_profile_actions p db =
     (let db1 = db\<lparr>time_entries := filter (\<lambda>e. te_user_id e \<noteq> Some (p_id p)) (time_entries db),
                    schedules := filter (\<lambda>c. sc_user_id c \<noteq> Some (p_id p)) (schedules db)\<rparr>
      in if restrict_refs (p_id p) db1 then Inl ForeignKeyViolation else Inr db1)"

text \<open>The row is removed and the referential triggers run; only a profile is
  referenced by other rows.\<close>

fun delete_row :: "row \<Rightarrow> database \<Rightarrow> error + database" where
  "delete_row (ProfilesRow p) db = delete_profile_actions p (remove_row (ProfilesRow p) db)"
| "delete_row r db = Inr (remove_row r db)"

text \<open>The rows that the delete of a row deletes by cascade, in the order in which their
  audit triggers are queued.\<close>

fun queued_rows :: "row \<Rightarrow> database \<Rightarrow> row list" where
  "queued_rows (ProfilesRow p) db = cascaded_rows (p_id p) db"
| "queued_rows r db = []"

text \<open>\<^verbatim>\<open>DELETE\<close> of the row with identifier \<open>target\<close> of table \<open>t\<close>: after the
  referential triggers the audit trigger runs for the deleted row, then for the rows
  deleted by cascade.\<close>

definition table_delete :: "session \<Rightarrow> table \<Rightarrow> uuid \<Rightarrow> database \<Rightarrow> error + database" where
  "table_delete s t target db =
     (case find_row t target db of
        None \<Rightarrow> Inr db
      | Some OLD \<Rightarrow>
         (case delete_row OLD db of
            Inl e \<Rightarrow> Inl e
          | Inr db1 \<Rightarrow>
             (case audit_log_changes s DELETE t (Some OLD) None db1 of
                Inl e \<Rightarrow> Inl e
              | Inr db2 \<Rightarrow> audit_each s (queued_rows OLD db) db2)))"

subsection \<open>Recording a clock event\<close>

text \<open>
  \<^verbatim>\<open>CREATE POLICY "Users can insert their own time entries" ON time_entries FOR INSERT
  WITH CHECK (auth.uid() = user_id)\<close>: the only policy that applies to an insert into
  \<^verbatim>\<open>time_entries\<close>.
\<close>

definition users_can_insert_their_own_time_entries :: "session \<Rightarrow> time_entry \<Rightarrow> bool option" where
  "users_can_insert_their_own_time_entries s NEW = sql_eq (auth_uid s) (te_user_id NEW)"

text \<open>An insert into \<^verbatim>\<open>time_entries\<close>: a new row for which the check of the policy is
  false or NULL is refused, unless the role is exempt from row-level security.\<close>

definition insert_time_entries :: "session \<Rightarrow> time_entry \<Rightarrow> database \<Rightarrow> error + database" where
  "insert_time_entries s NEW db =
     (if \<not> bypassrls s \<and> \<not> sql_where (users_can_insert_their_own_time_entries s NEW)
        then Inl InsufficientPrivilege
      else table_insert s (TimeEntriesRow NEW) db)"

subsection \<open>Reachable databases\<close>

text \<open>The databases that mutations of the audited tables produce from empty tables.\<close>

inductive reachable :: "database \<Rightarrow> bool" where
  reachable_init:
    "reachable \<lparr>auth_users = us, profiles = [], time_entries = [], schedules = [],
                audit_logs = [], ip_whitelist = [], geo_fences = []\<rparr>"
| reachable_insert:
    "reachable db \<Longrightarrow> table_insert s r db = Inr db' \<Longrightarrow> reachable db'"
| reachable_update:
    "reachable db \<Longrightarrow> table_update s i r db = Inr db' \<Longrightarrow> reachable db'"
| reachable_delete:
    "reachable db \<Longrightarrow> table_delete s t i db = Inr db' \<Longrightarrow> reachable db'"

text \<open>The number of rows in the audited tables.\<close>

definition row_count :: "database \<Rightarrow> nat" where
  "row_count db = length (profiles db) + length (time_entries db) + length (schedules db) +
                  length (ip_whitelist db) + length (geo_fences db)"

subsection \<open>The audit log up to the origin address\<close>

text \<open>The database with the \<^verbatim>\<open>ip_address\<close> of every audit record erased: what two
  runs of a statement that differ only in the request headers have in common.\<close>

definition without_ip :: "database \<Rightarrow> database" where
  "without_ip db = db\<lparr>audit_logs := map (\<lambda>a. a\<lparr>al_ip_address := None\<rparr>) (audit_logs db)\<rparr>"

subsection \<open>Sample data\<close>

text \<open>An administrator and an employee, one allowed address, three fences (the office:
  center \<open>(10, 10)\<close>, radius \<open>500\<close>; two of radius \<open>1\<close>, around the origin and around
  latitude \<open>10\<close>, longitude \<open>8.3\<close>), sessions of the employee and of the service role, a
  clock event, and an audit record written earlier.\<close>

definition admin_profile :: profile where
  "admin_profile = \<lparr>p_id = ''u0'', p_email = ''root@example.org'', p_full_name = None,
     p_role = ''admin'', p_employee_id = None, p_department = None,
     p_created_at = None, p_updated_at = None\<rparr>"

definition alice_profile :: profile where
  "alice_profile = \<lparr>p_id = ''u1'', p_email = ''alice@example.org'', p_full_name = Some ''Alice'',
     p_role = ''employee'', p_employee_id = Some ''E1'', p_department = None,
     p_created_at = None, p_updated_at = None\<rparr>"

definition office_ip :: ip_whitelist_entry where
  "office_ip = \<lparr>iw_id = ''w1'', iw_ip_address = ''1.2.3.4'', iw_description = None,
     iw_created_by = Some ''u0'', iw_created_at = None, iw_updated_at = None\<rparr>"

definition office_fence :: geo_fence where
  "office_fence = \<lparr>gf_id = ''g1'', gf_name = ''office'', gf_latitude = 10, gf_longitude = 10,
     gf_radius = 500, gf_created_by = Some ''u0'', gf_created_at = None, gf_updated_at = None\<rparr>"

definition origin_fence :: geo_fence where
  "origin_fence = \<lparr>gf_id = ''g2'', gf_name = ''origin'', gf_latitude = 0, gf_longitude = 0,
     gf_radius = 1, gf_created_by = Some ''u0'', gf_created_at = None, gf_updated_at = None\<rparr>"

definition depot_fence :: geo_fence where
  "depot_fence = \<lparr>gf_id = ''g3'', gf_name = ''depot'', gf_latitude = 10,
     gf_longitude = 83 / 10, gf_radius = 1, gf_created_by = Some ''u0'', gf_created_at = None,
     gf_updated_at = None\<rparr>"

definition empty_policy_db :: database where
  "empty_policy_db = \<lparr>auth_users = [''u0'', ''u1''], profiles = [admin_profile, alice_profile],
     time_entries = [], schedules = [], audit_logs = [], ip_whitelist = [], geo_fences = []\<rparr>"

definition office_db :: database where
  "office_db = empty_policy_db\<lparr>ip_whitelist := [office_ip], geo_fences := [office_fence]\<rparr>"

definition draw_uuid :: "nat \<Rightarrow> uuid" where
  "draw_uuid n = replicate (Suc n) (CHR ''a'')"

definition alice_session :: session where
  "alice_session = \<lparr>auth_uid = Some ''u1'', bypassrls = False,
     request_headers = Some (JsonObject [(''x-forwarded-for'', Some ''9.9.9.9'')]),
     now = ''2025-02-10 13:41:18+00'', gen_random_uuid = draw_uuid\<rparr>"

definition service_session :: session where
  "service_session = \<lparr>auth_uid = None, bypassrls = True,
     request_headers = Some (JsonObject [(''user-agent'', Some ''curl'')]),
     now = ''2025-02-10 13:41:18+00'', gen_random_uuid = draw_uuid\<rparr>"

definition clock_in :: time_entry where
  "clock_in = \<lparr>te_id = ''t1'', te_user_id = Some ''u1'', te_entry_type = ''clock_in'',
     te_timestamp = None, te_ip_address = Some ''9.9.9.9'', te_device_info = None,
     te_latitude = Some 10, te_longitude = Some 10, te_notes = None, te_created_at = None\<rparr>"

definition earlier_record :: audit_log where
  "earlier_record = \<lparr>al_id = ''aaa'', al_user_id = None, al_action = ''INSERT'',
     al_table_name = Some ''geo_fences'', al_record_id = Some ''g0'', al_old_data = None,
     al_new_data = None, al_ip_address = None, al_created_at = None\<rparr>"

section \<open>Rounding to double precision\<close>

text \<open>
  Bounds for \<open>float8_round\<close>, the values it leaves unchanged, and the rule by which
  the rounded value of a given number is computed.
\<close>

subsection \<open>Rounding to an integer\<close>

lemma round_half_even_eq:
  assumes "\<bar>x - of_int n\<bar> < 1 / 2"
  shows "round_half_even x = n"
proof -
  have "\<lfloor>x\<rfloor> = n \<or> \<lfloor>x\<rfloor> = n - 1"
    using assms by linarith
  then show ?thesis
  proof
    assume f: "\<lfloor>x\<rfloor> = n"
    with assms have "x - of_int n < 1 / 2" by linarith
    with f show ?thesis by (simp add: round_half_even_def Let_def)
  next
    assume f: "\<lfloor>x\<rfloor> = n - 1"
    from assms have "1 / 2 < x - (of_int n - 1)" by linarith
    with f show ?thesis by (simp add: round_half_even_def Let_def)
  qed
qed

lemma round_half_even_int [simp]: "round_half_even (of_int n) = n"
  by (rule round_half_even_eq) simp

lemma round_half_even_tie:
  assumes "of_int n \<le> x" "x \<le> of_int n + 1 / 2" "even n"
  shows "round_half_even x = n"
proof -
  have "\<lfloor>x\<rfloor> = n"
    using assms(1,2) by linarith
  with assms show ?thesis
    by (simp add: round_half_even_def Let_def)
qed

lemma round_half_even_ge: "of_int n \<le> x \<Longrightarrow> n \<le> round_half_even x"
proof -
  assume "of_int n \<le> x"
  then have "n \<le> \<lfloor>x\<rfloor>" by (simp add: le_floor_iff)
  then show ?thesis
    by (simp add: round_half_even_def Let_def)
qed

lemma round_half_even_le: "x \<le> of_int n \<Longrightarrow> round_half_even x \<le> n"
proof -
  assume a: "x \<le> of_int n"
  show ?thesis
  proof (cases "x = of_int n")
    case True
    then show ?thesis by simp
  next
    case False
    with a have "x < of_int n" by simp
    then have "\<lfloor>x\<rfloor> < n" by (simp add: floor_less_iff)
    then show ?thesis
      by (simp add: round_half_even_def Let_def)
  qed
qed

lemma round_half_even_minus: "round_half_even (- x) = - round_half_even x"
proof (cases "x = of_int \<lfloor>x\<rfloor>")
  case True
  then obtain n where "x = of_int n" ..
  then show ?thesis
    by (simp flip: of_int_minus)
next
  case False
  define n where "n = \<lfloor>x\<rfloor>"
  have 1: "of_int n < x" "x < of_int n + 1"
    using False unfolding n_def by linarith+
  then have f: "\<lfloor>- x\<rfloor> = - n - 1"
    by linarith
  have e: "even (- n - 1) \<longleftrightarrow> odd n"
    by simp
  show ?thesis
    unfolding round_half_even_def Let_def f n_def [symmetric] e
    using 1 by (auto simp: algebra_simps)
qed

lemma floor_log2_eq:
  assumes "2 powi e \<le> x" "x < 2 powi (e + 1)"
  shows "\<lfloor>log 2 x\<rfloor> = e"
proof -
  have "0 < (2::real) powi e" by simp
  with assms(1) have x: "0 < x" by linarith
  have "(2::real) powr (real_of_int e) = 2 powi e" "(2::real) powr (real_of_int e + 1) = 2 powi (e + 1)"
    using powr_real_of_int' [of 2 e] powr_real_of_int' [of 2 "e + 1"] by simp_all
  with assms show ?thesis
    using floor_log_eq_powr_iff [of x 2 e] x by simp
qed

lemma floor_log2_bounds:
  assumes "0 < x"
  shows "2 powi \<lfloor>log 2 x\<rfloor> \<le> x" "x < 2 powi (\<lfloor>log 2 x\<rfloor> + 1)"
proof -
  have "(2::real) powr (real_of_int e) = 2 powi e" "(2::real) powr (real_of_int e + 1) = 2 powi (e + 1)" for e
    using powr_real_of_int' [of 2 e] powr_real_of_int' [of 2 "e + 1"] by simp_all
  then show "2 powi \<lfloor>log 2 x\<rfloor> \<le> x" "x < 2 powi (\<lfloor>log 2 x\<rfloor> + 1)"
    using floor_log_eq_powr_iff [of x 2 "\<lfloor>log 2 x\<rfloor>"] assms by simp_all
qed

subsection \<open>Bounds of the rounded value\<close>

lemma float8_exponent_minus [simp]: "float8_exponent (- x) = float8_exponent x"
  by (simp add: float8_exponent_def)

lemma float8_round_0 [simp]: "float8_round 0 = 0"
  by (simp add: float8_round_def)

lemma float8_round_minus: "float8_round (- x) = - float8_round x"
  by (simp add: float8_round_def round_half_even_minus)

lemma two_powi_of_int: "0 \<le> k \<Longrightarrow> (2::real) powi k = of_int (2 ^ nat k)"
  by (simp add: power_int_def)

lemma two_powi_split: "(2::real) powi a = 2 powi (a - b) * 2 powi b"
  by (simp flip: power_int_add)

lemma two_powi_less_cancel: "(2::real) powi a < 2 powi b \<Longrightarrow> a < b"
proof (rule ccontr)
  assume l: "(2::real) powi a < 2 powi b" and "\<not> a < b"
  then have "b \<le> a" by simp
  then have "(2::real) powi b \<le> 2 powi a"
    by (intro power_int_increasing) auto
  with l show False by simp
qed

lemma two_powi_le_cancel: "(2::real) powi a \<le> 2 powi b \<Longrightarrow> a \<le> b"
proof (rule ccontr)
  assume l: "(2::real) powi a \<le> 2 powi b" and "\<not> a \<le> b"
  then have "b < a" by simp
  then have "(2::real) powi b < 2 powi a"
    by (intro power_int_strict_increasing) auto
  with l show False by simp
qed

lemma round_half_even_pow2 [simp]: "round_half_even (2 ^ n) = 2 ^ n"
  using round_half_even_int [of "2 ^ n"] by simp

lemma float8_exponent_eq:
  assumes "2 powi e \<le> \<bar>x\<bar>" and "\<bar>x\<bar> < 2 powi (e + 1)"
  shows "float8_exponent x = max (e - 52) (- 1074)"
  unfolding float8_exponent_def floor_log2_eq [OF assms] ..

lemma float8_round_pos_bounds:
  assumes "2 powi e \<le> x" and "x < 2 powi (e + 1)" and "- 1074 \<le> e"
  shows "2 powi e \<le> float8_round x"
    and "float8_round x \<le> 2 powi (e + 1)"
proof -
  define q where "q = max (e - 52) (- 1074)"
  define m where "m = x / 2 powi q"
  have "0 < (2::real) powi e" by simp
  with assms(1) have x: "0 < x" by linarith
  have qx: "float8_exponent x = q"
    using float8_exponent_eq [of e x] assms(1,2) x by (simp add: q_def)
  have q: "q \<le> e"
    using assms(3) by (simp add: q_def)
  have p: "0 < (2::real) powi q" by simp
  have fr: "float8_round x = of_int (round_half_even m) * 2 powi q"
    using x by (simp add: float8_round_def qx m_def)
  have lo: "of_int (2 ^ nat (e - q)) \<le> m"
  proof -
    have "2 powi (e - q) * 2 powi q \<le> x"
      using assms(1) two_powi_split [of e q] by simp
    then have "2 powi (e - q) \<le> m"
      unfolding m_def using p by (simp add: pos_le_divide_eq)
    with q show ?thesis
      by (simp add: two_powi_of_int)
  qed
  have hi: "m \<le> of_int (2 ^ nat (e + 1 - q))"
  proof -
    have "x \<le> 2 powi (e + 1 - q) * 2 powi q"
      using assms(2) two_powi_split [of "e + 1" q] by simp
    then have "m \<le> 2 powi (e + 1 - q)"
      unfolding m_def using p by (simp add: pos_divide_le_eq)
    with q show ?thesis
      by (simp add: two_powi_of_int)
  qed
  have "2 powi e = 2 powi (e - q) * (2::real) powi q"
    by (rule two_powi_split)
  also have "\<dots> = of_int (2 ^ nat (e - q)) * 2 powi q"
    using q by (simp add: two_powi_of_int)
  also have "\<dots> \<le> of_int (round_half_even m) * 2 powi q"
    using round_half_even_ge [OF lo] by (intro mult_right_mono) auto
  finally show "2 powi e \<le> float8_round x"
    by (simp only: fr)
  have "of_int (round_half_even m) * 2 powi q \<le> of_int (2 ^ nat (e + 1 - q)) * (2::real) powi q"
    using round_half_even_le [OF hi] by (intro mult_right_mono) auto
  also have "\<dots> = 2 powi (e + 1 - q) * 2 powi q"
    using q by (simp add: two_powi_of_int)
  also have "\<dots> = 2 powi (e + 1)"
    by (rule two_powi_split [symmetric])
  finally show "float8_round x \<le> 2 powi (e + 1)"
    by (simp only: fr)
qed

lemma float8_round_tiny:
  assumes "0 < x" and "x < 2 powi (- 1074)"
  shows "0 \<le> float8_round x" and "float8_round x \<le> 2 powi (- 1074)"
proof -
  define m where "m = x / 2 powi (- 1074)"
  define e where "e = \<lfloor>log 2 x\<rfloor>"
  note b = floor_log2_bounds [OF assms(1), folded e_def]
  have "(2::real) powi e < 2 powi (- 1074)"
    using b(1) assms(2) by linarith
  then have "e < - 1074"
    by (rule two_powi_less_cancel)
  then have q: "float8_exponent x = - 1074"
    using float8_exponent_eq [of e x] b assms(1) by simp
  have fr: "float8_round x = of_int (round_half_even m) * 2 powi (- 1074)"
    using assms(1) by (simp only: float8_round_def q m_def) simp
  have "m \<le> of_int 1"
    unfolding m_def using assms(2) by (simp add: pos_divide_le_eq)
  from round_half_even_le [OF this] have 1: "round_half_even m \<le> 1" .
  have "of_int 0 \<le> m"
    unfolding m_def using assms(1) by simp
  from round_half_even_ge [OF this] have 0: "0 \<le> round_half_even m" .
  from 0 show "0 \<le> float8_round x"
    by (simp only: fr) simp
  have "of_int (round_half_even m) * 2 powi (- 1074) \<le> (1::real) * 2 powi (- 1074)"
    using 1 by (intro mult_right_mono) auto
  then show "float8_round x \<le> 2 powi (- 1074)"
    by (simp add: fr)
qed

lemma float8_round_nonneg: "0 \<le> x \<Longrightarrow> 0 \<le> float8_round x"
proof (cases "x = 0")
  case True
  then show ?thesis by simp
next
  case False
  assume "0 \<le> x"
  with False have x: "0 < x" by simp
  show ?thesis
  proof (cases "x < 2 powi (- 1074)")
    case True
    show ?thesis by (rule float8_round_tiny(1) [OF x True])
  next
    case False
    define e where "e = \<lfloor>log 2 x\<rfloor>"
    note b = floor_log2_bounds [OF x, folded e_def]
    have "(2::real) powi (- 1074) < 2 powi (e + 1)"
      using False b(2) by linarith
    then have "- 1074 < e + 1"
      by (rule two_powi_less_cancel)
    then have "- 1074 \<le> e" by linarith
    from float8_round_pos_bounds(1) [OF b this] have "2 powi e \<le> float8_round x" .
    moreover have "0 \<le> (2::real) powi e" by simp
    ultimately show ?thesis by linarith
  qed
qed

lemma float8_round_ge:
  assumes "2 powi k \<le> x" and "- 1074 \<le> k"
  shows "2 powi k \<le> float8_round x"
proof -
  have "0 < (2::real) powi k" by simp
  with assms(1) have x: "0 < x" by linarith
  define e where "e = \<lfloor>log 2 x\<rfloor>"
  note b = floor_log2_bounds [OF x, folded e_def]
  have "2 powi k < (2::real) powi (e + 1)"
    using assms(1) b(2) by linarith
  then have "k < e + 1"
    by (rule two_powi_less_cancel)
  then have ke: "k \<le> e" by linarith
  then have "(2::real) powi k \<le> 2 powi e"
    by (intro power_int_increasing) auto
  also have "\<dots> \<le> float8_round x"
    using ke assms(2) by (intro float8_round_pos_bounds(1) [OF b]) linarith
  finally show ?thesis .
qed

lemma float8_round_le:
  assumes "0 \<le> x" and "x \<le> 2 powi k" and "- 1074 \<le> k"
  shows "float8_round x \<le> 2 powi k"
proof (cases "x = 0")
  case True
  then show ?thesis by simp
next
  case False
  with assms(1) have x: "0 < x" by simp
  show ?thesis
  proof (cases "x < 2 powi (- 1074)")
    case True
    have "float8_round x \<le> 2 powi (- 1074)"
      using float8_round_tiny(2) [OF x True] .
    also have "\<dots> \<le> 2 powi k"
      using assms(3) by (intro power_int_increasing) auto
    finally show ?thesis .
  next
    case False
    define e where "e = \<lfloor>log 2 x\<rfloor>"
    note b = floor_log2_bounds [OF x, folded e_def]
    have "(2::real) powi (- 1074) < 2 powi (e + 1)"
      using False b(2) by linarith
    then have "- 1074 < e + 1"
      by (rule two_powi_less_cancel)
    then have e: "- 1074 \<le> e" by linarith
    have "(2::real) powi e \<le> 2 powi k"
      using b(1) assms(2) by linarith
    then have ek: "e \<le> k"
      by (rule two_powi_le_cancel)
    show ?thesis
    proof (cases "e = k")
      case True
      with b(1) assms(2) have xk: "x = 2 powi k" by simp
      have "2 powi k \<le> (2::real) powi k" by simp
      have "float8_round x = of_int (round_half_even (x / 2 powi max (k - 52) (- 1074))) * 2 powi max (k - 52) (- 1074)"
        using x float8_exponent_eq [of e x] b True by (simp add: float8_round_def)
      also have "x / 2 powi max (k - 52) (- 1074) = 2 powi (k - max (k - 52) (- 1074))"
        unfolding xk by (simp add: power_int_diff)
      also have "\<dots> = of_int (2 ^ nat (k - max (k - 52) (- 1074)))"
        using assms(3) by (intro two_powi_of_int) simp
      also have "of_int (round_half_even (of_int (2 ^ nat (k - max (k - 52) (- 1074))))) * 2 powi max (k - 52) (- 1074)
                   = 2 powi (k - max (k - 52) (- 1074)) * (2::real) powi max (k - 52) (- 1074)"
        using assms(3) by (simp add: two_powi_of_int)
      also have "\<dots> = 2 powi k"
        by (rule two_powi_split [symmetric])
      finally show ?thesis by simp
    next
      case False
      with ek have "e + 1 \<le> k" by simp
      have "float8_round x \<le> 2 powi (e + 1)"
        by (rule float8_round_pos_bounds(2) [OF b e])
      also have "\<dots> \<le> 2 powi k"
        using \<open>e + 1 \<le> k\<close> by (intro power_int_increasing) auto
      finally show ?thesis .
    qed
  qed
qed

subsection \<open>Computing a rounded value\<close>

lemma float8_round_eq:
  assumes "2 powi e \<le> \<bar>x\<bar>" and "\<bar>x\<bar> < 2 powi (e + 1)"
    and "q = max (e - 52) (- 1074)"
    and "\<bar>x / 2 powi q - of_int n\<bar> < 1 / 2"
  shows "float8_round x = of_int n * 2 powi q"
proof -
  have "0 < (2::real) powi e" by simp
  with assms(1) have x: "x \<noteq> 0" by linarith
  have qx: "float8_exponent x = q"
    using float8_exponent_eq [OF assms(1,2)] assms(3) by simp
  show ?thesis
    using x round_half_even_eq [OF assms(4)] by (simp add: float8_round_def qx)
qed

lemma float8_round_exact:
  assumes "x = of_int n * 2 powi q" and "float8_exponent x \<le> q"
  shows "float8_round x = x"
proof (cases "x = 0")
  case True
  then show ?thesis by simp
next
  case False
  define p where "p = float8_exponent x"
  have "x / 2 powi p = of_int n * (2 powi q / 2 powi p)"
    by (simp add: assms(1))
  also have "2 powi q / (2::real) powi p = 2 powi (q - p)"
    by (simp add: power_int_diff)
  also have "\<dots> = of_int (2 ^ nat (q - p))"
    using assms(2) by (intro two_powi_of_int) (simp add: p_def)
  finally have "x / 2 powi p = of_int (n * 2 ^ nat (q - p))"
    by simp
  then have "round_half_even (x / 2 powi p) = n * 2 ^ nat (q - p)"
    by (simp only: round_half_even_int)
  then have "float8_round x = of_int (n * 2 ^ nat (q - p)) * 2 powi p"
    using False by (simp add: float8_round_def p_def)
  also have "\<dots> = of_int n * (of_int (2 ^ nat (q - p)) * 2 powi p)"
    by simp
  also have "of_int (2 ^ nat (q - p)) = (2::real) powi (q - p)"
    using assms(2) by (intro two_powi_of_int [symmetric]) (simp add: p_def)
  also have "2 powi (q - p) * (2::real) powi p = 2 powi q"
    by (rule two_powi_split [symmetric])
  finally show ?thesis
    by (simp add: assms(1))
qed

lemma float8_round_form: "\<exists>k. float8_round x = of_int k * 2 powi float8_exponent x"
proof (cases "x = 0")
  case True
  then have "float8_round x = of_int 0 * 2 powi float8_exponent x" by simp
  then show ?thesis ..
next
  case False
  then show ?thesis by (auto simp add: float8_round_def)
qed

lemma float8_round_nonzero_ge:
  assumes "float8_round x \<noteq> 0"
  shows "2 powi (- 1074) \<le> \<bar>float8_round x\<bar>"
proof -
  obtain k where k: "float8_round x = of_int k * 2 powi float8_exponent x"
    using float8_round_form by blast
  with assms have "k \<noteq> 0" by auto
  then have "1 \<le> \<bar>real_of_int k\<bar>" by linarith
  have "(2::real) powi (- 1074) \<le> 2 powi float8_exponent x"
    by (intro power_int_increasing) (simp_all add: float8_exponent_def)
  also have "\<dots> = 1 * 2 powi float8_exponent x" by simp
  also have "\<dots> \<le> \<bar>real_of_int k\<bar> * 2 powi float8_exponent x"
    using \<open>1 \<le> \<bar>real_of_int k\<bar>\<close> by (intro mult_right_mono) auto
  also have "\<dots> = \<bar>float8_round x\<bar>"
    by (simp add: k abs_mult)
  finally show ?thesis .
qed

lemma float8_round_abs: "\<bar>float8_round x\<bar> = float8_round \<bar>x\<bar>"
proof (cases "0 \<le> x")
  case True
  then show ?thesis using float8_round_nonneg [of x] by simp
next
  case False
  then have "0 \<le> - x" by simp
  from float8_round_nonneg [OF this] False show ?thesis
    by (simp add: float8_round_minus)
qed

lemma float8_round_abs_le:
  assumes "\<bar>x\<bar> \<le> 2 powi k" and "- 1074 \<le> k"
  shows "\<bar>float8_round x\<bar> \<le> 2 powi k"
  unfolding float8_round_abs using assms by (intro float8_round_le) auto

lemma float8_round_abs_ge:
  assumes "2 powi k \<le> \<bar>x\<bar>" and "- 1074 \<le> k"
  shows "2 powi k \<le> \<bar>float8_round x\<bar>"
  unfolding float8_round_abs using assms by (intro float8_round_ge) auto

lemma float8_round_int:
  assumes "\<bar>n\<bar> < 2 ^ 53"
  shows "float8_round (of_int n) = of_int n"
proof (cases "n = 0")
  case True
  then show ?thesis by simp
next
  case False
  define x :: real where "x = of_int n"
  have x: "0 < \<bar>x\<bar>" using False by (simp add: x_def)
  define e where "e = \<lfloor>log 2 \<bar>x\<bar>\<rfloor>"
  note b = floor_log2_bounds [OF x, folded e_def]
  have "real_of_int \<bar>n\<bar> < real_of_int (2 ^ 53)"
    using assms by (simp only: of_int_less_iff)
  then have "\<bar>x\<bar> < 2 powi 53"
    by (simp add: x_def)
  with b(1) have "(2::real) powi e < 2 powi 53" by linarith
  then have "e < 53" by (rule two_powi_less_cancel)
  then have "float8_exponent x \<le> 0"
    by (simp add: float8_exponent_def e_def)
  moreover have "x = of_int n * 2 powi 0" by (simp add: x_def)
  ultimately have "float8_round x = x"
    by (rule float8_round_exact [rotated])
  then show ?thesis by (simp only: x_def)
qed

lemma float8_round_one_plus:
  assumes "0 \<le> t" and "t \<le> 2 powi (- 53)"
  shows "float8_round (1 + t) = 1"
proof -
  have t: "t \<le> 1 / 2 ^ 53" using assms(2) by (simp add: power_int_minus divide_simps)
  have "2 powi 0 \<le> \<bar>1 + t\<bar>" using assms(1) by simp
  moreover have "\<bar>1 + t\<bar> < 2 powi (0 + 1)" using assms(1) t by simp
  ultimately have q: "float8_exponent (1 + t) = - 52"
    using float8_exponent_eq [of 0 "1 + t"] by simp
  have m: "(1 + t) / 2 powi (- 52) = 2 ^ 52 + t * 2 ^ 52"
    by (simp add: power_int_minus field_simps)
  have "t * 2 ^ 52 \<le> 1 / 2" using t by simp
  then have "round_half_even ((1 + t) / 2 powi (- 52)) = 2 ^ 52"
    unfolding m using assms(1) by (intro round_half_even_tie) auto
  then show ?thesis
    using assms(1) by (simp add: float8_round_def q power_int_minus)
qed

lemma fl_1e_8: "float8_round (1 / 10 ^ 8) = 6044629098073146 * 2 powi (- 79)"
  using float8_round_eq [of "- 27" "1 / 10 ^ 8" "- 79" 6044629098073146]
  by (simp add: power_int_minus)

lemma fl_8_3: "float8_round (83 / 10) = 4672484613396890 * 2 powi (- 49)"
  using float8_round_eq [of 3 "83 / 10" "- 49" 4672484613396890]
  by (simp add: power_int_minus)

lemma fl_7_3: "float8_round (73 / 10) = 8219069319951155 * 2 powi (- 50)"
  using float8_round_eq [of 2 "73 / 10" "- 50" 8219069319951155]
  by (simp add: power_int_minus)

lemma round_half_even_div:
  assumes "\<bar>2 * a - 2 * n * 2 ^ k\<bar> < (2::int) ^ k"
  shows "round_half_even (of_int a / 2 ^ k) = n"
proof (rule round_half_even_eq)
  have "real_of_int \<bar>2 * a - 2 * n * 2 ^ k\<bar> < real_of_int (2 ^ k)"
    using assms by (simp only: of_int_less_iff)
  then have "\<bar>2 * real_of_int a - 2 * real_of_int n * 2 ^ k\<bar> < 2 ^ k"
    by simp
  moreover have "2 * real_of_int a - 2 * real_of_int n * 2 ^ k =
      (real_of_int a / 2 ^ k - real_of_int n) * (2 * 2 ^ k)"
    by (simp add: field_simps)
  ultimately have "\<bar>real_of_int a / 2 ^ k - real_of_int n\<bar> * (2 * 2 ^ k) < 1 / 2 * (2 * 2 ^ k)"
    by (simp add: abs_mult)
  then show "\<bar>real_of_int a / 2 ^ k - real_of_int n\<bar> < 1 / 2"
    by (simp only: mult_less_cancel_right) simp
qed

lemma round_half_even_div_tie:
  assumes "2 * a = 2 * n * 2 ^ k + (2::int) ^ k" and "even n"
  shows "round_half_even (of_int a / 2 ^ k) = n"
proof -
  have "real_of_int (2 * a) = real_of_int (2 * n * 2 ^ k + 2 ^ k)"
    using assms(1) by (simp only:)
  then have "real_of_int a = (real_of_int n + 1 / 2) * 2 ^ k"
    by (simp add: field_simps)
  then have "real_of_int a / 2 ^ k = real_of_int n + 1 / 2"
    by simp
  then show ?thesis
    using assms(2) by (intro round_half_even_tie) simp_all
qed

lemma float8_round_dyadic:
  assumes x: "x = of_int a * 2 powi p"
    and pe: "p \<le> e" and lo: "2 ^ nat (e - p) \<le> \<bar>a\<bar>" and hi: "\<bar>a\<bar> < 2 ^ nat (e + 1 - p)"
    and q: "q = max (e - 52) (- 1074)" and pq: "p \<le> q"
    and r: "round_half_even (of_int a / 2 ^ nat (q - p)) = n"
  shows "float8_round x = of_int n * 2 powi q"
proof -
  have ax: "\<bar>x\<bar> = real_of_int \<bar>a\<bar> * 2 powi p"
    by (simp add: x abs_mult)
  have "real_of_int (2 ^ nat (e - p)) \<le> real_of_int \<bar>a\<bar>"
    using lo by (simp only: of_int_le_iff)
  then have "2 powi (e - p) * 2 powi p \<le> real_of_int \<bar>a\<bar> * 2 powi p"
    using pe by (intro mult_right_mono) (simp_all add: two_powi_of_int)
  then have b1: "2 powi e \<le> \<bar>x\<bar>"
    using two_powi_split [of e p] by (simp only: ax)
  have "real_of_int \<bar>a\<bar> < real_of_int (2 ^ nat (e + 1 - p))"
    using hi by (simp only: of_int_less_iff)
  then have "real_of_int \<bar>a\<bar> * 2 powi p < 2 powi (e + 1 - p) * 2 powi p"
    using pe by (intro mult_strict_right_mono) (simp_all add: two_powi_of_int)
  then have b2: "\<bar>x\<bar> < 2 powi (e + 1)"
    using two_powi_split [of "e + 1" p] by (simp only: ax)
  have "0 < (2::real) powi e" by simp
  with b1 have x0: "x \<noteq> 0" by linarith
  have qx: "float8_exponent x = q"
    using float8_exponent_eq [OF b1 b2] q by simp
  have "x / 2 powi q = real_of_int a * (2 powi p / 2 powi q)"
    by (simp add: x)
  also have "2 powi p / (2::real) powi q = 1 / 2 powi (q - p)"
    by (simp add: power_int_diff)
  also have "(2::real) powi (q - p) = 2 ^ nat (q - p)"
    using pq by (simp add: power_int_def)
  finally have "x / 2 powi q = real_of_int a / 2 ^ nat (q - p)"
    by simp
  then show ?thesis
    using x0 r by (simp add: float8_round_def qx)
qed

lemma float8_round_sqrt:
  assumes z: "z = of_int a * 2 powi p"
    and b: "2 powi e \<le> sqrt z" "sqrt z < 2 powi (e + 1)"
    and q: "q = max (e - 52) (- 1074)" and pq: "2 * q \<le> p" and n: "1 \<le> n"
    and lo: "(2 * n - 1)\<^sup>2 < 4 * a * 2 ^ nat (p - 2 * q)"
    and hi: "4 * a * 2 ^ nat (p - 2 * q) < (2 * n + 1)\<^sup>2"
  shows "float8_round (sqrt z) = of_int n * 2 powi q"
proof -
  have p: "0 < (2::real) powi q" by simp
  have zz: "4 * z = real_of_int (4 * a * 2 ^ nat (p - 2 * q)) * (2 powi q)\<^sup>2"
  proof -
    have "(2::real) powi p = 2 powi (p - 2 * q) * 2 powi (2 * q)"
      by (rule two_powi_split)
    also have "(2::real) powi (2 * q) = (2 powi q)\<^sup>2"
      by (simp add: power2_eq_square flip: power_int_add)
    also have "(2::real) powi (p - 2 * q) = real_of_int (2 ^ nat (p - 2 * q))"
      using pq by (intro two_powi_of_int) simp
    finally show ?thesis
      by (simp add: z)
  qed
  have "real_of_int ((2 * n - 1)\<^sup>2) < real_of_int (4 * a * 2 ^ nat (p - 2 * q))"
    using lo by (simp only: of_int_less_iff)
  then have "real_of_int ((2 * n - 1)\<^sup>2) * (2 powi q)\<^sup>2 < 4 * z"
    unfolding zz using p by (intro mult_strict_right_mono) simp_all
  moreover have "2 * ((real_of_int n - 1 / 2) * 2 powi q) = real_of_int (2 * n - 1) * 2 powi q"
    by (simp add: algebra_simps)
  then have "(2 * ((real_of_int n - 1 / 2) * 2 powi q))\<^sup>2 =
      real_of_int ((2 * n - 1)\<^sup>2) * (2 powi q)\<^sup>2"
    by (simp only: power_mult_distrib of_int_power)
  ultimately have "(2 * ((real_of_int n - 1 / 2) * 2 powi q))\<^sup>2 < 2\<^sup>2 * z"
    by simp
  then have l2: "((real_of_int n - 1 / 2) * 2 powi q)\<^sup>2 < z"
    by (simp only: power_mult_distrib [of 2]) simp
  have "real_of_int (4 * a * 2 ^ nat (p - 2 * q)) < real_of_int ((2 * n + 1)\<^sup>2)"
    using hi by (simp only: of_int_less_iff)
  then have "4 * z < real_of_int ((2 * n + 1)\<^sup>2) * (2 powi q)\<^sup>2"
    unfolding zz using p by (intro mult_strict_right_mono) simp_all
  moreover have "2 * ((real_of_int n + 1 / 2) * 2 powi q) = real_of_int (2 * n + 1) * 2 powi q"
    by (simp add: algebra_simps)
  then have "(2 * ((real_of_int n + 1 / 2) * 2 powi q))\<^sup>2 =
      real_of_int ((2 * n + 1)\<^sup>2) * (2 powi q)\<^sup>2"
    by (simp only: power_mult_distrib of_int_power)
  ultimately have "2\<^sup>2 * z < (2 * ((real_of_int n + 1 / 2) * 2 powi q))\<^sup>2"
    by simp
  then have h2: "z < ((real_of_int n + 1 / 2) * 2 powi q)\<^sup>2"
    by (simp only: power_mult_distrib [of 2]) simp
  have "0 \<le> (real_of_int n + 1 / 2) * 2 powi q"
    using n by simp
  then have h: "sqrt z < (real_of_int n + 1 / 2) * 2 powi q"
    using h2 by (rule real_less_lsqrt)
  have l: "(real_of_int n - 1 / 2) * 2 powi q < sqrt z"
    using l2 by (rule real_less_rsqrt)
  have "real_of_int n - 1 / 2 < sqrt z / 2 powi q" "sqrt z / 2 powi q < real_of_int n + 1 / 2"
    using l h p by (simp_all add: pos_less_divide_eq pos_divide_less_eq)
  then have "\<bar>sqrt z / 2 powi q - real_of_int n\<bar> < 1 / 2"
    by linarith
  moreover have "0 < (2::real) powi e" by simp
  with b(1) have "0 \<le> sqrt z" by linarith
  ultimately show ?thesis
    using b q by (intro float8_round_eq [of e]) auto
qed

section \<open>The location authorizer\<close>

subsection \<open>Coordinates within the range of double precision\<close>

lemma abs_of_rat: "\<bar>of_rat v :: real\<bar> = of_rat \<bar>v\<bar>"
  by (simp add: abs_if of_rat_minus)

lemma not_float8_overflow:
  assumes "\<bar>x\<bar> \<le> 2 powi k" and "k < 1024"
  shows "\<not> float8_overflow x"
proof -
  have "(2::real) powi k < 2 powi 1024"
    using assms(2) by (intro power_int_strict_increasing) auto
  with assms(1) show ?thesis
    by (simp add: float8_overflow_def)
qed

lemma float8_safe_bounds:
  assumes "float8_safe v"
  shows "\<bar>float8_round (of_rat v)\<bar> \<le> 2 powi 1000"
    and "v \<noteq> 0 \<Longrightarrow> float8_round (of_rat v) \<noteq> 0"
proof -
  have up: "\<bar>of_rat v :: real\<bar> \<le> 2 powi 1000"
  proof -
    from assms have "\<bar>v\<bar> \<le> 2 ^ 1000"
      by (auto simp add: float8_safe_def)
    then have "(of_rat \<bar>v\<bar> :: real) \<le> of_rat (2 ^ 1000)"
      by (simp only: of_rat_less_eq)
    then show ?thesis
      by (simp add: abs_of_rat of_rat_power)
  qed
  then show "\<bar>float8_round (of_rat v)\<bar> \<le> 2 powi 1000"
    by (intro float8_round_abs_le) auto
  assume "v \<noteq> 0"
  with assms have "1 / 2 ^ 1000 \<le> \<bar>v\<bar>"
    by (auto simp add: float8_safe_def)
  then have "(of_rat (1 / 2 ^ 1000) :: real) \<le> of_rat \<bar>v\<bar>"
    by (simp only: of_rat_less_eq)
  then have "2 powi (- 1000) \<le> \<bar>of_rat v :: real\<bar>"
    by (simp add: abs_of_rat of_rat_divide of_rat_power power_int_minus divide_simps)
  then have "2 powi (- 1000) \<le> \<bar>float8_round (of_rat v)\<bar>"
    by (intro float8_round_abs_ge) auto
  moreover have "0 < (2::real) powi (- 1000)" by simp
  ultimately show "float8_round (of_rat v) \<noteq> 0" by linarith
qed

lemma numeric_to_float8_safe:
  assumes "float8_safe v"
  shows "numeric_to_float8 v = Inr (float8_round (of_rat v))"
proof -
  have "\<not> float8_overflow (float8_round (of_rat v))"
    using float8_safe_bounds(1) [OF assms] by (rule not_float8_overflow) simp
  moreover have "v = 0 \<or> float8_round (of_rat v) \<noteq> 0"
    using float8_safe_bounds(2) [OF assms] by blast
  ultimately show ?thesis
    by (auto simp add: numeric_to_float8_def Let_def)
qed

lemma float8_mi_safe:
  assumes "\<bar>a\<bar> \<le> 2 powi 1000" and "\<bar>b\<bar> \<le> 2 powi 1000"
  shows "float8_mi a b = Inr (float8_round (a - b))"
    and "\<bar>float8_round (a - b)\<bar> \<le> 2 powi 1001"
proof -
  have "(2::real) powi 1001 = 2 powi 1000 + 2 powi 1000"
    using two_powi_split [of 1001 1000] by simp
  with assms have "\<bar>a - b\<bar> \<le> 2 powi 1001" by linarith
  then show b: "\<bar>float8_round (a - b)\<bar> \<le> 2 powi 1001"
    by (intro float8_round_abs_le) auto
  have "\<not> float8_overflow (float8_round (a - b))"
    using b by (rule not_float8_overflow) simp
  then show "float8_mi a b = Inr (float8_round (a - b))"
    by (simp add: float8_mi_def Let_def)
qed

lemma pg_hypot_safe:
  assumes a: "\<bar>a\<bar> \<le> 2 powi 1001" "a = 0 \<or> 2 powi (- 1074) \<le> \<bar>a\<bar>"
    and b: "\<bar>b\<bar> \<le> 2 powi 1001" "b = 0 \<or> 2 powi (- 1074) \<le> \<bar>b\<bar>"
  shows "\<exists>d. pg_hypot a b = Inr d \<and> 0 \<le> d"
proof -
  define x where "x = max \<bar>a\<bar> \<bar>b\<bar>"
  define y where "y = min \<bar>a\<bar> \<bar>b\<bar>"
  show ?thesis
  proof (cases "y = 0")
    case True
    then have "pg_hypot a b = Inr x"
      by (simp add: pg_hypot_def Let_def x_def y_def)
    moreover have "0 \<le> x" by (simp add: x_def)
    ultimately show ?thesis by blast
  next
    case False
    have "0 \<le> y" by (simp add: y_def)
    with False have y: "0 < y" by simp
    have yx': "y \<le> x" by (simp add: x_def y_def)
    with y have x: "0 < x" by linarith
    have xlo: "2 powi (- 1074) \<le> x"
      using a(2) b(2) x unfolding x_def by (auto simp add: max_def split: if_splits)
    have xhi: "x \<le> 2 powi 1001"
      using a(1) b(1) by (simp add: x_def)
    define yx where "yx = float8_round (y / x)"
    define t1 where "t1 = float8_round (yx * yx)"
    define t2 where "t2 = float8_round (1 + t1)"
    define t3 where "t3 = float8_round (sqrt t2)"
    define result where "result = float8_round (x * t3)"
    have q: "0 \<le> y / x" "y / x \<le> 2 powi 0"
      using x y yx' by simp_all
    have yx: "0 \<le> yx" "yx \<le> 1"
      using float8_round_nonneg [OF q(1)] float8_round_le [OF q(1) q(2)]
      by (simp_all add: yx_def)
    have "0 \<le> yx * yx" "yx * yx \<le> 2 powi 0"
      using yx by (simp_all add: mult_le_one)
    then have t1: "0 \<le> t1" "t1 \<le> 1"
      using float8_round_nonneg [of "yx * yx"] float8_round_le [of "yx * yx" 0]
      by (simp_all add: t1_def)
    have "2 powi 0 \<le> 1 + t1" "0 \<le> 1 + t1" "1 + t1 \<le> 2 powi 1"
      using t1 by simp_all
    then have t2: "1 \<le> t2" "t2 \<le> 2"
      using float8_round_ge [of 0 "1 + t1"] float8_round_le [of "1 + t1" 1]
      by (simp_all add: t2_def)
    have "sqrt 1 \<le> sqrt t2" "sqrt t2 \<le> sqrt 4"
      using t2 by (simp_all only: real_sqrt_le_iff)
    then have s: "2 powi 0 \<le> sqrt t2" "0 \<le> sqrt t2" "sqrt t2 \<le> 2 powi 1"
      by simp_all
    have t3: "1 \<le> t3" "t3 \<le> 2"
      using float8_round_ge [OF s(1)] float8_round_le [OF s(2) s(3)]
      by (simp_all add: t3_def)
    have "x * 1 \<le> x * t3"
      using x t3(1) by (intro mult_left_mono) auto
    then have "x \<le> x * t3" by simp
    with xlo have lo: "2 powi (- 1074) \<le> x * t3" by linarith
    have "x * t3 \<le> 2 powi 1001 * 2"
      using x xhi t3 by (intro mult_mono) auto
    also have "\<dots> = 2 powi 1002"
      using two_powi_split [of 1002 1] by simp
    finally have hi: "x * t3 \<le> 2 powi 1002" .
    have "0 < (2::real) powi (- 1074)" by simp
    with lo have nn: "0 \<le> x * t3" by linarith
    have r1: "2 powi (- 1074) \<le> result"
      unfolding result_def using lo by (rule float8_round_ge) simp
    have r2: "result \<le> 2 powi 1002"
      unfolding result_def using nn hi by (rule float8_round_le) simp
    have r0: "0 < result"
      using r1 \<open>0 < 2 powi (- 1074)\<close> by linarith
    then have "\<bar>result\<bar> \<le> 2 powi 1002" using r2 by simp
    then have "\<not> float8_overflow result"
      by (rule not_float8_overflow) simp
    with r0 False have "pg_hypot a b = Inr result"
      by (simp add: pg_hypot_def Let_def x_def y_def yx_def t1_def t2_def t3_def result_def)
    with r0 show ?thesis by auto
  qed
qed

lemma point_dt_safe:
  assumes "\<bar>fst p\<bar> \<le> 2 powi 1000" "\<bar>snd p\<bar> \<le> 2 powi 1000"
    and "\<bar>fst q\<bar> \<le> 2 powi 1000" "\<bar>snd q\<bar> \<le> 2 powi 1000"
  shows "\<exists>d. point_dt p q = Inr d \<and> 0 \<le> d"
proof -
  note dx = float8_mi_safe [OF assms(1,3)]
  note dy = float8_mi_safe [OF assms(2,4)]
  have "float8_round (fst p - fst q) = 0 \<or> 2 powi (- 1074) \<le> \<bar>float8_round (fst p - fst q)\<bar>"
    using float8_round_nonzero_ge by blast
  moreover have "float8_round (snd p - snd q) = 0 \<or> 2 powi (- 1074) \<le> \<bar>float8_round (snd p - snd q)\<bar>"
    using float8_round_nonzero_ge by blast
  ultimately show ?thesis
    using pg_hypot_safe [OF dx(2) _ dy(2)] by (simp add: point_dt_def dx(1) dy(1))
qed

subsection \<open>The two queries\<close>

lemma fence_where_None [simp]: "fence_where None f = Inr None"
  by (simp add: fence_where_def sql_circle_def)

lemma fence_where_Some:
  "fence_where (Some c) f =
     (case numeric_to_float8 (gf_longitude f) of Inl e \<Rightarrow> Inl e | Inr x \<Rightarrow>
        (case numeric_to_float8 (gf_latitude f) of Inl e \<Rightarrow> Inl e | Inr y \<Rightarrow>
           (case point_dt c (x, y) of Inl e \<Rightarrow> Inl e
            | Inr d \<Rightarrow> Inr (Some (d \<le> of_int (gf_radius f))))))"
  by (simp add: fence_where_def sql_circle_def sql_point_def cast_float8_def
      pt_contained_circle_def int4_to_float8_def split: sum.splits)

lemma fence_where_safe:
  assumes "\<bar>fst c\<bar> \<le> 2 powi 1000" "\<bar>snd c\<bar> \<le> 2 powi 1000"
    and "float8_safe (gf_longitude f)" "float8_safe (gf_latitude f)"
  shows "\<exists>d. point_dt c (float8_round (of_rat (gf_longitude f)),
                         float8_round (of_rat (gf_latitude f))) = Inr d \<and>
             fence_where (Some c) f = Inr (Some (d \<le> of_int (gf_radius f)))"
proof -
  obtain d where "point_dt c (float8_round (of_rat (gf_longitude f)),
                         float8_round (of_rat (gf_latitude f))) = Inr d"
    using point_dt_safe [of c "(float8_round (of_rat (gf_longitude f)),
                         float8_round (of_rat (gf_latitude f)))"]
      assms(1,2) float8_safe_bounds(1) [OF assms(3)] float8_safe_bounds(1) [OF assms(4)]
    by auto
  then show ?thesis
    by (simp add: fence_where_Some numeric_to_float8_safe [OF assms(3)]
        numeric_to_float8_safe [OF assms(4)])
qed

lemma select_exists_total:
  assumes "\<forall>r \<in> set rs. \<exists>c. w r = Inr c"
  shows "select_exists w rs = Inr (\<exists>r \<in> set rs. w r = Inr (Some True))"
  using assms by (induction rs) (auto simp add: sql_where_def)

lemma select_exists_True_iff:
  "select_exists w rs = Inr True \<longleftrightarrow>
     (\<exists>rs1 r rs2. rs = rs1 @ r # rs2 \<and>
        (\<forall>q \<in> set rs1. \<exists>c. w q = Inr c \<and> c \<noteq> Some True) \<and> w r = Inr (Some True))"
proof (induction rs)
  case Nil
  show ?case by simp
next
  case (Cons a rs)
  show ?case
  proof (cases "w a")
    case (Inl e)
    then have "\<not> (\<exists>rs1 r rs2. a # rs = rs1 @ r # rs2 \<and>
        (\<forall>q \<in> set rs1. \<exists>c. w q = Inr c \<and> c \<noteq> Some True) \<and> w r = Inr (Some True))"
      by (auto simp add: Cons_eq_append_conv)
    with Inl show ?thesis by simp
  next
    case (Inr c)
    show ?thesis
    proof (cases "c = Some True")
      case True
      with Inr have "a # rs = [] @ a # rs \<and>
        (\<forall>q \<in> set []. \<exists>c. w q = Inr c \<and> c \<noteq> Some True) \<and> w a = Inr (Some True)"
        by simp
      then have "\<exists>rs1 r rs2. a # rs = rs1 @ r # rs2 \<and>
        (\<forall>q \<in> set rs1. \<exists>c. w q = Inr c \<and> c \<noteq> Some True) \<and> w r = Inr (Some True)"
        by blast
      with Inr True show ?thesis by (simp add: sql_where_def)
    next
      case False
      have "(\<exists>rs1 r rs2. a # rs = rs1 @ r # rs2 \<and>
        (\<forall>q \<in> set rs1. \<exists>c. w q = Inr c \<and> c \<noteq> Some True) \<and> w r = Inr (Some True)) \<longleftrightarrow>
        (\<exists>rs1 r rs2. rs = rs1 @ r # rs2 \<and>
        (\<forall>q \<in> set rs1. \<exists>c. w q = Inr c \<and> c \<noteq> Some True) \<and> w r = Inr (Some True))"
        (is "?L \<longleftrightarrow> ?R")
      proof
        assume ?L
        then obtain rs1 r rs2 where h: "a # rs = rs1 @ r # rs2"
          "\<forall>q \<in> set rs1. \<exists>c. w q = Inr c \<and> c \<noteq> Some True" "w r = Inr (Some True)"
          by blast
        from h(3) Inr False have "rs1 \<noteq> []"
          using h(1) by (cases rs1) auto
        then obtain rs1' where "rs1 = a # rs1'"
          using h(1) by (cases rs1) auto
        with h show ?R by auto
      next
        assume ?R
        then obtain rs1 r rs2 where h: "rs = rs1 @ r # rs2"
          "\<forall>q \<in> set rs1. \<exists>c. w q = Inr c \<and> c \<noteq> Some True" "w r = Inr (Some True)"
          by blast
        then have "a # rs = (a # rs1) @ r # rs2 \<and>
          (\<forall>q \<in> set (a # rs1). \<exists>c. w q = Inr c \<and> c \<noteq> Some True) \<and> w r = Inr (Some True)"
          using Inr False by simp
        then show ?L by blast
      qed
      with Cons.IH Inr False show ?thesis by (simp add: sql_where_def)
    qed
  qed
qed

lemma select_exists_null [simp]: "select_exists (\<lambda>r. Inr None) rs = Inr False"
  by (induction rs) (simp_all add: sql_where_def)

lemma ip_allowed_iff:
  "ip_allowed db ip \<longleftrightarrow> (\<exists>a. ip = Some a \<and> a \<in> iw_ip_address ` set (ip_whitelist db))"
  by (cases ip) (auto simp add: ip_allowed_def sql_where_def sql_eq_def)

lemma sql_point_Some:
  "sql_point (Some b) (Some a) =
     (case numeric_to_float8 b of Inl e \<Rightarrow> Inl e | Inr x \<Rightarrow>
        (case numeric_to_float8 a of Inl e \<Rightarrow> Inl e | Inr y \<Rightarrow> Inr (Some (x, y))))"
  by (simp add: sql_point_def cast_float8_def split: sum.splits)

lemma sql_point_None:
  "lo = None \<or> la = None \<Longrightarrow> sql_point lo la = Inr None \<or> isl (sql_point lo la)"
  by (auto simp add: sql_point_def cast_float8_def split: sum.splits option.splits)

lemma float8_round_numeral:
  "numeral n < (2::int) ^ 53 \<Longrightarrow> float8_round (numeral n) = numeral n"
  using float8_round_int [of "numeral n"] by simp

lemma float8_round_1 [simp]: "float8_round 1 = 1"
  using float8_round_int [of 1] by simp

lemma pg_hypot_0 [simp]: "pg_hypot a 0 = Inr \<bar>a\<bar>"
  by (simp add: pg_hypot_def)

lemma float8_mi_same:
  assumes "\<bar>a\<bar> \<le> 2 powi 1000"
  shows "float8_mi a a = Inr 0"
  using float8_mi_safe(1) [OF assms assms] by simp

lemma geo_allowed_safe:
  assumes "float8_safe a" and "float8_safe b"
    and "\<forall>f \<in> set (geo_fences db). float8_safe (gf_longitude f) \<and> float8_safe (gf_latitude f)"
  shows "geo_allowed db (Some a) (Some b) =
           Inr (\<exists>f \<in> set (geo_fences db). \<exists>d.
                  point_dt (float8_round (of_rat b), float8_round (of_rat a))
                    (float8_round (of_rat (gf_longitude f)),
                     float8_round (of_rat (gf_latitude f))) = Inr d \<and>
                  d \<le> of_int (gf_radius f))"
proof -
  define c where "c = (float8_round (of_rat b :: real), float8_round (of_rat a :: real))"
  have c: "\<bar>fst c\<bar> \<le> 2 powi 1000" "\<bar>snd c\<bar> \<le> 2 powi 1000"
    using float8_safe_bounds(1) [OF assms(1)] float8_safe_bounds(1) [OF assms(2)]
    by (simp_all add: c_def)
  have w: "\<exists>d. point_dt c (float8_round (of_rat (gf_longitude f)),
                         float8_round (of_rat (gf_latitude f))) = Inr d \<and>
             fence_where (Some c) f = Inr (Some (d \<le> of_int (gf_radius f)))"
    if "f \<in> set (geo_fences db)" for f
    using fence_where_safe [OF c] assms(3) that by blast
  have "sql_point (Some b) (Some a) = Inr (Some c)"
    by (simp add: sql_point_Some numeric_to_float8_safe assms(1,2) c_def)
  then have "geo_allowed db (Some a) (Some b) = select_exists (fence_where (Some c)) (geo_fences db)"
    by (simp add: geo_allowed_def)
  also have "\<dots> = Inr (\<exists>f \<in> set (geo_fences db). fence_where (Some c) f = Inr (Some True))"
    using w by (intro select_exists_total) blast
  also have "(\<exists>f \<in> set (geo_fences db). fence_where (Some c) f = Inr (Some True)) \<longleftrightarrow>
        (\<exists>f \<in> set (geo_fences db). \<exists>d.
                  point_dt c (float8_round (of_rat (gf_longitude f)),
                     float8_round (of_rat (gf_latitude f))) = Inr d \<and>
                  d \<le> of_int (gf_radius f))"
    using w by (intro bex_cong refl) fastforce
  finally show ?thesis
    by (simp only: c_def)
qed

lemma geo_allowed_True_iff:
  "geo_allowed db la lo = Inr True \<longleftrightarrow>
     (\<exists>a b x y fs1 f fs2. la = Some a \<and> lo = Some b \<and>
        numeric_to_float8 b = Inr x \<and> numeric_to_float8 a = Inr y \<and>
        geo_fences db = fs1 @ f # fs2 \<and>
        (\<forall>g \<in> set fs1. fence_where (Some (x, y)) g = Inr (Some False)) \<and>
        fence_where (Some (x, y)) f = Inr (Some True))"
  (is "?L \<longleftrightarrow> ?R")
proof
  assume l: ?L
  then obtain center where c: "sql_point lo la = Inr center"
    and s: "select_exists (fence_where center) (geo_fences db) = Inr True"
    by (auto simp add: geo_allowed_def split: sum.splits)
  have "center \<noteq> None"
  proof
    assume "center = None"
    then have "select_exists (fence_where center) (geo_fences db) = Inr False"
      by (simp add: fence_where_None [abs_def])
    with s show False by simp
  qed
  then obtain x y where xy: "center = Some (x, y)" by auto
  with c obtain a b where ab: "la = Some a" "lo = Some b"
    "numeric_to_float8 b = Inr x" "numeric_to_float8 a = Inr y"
    by (auto simp add: sql_point_def cast_float8_def split: sum.splits option.splits)
  from s obtain fs1 f fs2 where f: "geo_fences db = fs1 @ f # fs2"
    "\<forall>q \<in> set fs1. \<exists>c. fence_where (Some (x, y)) q = Inr c \<and> c \<noteq> Some True"
    "fence_where (Some (x, y)) f = Inr (Some True)"
    unfolding select_exists_True_iff xy by blast
  have "fence_where (Some (x, y)) g = Inr (Some False)" if "g \<in> set fs1" for g
  proof -
    from f(2) that obtain c where "fence_where (Some (x, y)) g = Inr c" "c \<noteq> Some True"
      by blast
    then show ?thesis
      by (auto simp add: fence_where_Some split: sum.splits)
  qed
  with ab f(1,3) show ?R by blast
next
  assume ?R
  then obtain a b x y fs1 f fs2 where h: "la = Some a" "lo = Some b"
    "numeric_to_float8 b = Inr x" "numeric_to_float8 a = Inr y"
    "geo_fences db = fs1 @ f # fs2"
    "\<forall>g \<in> set fs1. fence_where (Some (x, y)) g = Inr (Some False)"
    "fence_where (Some (x, y)) f = Inr (Some True)"
    by blast
  have "select_exists (fence_where (Some (x, y))) (geo_fences db) = Inr True"
    unfolding select_exists_True_iff using h(5,6,7) by fastforce
  then show ?L
    by (simp add: geo_allowed_def sql_point_Some h)
qed

lemma geo_allowed_empty:
  "geo_fences db = [] \<Longrightarrow> geo_allowed db la lo \<noteq> Inr True"
  by (simp add: geo_allowed_True_iff)

lemma check_location_restrictions_True_iff:
  "check_location_restrictions db la lo ip = Inr True \<longleftrightarrow>
     ip_allowed db ip \<and> geo_allowed db la lo = Inr True"
  by (auto simp add: check_location_restrictions_def split: sum.splits)

lemma geo_allowed_cast_error:
  "lo = Some b \<and> numeric_to_float8 b = Inl e \<Longrightarrow> geo_allowed db la lo = Inl e"
  "la = Some a \<and> numeric_to_float8 a = Inl e \<and>
     (lo = None \<or> (\<exists>b x. lo = Some b \<and> numeric_to_float8 b = Inr x)) \<Longrightarrow>
     geo_allowed db la lo = Inl e"
  by (auto simp add: geo_allowed_def sql_point_def cast_float8_def)

lemma geo_allowed_null:
  assumes "la = None \<or> lo = None"
    and "\<forall>v. la = Some v \<or> lo = Some v \<longrightarrow> float8_safe v"
  shows "geo_allowed db la lo = Inr False"
proof -
  have "sql_point lo la = Inr None"
    using assms
    by (cases la; cases lo) (auto simp add: sql_point_def cast_float8_def numeric_to_float8_safe)
  then show ?thesis
    by (simp add: geo_allowed_def fence_where_None [abs_def])
qed

subsection \<open>The result of the authorizer\<close>

text \<open>
  C1, as the function computes it. \<^verbatim>\<open>check_location_restrictions\<close> returns true if
  and only if the given address is in the whitelist, latitude and longitude are not NULL
  and are cast to \<^verbatim>\<open>float8\<close> without error, and, reading the fences in order, one
  fence contains the point and no fence before it raises an error. A fence contains the
  point when the distance that \<^verbatim>\<open>point_dt\<close> computes in \<^verbatim>\<open>float8\<close>, from the
  rounded coordinates of the point and of the center, is at most the radius. The result
  is never true when the address, the latitude or the longitude is NULL, or when the
  whitelist or the table of fences is empty. For coordinates within the range of
  \<open>float8_safe\<close> no operation raises, and the function returns the conjunction of the
  two checks, false when either fails. A latitude or longitude out of the range of
  \<^verbatim>\<open>float8\<close> makes the function raise \<open>NumericValueOutOfRange\<close>, whatever the two
  tables hold. The distance compared with the radius is the rounded one, not the exact
  distance in the plane of the degree coordinates.
\<close>

theorem check_location_restrictions_float8:
  "(check_location_restrictions db la lo ip = Inr True \<longleftrightarrow>
      (\<exists>a. ip = Some a \<and> a \<in> iw_ip_address ` set (ip_whitelist db)) \<and>
      (\<exists>a b x y fs1 f fs2. la = Some a \<and> lo = Some b \<and>
         numeric_to_float8 b = Inr x \<and> numeric_to_float8 a = Inr y \<and>
         geo_fences db = fs1 @ f # fs2 \<and>
         (\<forall>g \<in> set fs1. fence_where (Some (x, y)) g = Inr (Some False)) \<and>
         fence_where (Some (x, y)) f = Inr (Some True))) \<and>
   (fence_where (Some c) g = Inr (Some inside) \<longleftrightarrow>
      (\<exists>x y d. numeric_to_float8 (gf_longitude g) = Inr x \<and>
         numeric_to_float8 (gf_latitude g) = Inr y \<and> point_dt c (x, y) = Inr d \<and>
         inside = (d \<le> of_int (gf_radius g)))) \<and>
   (la = None \<or> lo = None \<or> ip = None \<or> ip_whitelist db = [] \<or> geo_fences db = [] \<longrightarrow>
      check_location_restrictions db la lo ip \<noteq> Inr True) \<and>
   ((\<forall>v. la = Some v \<or> lo = Some v \<longrightarrow> float8_safe v) \<and>
    (\<forall>f \<in> set (geo_fences db). float8_safe (gf_longitude f) \<and> float8_safe (gf_latitude f)) \<longrightarrow>
      check_location_restrictions db la lo ip =
        Inr ((\<exists>a. ip = Some a \<and> a \<in> iw_ip_address ` set (ip_whitelist db)) \<and>
             (\<exists>a b. la = Some a \<and> lo = Some b \<and>
                (\<exists>f \<in> set (geo_fences db). \<exists>d.
                   point_dt (float8_round (of_rat b), float8_round (of_rat a))
                     (float8_round (of_rat (gf_longitude f)),
                      float8_round (of_rat (gf_latitude f))) = Inr d \<and>
                   d \<le> of_int (gf_radius f))))) \<and>
   (lo = Some v \<and> numeric_to_float8 v = Inl e \<longrightarrow>
      check_location_restrictions db la lo ip = Inl e) \<and>
   (la = Some v \<and> numeric_to_float8 v = Inl e \<and>
    (lo = None \<or> (\<exists>b x. lo = Some b \<and> numeric_to_float8 b = Inr x)) \<longrightarrow>
      check_location_restrictions db la lo ip = Inl e)"
proof (intro conjI impI)
  show "check_location_restrictions db la lo ip = Inr True \<longleftrightarrow>
      (\<exists>a. ip = Some a \<and> a \<in> iw_ip_address ` set (ip_whitelist db)) \<and>
      (\<exists>a b x y fs1 f fs2. la = Some a \<and> lo = Some b \<and>
         numeric_to_float8 b = Inr x \<and> numeric_to_float8 a = Inr y \<and>
         geo_fences db = fs1 @ f # fs2 \<and>
         (\<forall>g \<in> set fs1. fence_where (Some (x, y)) g = Inr (Some False)) \<and>
         fence_where (Some (x, y)) f = Inr (Some True))"
    by (simp only: check_location_restrictions_True_iff ip_allowed_iff geo_allowed_True_iff)
next
  show "fence_where (Some c) g = Inr (Some inside) \<longleftrightarrow>
      (\<exists>x y d. numeric_to_float8 (gf_longitude g) = Inr x \<and>
         numeric_to_float8 (gf_latitude g) = Inr y \<and> point_dt c (x, y) = Inr d \<and>
         inside = (d \<le> of_int (gf_radius g)))"
    by (auto simp add: fence_where_Some split: sum.splits)
next
  assume h: "la = None \<or> lo = None \<or> ip = None \<or> ip_whitelist db = [] \<or> geo_fences db = []"
  show "check_location_restrictions db la lo ip \<noteq> Inr True"
  proof
    assume "check_location_restrictions db la lo ip = Inr True"
    then have "ip_allowed db ip" "geo_allowed db la lo = Inr True"
      by (simp_all add: check_location_restrictions_True_iff)
    then have "ip \<noteq> None" "ip_whitelist db \<noteq> []" "la \<noteq> None" "lo \<noteq> None" "geo_fences db \<noteq> []"
      by (auto simp add: ip_allowed_iff geo_allowed_True_iff)
    with h show False by blast
  qed
next
  assume h: "(\<forall>v. la = Some v \<or> lo = Some v \<longrightarrow> float8_safe v) \<and>
    (\<forall>f \<in> set (geo_fences db). float8_safe (gf_longitude f) \<and> float8_safe (gf_latitude f))"
  show "check_location_restrictions db la lo ip =
        Inr ((\<exists>a. ip = Some a \<and> a \<in> iw_ip_address ` set (ip_whitelist db)) \<and>
             (\<exists>a b. la = Some a \<and> lo = Some b \<and>
                (\<exists>f \<in> set (geo_fences db). \<exists>d.
                   point_dt (float8_round (of_rat b), float8_round (of_rat a))
                     (float8_round (of_rat (gf_longitude f)),
                      float8_round (of_rat (gf_latitude f))) = Inr d \<and>
                   d \<le> of_int (gf_radius f))))"
  proof (cases "la = None \<or> lo = None")
    case True
    with h have "geo_allowed db la lo = Inr False"
      by (intro geo_allowed_null) auto
    with True show ?thesis
      by (auto simp add: check_location_restrictions_def)
  next
    case False
    then obtain a b where ab: "la = Some a" "lo = Some b" by auto
    with h have "float8_safe a" "float8_safe b" by auto
    from geo_allowed_safe [OF this] h show ?thesis
      by (simp add: check_location_restrictions_def ab ip_allowed_iff)
  qed
next
  assume "lo = Some v \<and> numeric_to_float8 v = Inl e"
  then have "geo_allowed db la lo = Inl e"
    by (rule geo_allowed_cast_error(1))
  then show "check_location_restrictions db la lo ip = Inl e"
    by (simp add: check_location_restrictions_def)
next
  assume "la = Some v \<and> numeric_to_float8 v = Inl e \<and>
    (lo = None \<or> (\<exists>b x. lo = Some b \<and> numeric_to_float8 b = Inr x))"
  then have "geo_allowed db la lo = Inl e"
    by (rule geo_allowed_cast_error(2))
  then show "check_location_restrictions db la lo ip = Inl e"
    by (simp add: check_location_restrictions_def)
qed

lemma pg_hypot_one_tiny:
  assumes "0 < y" and "y * y \<le> 2 powi (- 53)" and "float8_round y = y"
  shows "pg_hypot 1 y = Inr 1"
proof -
  have "y * y \<le> 1 * 1"
  proof -
    have "(2::real) powi (- 53) \<le> 2 powi 0"
      by (intro power_int_increasing) auto
    with assms(2) show ?thesis by simp
  qed
  have "y \<le> 1"
  proof (rule ccontr)
    assume "\<not> y \<le> 1"
    then have "1 * 1 < y * y"
      by (intro mult_strict_mono) auto
    with \<open>y * y \<le> 1 * 1\<close> show False by simp
  qed
  then have m: "\<bar>y\<bar> = y" "max 1 y = 1" "min 1 y = y"
    using assms(1) by simp_all
  have "0 \<le> y * y" by simp
  then have t1: "0 \<le> float8_round (y * y)" "float8_round (y * y) \<le> 2 powi (- 53)"
    using float8_round_nonneg [of "y * y"] float8_round_le [OF _ assms(2)] by simp_all
  have t2: "float8_round (1 + float8_round (y * y)) = 1"
    using t1 by (rule float8_round_one_plus)
  have "\<not> float8_overflow 1"
    by (simp add: float8_overflow_def)
  then show ?thesis
    using assms(1) by (simp add: pg_hypot_def Let_def m assms(3) t2)
qed

lemma float8_safe_numeral [simp]:
  "float8_safe 0" "float8_safe 1" "float8_safe 10" "float8_safe 510"
  "float8_safe (73 / 10)" "float8_safe (83 / 10)" "float8_safe (1 / 100000000)"
  by (simp_all add: float8_safe_def)

lemma of_rat_samples:
  "(of_rat (73 / 10) :: real) = 73 / 10" "(of_rat (83 / 10) :: real) = 83 / 10"
  "(of_rat (1 / 100000000) :: real) = 1 / 100000000"
  by (simp_all add: of_rat_divide)

lemma point_dt_origin:
  "point_dt (1, float8_round (1 / 100000000)) (0, 0) = Inr 1"
proof -
  define y :: real where "y = 6044629098073146 * 2 powi (- 79)"
  have y: "float8_round (1 / 100000000) = y"
    using fl_1e_8 by (simp add: y_def)
  have y0: "0 < y"
    by (simp add: y_def)
  have "2 powi (- 27) \<le> \<bar>y\<bar>" "\<bar>y\<bar> < 2 powi (- 27 + 1)"
    by (simp_all add: y_def power_int_minus)
  from float8_exponent_eq [OF this] have "float8_exponent y \<le> - 79"
    by simp
  moreover have "y = of_int 6044629098073146 * 2 powi (- 79)"
    by (simp add: y_def)
  ultimately have fy: "float8_round y = y"
    by (rule float8_round_exact [rotated])
  have yy: "y * y \<le> 2 powi (- 53)"
    by (simp add: y_def power_int_minus)
  have "\<bar>y\<bar> \<le> 2 powi 1000"
    by (simp add: y_def power_int_minus)
  have "\<not> float8_overflow 1" "\<not> float8_overflow y"
    by (simp_all add: float8_overflow_def y_def power_int_minus)
  then have "float8_mi 1 0 = Inr 1" "float8_mi y 0 = Inr y"
    by (simp_all add: float8_mi_def fy)
  then show ?thesis
    by (simp add: point_dt_def y pg_hypot_one_tiny [OF y0 yy fy])
qed

text \<open>
  With the exact distance the claim does not hold. The only fence has radius \<open>1\<close>
  around the origin, and the point of latitude \<open>0.00000001\<close> and longitude \<open>1\<close> lies
  outside it: its distance from the center exceeds \<open>1\<close>. In \<^verbatim>\<open>float8\<close> the
  hypotenuse of \<open>1\<close> and the rounded latitude is \<open>1\<close>, and the authorizer returns
  true.
\<close>

theorem check_location_restrictions_counterexample:
  "check_location_restrictions (office_db\<lparr>geo_fences := [origin_fence]\<rparr>)
     (Some (1 / 10 ^ 8)) (Some 1) (Some ''1.2.3.4'') = Inr True \<and>
   of_int (gf_radius origin_fence) < fence_distance origin_fence (1 / 10 ^ 8) 1"
proof
  have "geo_allowed (office_db\<lparr>geo_fences := [origin_fence]\<rparr>) (Some (1 / 10 ^ 8)) (Some 1) =
          Inr True"
    using geo_allowed_safe [of "1 / 10 ^ 8" 1 "office_db\<lparr>geo_fences := [origin_fence]\<rparr>"]
    by (simp add: origin_fence_def of_rat_samples point_dt_origin)
  moreover have "ip_allowed (office_db\<lparr>geo_fences := [origin_fence]\<rparr>) (Some ''1.2.3.4'')"
    by (simp add: ip_allowed_iff office_db_def office_ip_def)
  ultimately show "check_location_restrictions (office_db\<lparr>geo_fences := [origin_fence]\<rparr>)
     (Some (1 / 10 ^ 8)) (Some 1) (Some ''1.2.3.4'') = Inr True"
    by (simp add: check_location_restrictions_True_iff)
  have "sqrt 1 < sqrt (1 + (1 / 100000000)\<^sup>2)"
    by (simp only: real_sqrt_less_iff) simp
  then show "of_int (gf_radius origin_fence) < fence_distance origin_fence (1 / 10 ^ 8) 1"
    by (simp add: fence_distance_def origin_fence_def of_rat_samples)
qed

lemma numeric_to_float8_huge:
  "numeric_to_float8 (10 ^ 309) = Inl NumericValueOutOfRange"
proof -
  have "2 powi 1024 \<le> \<bar>10 ^ 309 :: real\<bar>"
    by simp
  then have "2 powi 1024 \<le> \<bar>float8_round (10 ^ 309)\<bar>"
    by (rule float8_round_abs_ge) simp
  then show ?thesis
    by (simp add: numeric_to_float8_def float8_overflow_def of_rat_power)
qed

lemma point_dt_office: "point_dt (10, 10) (10, 10) = Inr 0"
proof -
  have "float8_mi 10 10 = Inr 0"
    by (rule float8_mi_same) simp
  then show ?thesis
    by (simp add: point_dt_def)
qed

lemma float8_round_10: "float8_round 10 = 10" "float8_round 510 = 510"
  by (rule float8_round_numeral, simp)+

text \<open>
  The office with its allowed address and its fence: the authorizer accepts the center of
  the fence from the allowed address, and rejects another address, a NULL longitude, a
  NULL address, and every location when the whitelist and the table of fences are
  empty; a longitude of \<open>10 ^ 309\<close> raises the error also then.
\<close>

theorem check_location_restrictions_float8_witness:
  "check_location_restrictions office_db (Some 10) (Some 10) (Some ''1.2.3.4'') = Inr True \<and>
   check_location_restrictions office_db (Some 10) (Some 10) (Some ''9.9.9.9'') = Inr False \<and>
   check_location_restrictions office_db (Some 10) None (Some ''1.2.3.4'') = Inr False \<and>
   check_location_restrictions office_db (Some 10) (Some 10) None \<noteq> Inr True \<and>
   check_location_restrictions empty_policy_db (Some 10) (Some 10) (Some ''1.2.3.4'') = Inr False \<and>
   check_location_restrictions empty_policy_db (Some 10) (Some (10 ^ 309)) (Some ''1.2.3.4'') =
     Inl NumericValueOutOfRange"
proof -
  have s: "\<forall>f \<in> set (geo_fences office_db). float8_safe (gf_longitude f) \<and> float8_safe (gf_latitude f)"
    "\<forall>f \<in> set (geo_fences empty_policy_db). float8_safe (gf_longitude f) \<and> float8_safe (gf_latitude f)"
    by (simp_all add: office_db_def empty_policy_db_def office_fence_def)
  have "check_location_restrictions office_db (Some 10) (Some 10) (Some ''1.2.3.4'') = Inr True"
    using check_location_restrictions_float8 [where db = office_db and la = "Some 10"
        and lo = "Some 10" and ip = "Some ''1.2.3.4''"] s(1)
    by (simp add: office_db_def office_fence_def office_ip_def float8_round_10 point_dt_office)
  moreover
  have "check_location_restrictions office_db (Some 10) (Some 10) (Some ''9.9.9.9'') = Inr False"
    using check_location_restrictions_float8 [where db = office_db and la = "Some 10"
        and lo = "Some 10" and ip = "Some ''9.9.9.9''"] s(1)
    by (simp add: office_db_def office_fence_def office_ip_def)
  moreover
  have "check_location_restrictions office_db (Some 10) None (Some ''1.2.3.4'') = Inr False"
    using check_location_restrictions_float8 [where db = office_db and la = "Some 10"
        and lo = None and ip = "Some ''1.2.3.4''"] s(1)
    by simp
  moreover
  have "check_location_restrictions office_db (Some 10) (Some 10) None \<noteq> Inr True"
    using check_location_restrictions_float8 [where db = office_db and la = "Some 10"
        and lo = "Some 10" and ip = None]
    by blast
  moreover
  have "check_location_restrictions empty_policy_db (Some 10) (Some 10) (Some ''1.2.3.4'') = Inr False"
    using check_location_restrictions_float8 [where db = empty_policy_db and la = "Some 10"
        and lo = "Some 10" and ip = "Some ''1.2.3.4''"] s(2)
    by (simp add: empty_policy_db_def)
  moreover
  have "check_location_restrictions empty_policy_db (Some 10) (Some (10 ^ 309)) (Some ''1.2.3.4'') =
     Inl NumericValueOutOfRange"
    using check_location_restrictions_float8 [where db = empty_policy_db and la = "Some 10"
        and lo = "Some (10 ^ 309)" and ip = "Some ''1.2.3.4''" and v = "10 ^ 309"
        and e = NumericValueOutOfRange] numeric_to_float8_huge
    by blast
  ultimately show ?thesis by blast
qed

subsection \<open>Points on the edge of a fence\<close>

text \<open>
  C10, as the operator computes it. Containment in a fence is inclusive for the
  distance computed in \<^verbatim>\<open>float8\<close>: when \<^verbatim>\<open>point_dt\<close> yields exactly the radius of
  a fence, the fence check of the authorizer is true. This is so for a point on the edge
  that has the latitude of the center, or its longitude, when the coordinate in which
  the point and the center differ is a double for both of them, as every integer
  coordinate is: the difference is then computed exactly, it is the radius, and the
  point is accepted. The coordinates are within the range of \<open>float8_safe\<close>, so that no
  fence of the table raises an error.
\<close>

theorem geo_allowed_on_float8_edge:
  "((\<forall>g \<in> set (geo_fences db). float8_safe (gf_longitude g) \<and> float8_safe (gf_latitude g)) \<and>
    float8_safe la \<and> float8_safe lo \<and> f \<in> set (geo_fences db) \<and>
    point_dt (float8_round (of_rat lo), float8_round (of_rat la))
      (float8_round (of_rat (gf_longitude f)), float8_round (of_rat (gf_latitude f))) =
        Inr (of_int (gf_radius f)) \<longrightarrow>
      geo_allowed db (Some la) (Some lo) = Inr True) \<and>
   ((\<forall>g \<in> set (geo_fences db). float8_safe (gf_longitude g) \<and> float8_safe (gf_latitude g)) \<and>
    float8_safe la \<and> float8_safe lo \<and> f \<in> set (geo_fences db) \<and>
    0 \<le> gf_radius f \<and> gf_radius f < 2 ^ 53 \<and>
    ((la = gf_latitude f \<and> \<bar>lo - gf_longitude f\<bar> = of_int (gf_radius f) \<and>
      float8_round (of_rat lo) = of_rat lo \<and>
      float8_round (of_rat (gf_longitude f)) = of_rat (gf_longitude f)) \<or>
     (lo = gf_longitude f \<and> \<bar>la - gf_latitude f\<bar> = of_int (gf_radius f) \<and>
      float8_round (of_rat la) = of_rat la \<and>
      float8_round (of_rat (gf_latitude f)) = of_rat (gf_latitude f))) \<longrightarrow>
      geo_allowed db (Some la) (Some lo) = Inr True \<and>
      fence_distance f la lo = of_int (gf_radius f))"
proof (intro conjI impI)
  assume h: "(\<forall>g \<in> set (geo_fences db). float8_safe (gf_longitude g) \<and> float8_safe (gf_latitude g)) \<and>
    float8_safe la \<and> float8_safe lo \<and> f \<in> set (geo_fences db) \<and>
    point_dt (float8_round (of_rat lo), float8_round (of_rat la))
      (float8_round (of_rat (gf_longitude f)), float8_round (of_rat (gf_latitude f))) =
        Inr (of_int (gf_radius f))"
  then have "geo_allowed db (Some la) (Some lo) =
           Inr (\<exists>f \<in> set (geo_fences db). \<exists>d.
                  point_dt (float8_round (of_rat lo), float8_round (of_rat la))
                    (float8_round (of_rat (gf_longitude f)),
                     float8_round (of_rat (gf_latitude f))) = Inr d \<and>
                  d \<le> of_int (gf_radius f))"
    by (intro geo_allowed_safe) auto
  moreover have "\<exists>f \<in> set (geo_fences db). \<exists>d.
                  point_dt (float8_round (of_rat lo), float8_round (of_rat la))
                    (float8_round (of_rat (gf_longitude f)),
                     float8_round (of_rat (gf_latitude f))) = Inr d \<and>
                  d \<le> of_int (gf_radius f)"
    using h by (intro bexI [of _ f] exI [of _ "of_int (gf_radius f)"]) auto
  ultimately show "geo_allowed db (Some la) (Some lo) = Inr True"
    by simp
next
  assume h: "(\<forall>g \<in> set (geo_fences db). float8_safe (gf_longitude g) \<and> float8_safe (gf_latitude g)) \<and>
    float8_safe la \<and> float8_safe lo \<and> f \<in> set (geo_fences db) \<and>
    0 \<le> gf_radius f \<and> gf_radius f < 2 ^ 53 \<and>
    ((la = gf_latitude f \<and> \<bar>lo - gf_longitude f\<bar> = of_int (gf_radius f) \<and>
      float8_round (of_rat lo) = of_rat lo \<and>
      float8_round (of_rat (gf_longitude f)) = of_rat (gf_longitude f)) \<or>
     (lo = gf_longitude f \<and> \<bar>la - gf_latitude f\<bar> = of_int (gf_radius f) \<and>
      float8_round (of_rat la) = of_rat la \<and>
      float8_round (of_rat (gf_latitude f)) = of_rat (gf_latitude f)))"
  define r where "r = gf_radius f"
  have r: "0 \<le> r" "\<bar>r\<bar> < 2 ^ 53"
    using h by (simp_all add: r_def)
  have edge: "point_dt (x1, y1) (x2, y2) = Inr (of_int r)"
    if "\<bar>x1\<bar> \<le> 2 powi 1000" "\<bar>x2\<bar> \<le> 2 powi 1000" "\<bar>y1\<bar> \<le> 2 powi 1000" "\<bar>y2\<bar> \<le> 2 powi 1000"
      and "(y1 = y2 \<and> \<bar>x1 - x2\<bar> = of_int r) \<or> (x1 = x2 \<and> \<bar>y1 - y2\<bar> = of_int r)"
    for x1 y1 x2 y2 :: real
  proof -
    have fr: "float8_round d = d" if "\<bar>d\<bar> = of_int r" for d :: real
    proof -
      from that have "d = of_int r \<or> d = of_int (- r)" by (auto simp add: abs_if split: if_splits)
      then show ?thesis
        using float8_round_int [of r] float8_round_int [of "- r"] r(2) by auto
    qed
    note dx = float8_mi_safe(1) [OF that(1,2)]
    note dy = float8_mi_safe(1) [OF that(3,4)]
    from that(5) show ?thesis
    proof
      assume a: "y1 = y2 \<and> \<bar>x1 - x2\<bar> = of_int r"
      then have "float8_mi x1 x2 = Inr (x1 - x2)" "float8_mi y1 y2 = Inr 0"
        using fr [of "x1 - x2"] dx dy by simp_all
      with a show ?thesis
        by (simp add: point_dt_def)
    next
      assume a: "x1 = x2 \<and> \<bar>y1 - y2\<bar> = of_int r"
      then have "pg_hypot 0 (y1 - y2) = Inr (of_int r)"
        using r(1) by (simp add: pg_hypot_def Let_def max_def min_def)
      moreover from a have "float8_mi x1 x2 = Inr 0" "float8_mi y1 y2 = Inr (y1 - y2)"
        using fr [of "y1 - y2"] dx dy by simp_all
      ultimately show ?thesis
        by (simp add: point_dt_def)
    qed
  qed
  note b = float8_safe_bounds(1)
  from h have s: "float8_safe la" "float8_safe lo" "float8_safe (gf_longitude f)"
    "float8_safe (gf_latitude f)" by auto
  have ab: "\<bar>of_rat u - of_rat w :: real\<bar> = of_int r" if "\<bar>u - w\<bar> = of_int r" for u w :: rat
  proof -
    have "\<bar>of_rat u - of_rat w :: real\<bar> = of_rat \<bar>u - w\<bar>"
      by (simp only: abs_of_rat [symmetric] of_rat_diff)
    with that show ?thesis by simp
  qed
  have "point_dt (float8_round (of_rat lo), float8_round (of_rat la))
      (float8_round (of_rat (gf_longitude f)), float8_round (of_rat (gf_latitude f))) =
        Inr (of_int (gf_radius f))"
    unfolding r_def [symmetric]
  proof (rule edge)
    show "(float8_round (of_rat la) = float8_round (of_rat (gf_latitude f)) \<and>
       \<bar>float8_round (of_rat lo) - float8_round (of_rat (gf_longitude f))\<bar> = of_int r) \<or>
      (float8_round (of_rat lo) = float8_round (of_rat (gf_longitude f)) \<and>
       \<bar>float8_round (of_rat la) - float8_round (of_rat (gf_latitude f))\<bar> = of_int r)"
      using h ab [of lo "gf_longitude f"] ab [of la "gf_latitude f"]
      by (auto simp add: r_def)
  qed (use s b in auto)
  with h have "geo_allowed db (Some la) (Some lo) =
           Inr (\<exists>f \<in> set (geo_fences db). \<exists>d.
                  point_dt (float8_round (of_rat lo), float8_round (of_rat la))
                    (float8_round (of_rat (gf_longitude f)),
                     float8_round (of_rat (gf_latitude f))) = Inr d \<and>
                  d \<le> of_int (gf_radius f))"
    by (intro geo_allowed_safe) auto
  moreover have "\<exists>f \<in> set (geo_fences db). \<exists>d.
                  point_dt (float8_round (of_rat lo), float8_round (of_rat la))
                    (float8_round (of_rat (gf_longitude f)),
                     float8_round (of_rat (gf_latitude f))) = Inr d \<and>
                  d \<le> of_int (gf_radius f)"
    using h \<open>point_dt _ _ = Inr (of_int (gf_radius f))\<close>
    by (intro bexI [of _ f] exI [of _ "of_int (gf_radius f)"]) auto
  ultimately show "geo_allowed db (Some la) (Some lo) = Inr True"
    by simp
  have "fence_distance f la lo = \<bar>of_rat (gf_longitude f) - of_rat lo\<bar> \<or>
        fence_distance f la lo = \<bar>of_rat (gf_latitude f) - of_rat la\<bar>"
    using h by (auto simp add: fence_distance_def)
  then show "fence_distance f la lo = of_int (gf_radius f)"
    using h ab [of lo "gf_longitude f"] ab [of la "gf_latitude f"]
    by (auto simp add: r_def abs_minus_commute fence_distance_def)
qed

lemma point_dt_depot:
  "point_dt (float8_round (73 / 10), 10) (float8_round (83 / 10), 10) =
     Inr (1125899906842625 * 2 powi (- 50))"
proof -
  define z :: real where "z = - 1125899906842625 * 2 powi (- 50)"
  have d: "float8_round (73 / 10) - float8_round (83 / 10) = z"
    by (simp add: fl_7_3 fl_8_3 z_def power_int_minus)
  have "2 powi 0 \<le> \<bar>z\<bar>" "\<bar>z\<bar> < 2 powi (0 + 1)"
    by (simp_all add: z_def power_int_minus)
  from float8_exponent_eq [OF this] have "float8_exponent z \<le> - 50"
    by simp
  moreover have "z = of_int (- 1125899906842625) * 2 powi (- 50)"
    by (simp add: z_def)
  ultimately have fz: "float8_round z = z"
    by (rule float8_round_exact [rotated])
  have "\<not> float8_overflow z"
    by (simp add: float8_overflow_def z_def power_int_minus)
  then have "float8_mi (float8_round (73 / 10)) (float8_round (83 / 10)) = Inr z"
    by (simp add: float8_mi_def d fz)
  moreover have "float8_mi 10 10 = Inr 0"
    by (rule float8_mi_same) simp
  ultimately show ?thesis
    by (simp add: point_dt_def z_def)
qed

lemma pg_hypot_rounded_up:
  "pg_hypot (337769972052787 * 2 powi (- 49)) (225179981368525 * 2 powi (- 48)) =
     Inr (1 + 2 powi (- 51))"
proof -
  define dx :: real where "dx = 337769972052787 * 2 powi (- 49)"
  define dy :: real where "dy = 225179981368525 * 2 powi (- 48)"
  define yx :: real where "yx = 6755399441055734 * 2 powi (- 53)"
  define t1 :: real where "t1 = 5066549580791793 * 2 powi (- 53)"
  define t2 :: real where "t2 = 7036874417766392 * 2 powi (- 52)"
  define t3 :: real where "t3 = 5629499534213117 * 2 powi (- 52)"
  define r :: real where "r = 4503599627370498 * 2 powi (- 52)"
  note defs = dx_def dy_def yx_def t1_def t2_def t3_def r_def
  have m: "max \<bar>dx\<bar> \<bar>dy\<bar> = dy" "min \<bar>dx\<bar> \<bar>dy\<bar> = dx" "dx \<noteq> 0"
    by (simp_all add: defs power_int_minus)
  have s1: "float8_round (dx / dy) = yx"
    using float8_round_eq [of "- 1" "dx / dy" "- 53" 6755399441055734]
    by (simp add: defs power_int_minus)
  have "yx * yx = (6755399441055734 * 6755399441055734) * (2 powi (- 53) * 2 powi (- 53))"
    by (simp only: yx_def mult_ac)
  also have "(2::real) powi (- 53) * 2 powi (- 53) = 2 powi (- 106)"
    by (simp flip: power_int_add)
  finally have p2: "yx * yx = of_int (6755399441055734 * 6755399441055734) * 2 powi (- 106)"
    by simp
  have "round_half_even (of_int (6755399441055734 * 6755399441055734) / 2 ^ 53) =
      5066549580791793"
    by (rule round_half_even_div) simp
  then have r2: "round_half_even (of_int (6755399441055734 * 6755399441055734) /
      2 ^ nat (- 53 - - 106)) = 5066549580791793"
    by simp
  have "float8_round (yx * yx) = of_int 5066549580791793 * 2 powi (- 53)"
    by (rule float8_round_dyadic [OF p2 _ _ _ _ _ r2, where e = "- 1"]) simp_all
  then have s2: "float8_round (yx * yx) = t1"
    by (simp add: t1_def)
  have p3: "1 + t1 = of_int 14073748835532785 * 2 powi (- 53)"
    by (simp add: t1_def power_int_minus)
  have "round_half_even (of_int 14073748835532785 / 2 ^ 1) = 7036874417766392"
    by (rule round_half_even_div_tie) simp_all
  then have r3: "round_half_even (of_int 14073748835532785 / 2 ^ nat (- 52 - - 53)) =
      7036874417766392"
    by simp
  have "float8_round (1 + t1) = of_int 7036874417766392 * 2 powi (- 52)"
    by (rule float8_round_dyadic [OF p3 _ _ _ _ _ r3, where e = 0]) simp_all
  then have s3: "float8_round (1 + t1) = t2"
    by (simp add: t2_def)
  have "sqrt 1 \<le> sqrt t2" "sqrt t2 < sqrt 4"
    by (simp_all only: real_sqrt_le_iff real_sqrt_less_iff) (simp_all add: defs power_int_minus)
  then have b: "2 powi 0 \<le> sqrt t2" "sqrt t2 < 2 powi (0 + 1)"
    by simp_all
  have p4: "t2 = of_int 7036874417766392 * 2 powi (- 52)"
    by (simp add: t2_def)
  have "float8_round (sqrt t2) = of_int 5629499534213117 * 2 powi (- 52)"
    by (rule float8_round_sqrt [OF p4 b]) simp_all
  then have s4: "float8_round (sqrt t2) = t3"
    by (simp add: t3_def)
  have "dy * t3 = (225179981368525 * 5629499534213117) * (2 powi (- 48) * 2 powi (- 52))"
    by (simp only: dy_def t3_def mult_ac)
  also have "(2::real) powi (- 48) * 2 powi (- 52) = 2 powi (- 100)"
    by (simp flip: power_int_add)
  finally have p5: "dy * t3 = of_int (225179981368525 * 5629499534213117) * 2 powi (- 100)"
    by simp
  have "round_half_even (of_int (225179981368525 * 5629499534213117) / 2 ^ 48) =
      4503599627370498"
    by (rule round_half_even_div) simp
  then have r5: "round_half_even (of_int (225179981368525 * 5629499534213117) /
      2 ^ nat (- 52 - - 100)) = 4503599627370498"
    by simp
  have "float8_round (dy * t3) = of_int 4503599627370498 * 2 powi (- 52)"
    by (rule float8_round_dyadic [OF p5 _ _ _ _ _ r5, where e = 0]) simp_all
  then have s5: "float8_round (dy * t3) = r"
    by (simp add: r_def)
  have r: "\<not> float8_overflow r" "r \<noteq> 0" "r = 1 + 2 powi (- 51)"
    by (simp_all add: defs float8_overflow_def power_int_minus)
  have "pg_hypot dx dy = Inr r"
    unfolding pg_hypot_def Let_def m s1 s2 s3 s4 s5 using m(3) r(1,2) by simp
  then show ?thesis
    by (simp only: r(3) dx_def dy_def)
qed

lemma fl_10_6: "float8_round (53 / 5) = 5967269506265907 * 2 powi (- 49)"
  using float8_round_eq [of 3 "53 / 5" "- 49" 5967269506265907]
  by (simp add: power_int_minus)

lemma fl_10_8: "float8_round (54 / 5) = 6079859496950170 * 2 powi (- 49)"
  using float8_round_eq [of 3 "54 / 5" "- 49" 6079859496950170]
  by (simp add: power_int_minus)

lemma point_dt_office_edge:
  "point_dt (float8_round (53 / 5), float8_round (54 / 5)) (10, 10) = Inr (1 + 2 powi (- 51))"
proof -
  define dx :: real where "dx = 337769972052787 * 2 powi (- 49)"
  define dy :: real where "dy = 225179981368525 * 2 powi (- 48)"
  have d: "float8_round (53 / 5) - 10 = dx" "float8_round (54 / 5) - 10 = dy"
    by (simp_all add: fl_10_6 fl_10_8 dx_def dy_def power_int_minus)
  have "2 powi (- 1) \<le> \<bar>dx\<bar>" "\<bar>dx\<bar> < 2 powi (- 1 + 1)"
    by (simp_all add: dx_def power_int_minus)
  from float8_exponent_eq [OF this] have "float8_exponent dx \<le> - 49"
    by simp
  moreover have "dx = of_int 337769972052787 * 2 powi (- 49)"
    by (simp add: dx_def)
  ultimately have fx: "float8_round dx = dx"
    by (rule float8_round_exact [rotated])
  have "2 powi (- 1) \<le> \<bar>dy\<bar>" "\<bar>dy\<bar> < 2 powi (- 1 + 1)"
    by (simp_all add: dy_def power_int_minus)
  from float8_exponent_eq [OF this] have "float8_exponent dy \<le> - 48"
    by simp
  moreover have "dy = of_int 225179981368525 * 2 powi (- 48)"
    by (simp add: dy_def)
  ultimately have fy: "float8_round dy = dy"
    by (rule float8_round_exact [rotated])
  have "\<not> float8_overflow dx" "\<not> float8_overflow dy"
    by (simp_all add: float8_overflow_def dx_def dy_def power_int_minus)
  then have "float8_mi (float8_round (53 / 5)) 10 = Inr dx"
    "float8_mi (float8_round (54 / 5)) 10 = Inr dy"
    by (simp_all add: float8_mi_def d fx fy)
  then show ?thesis
    using pg_hypot_rounded_up by (simp add: point_dt_def dx_def dy_def)
qed

text \<open>
  Two points exactly on the edge of a fence that are rejected. The first fence has
  radius \<open>1\<close> around latitude \<open>10\<close>, longitude \<open>10\<close>, and the point has latitude
  \<open>10.8\<close> and longitude \<open>10.6\<close>: its distance from the center is \<open>1\<close>, and the
  hypotenuse computed from the rounded coordinates is \<open>1 + 2 ^ (- 51)\<close>. The second
  fence has radius \<open>1\<close> around latitude \<open>10\<close>, longitude \<open>8.3\<close>, and the point has
  latitude \<open>10\<close> and longitude \<open>7.3\<close>, at distance \<open>1\<close> from the center: neither
  \<open>8.3\<close> nor \<open>7.3\<close> is a double, and the difference of the doubles nearest to them
  is \<open>1 + 2 ^ (- 50)\<close>. In both cases the distance computed exceeds the radius.
\<close>

theorem geo_allowed_on_edge_counterexample:
  "geo_allowed (office_db\<lparr>geo_fences := [office_fence\<lparr>gf_radius := 1\<rparr>]\<rparr>)
     (Some (108 / 10)) (Some (106 / 10)) = Inr False \<and>
   fence_distance (office_fence\<lparr>gf_radius := 1\<rparr>) (108 / 10) (106 / 10) = 1 \<and>
   geo_allowed (office_db\<lparr>geo_fences := [depot_fence]\<rparr>) (Some 10) (Some (73 / 10)) = Inr False \<and>
   fence_distance depot_fence 10 (73 / 10) = 1 \<and>
   gf_radius depot_fence = 1"
proof (intro conjI)
  have f: "float8_round 10 = 10"
    by (rule float8_round_numeral) simp
  have s: "float8_safe (54 / 5)" "float8_safe (53 / 5)"
    by (simp_all add: float8_safe_def)
  have o: "(of_rat (54 / 5) :: real) = 54 / 5" "(of_rat (53 / 5) :: real) = 53 / 5"
    by (simp_all add: of_rat_divide)
  have "\<not> (1 + 2 powi (- 51) \<le> (1::real))"
    by simp
  then show "geo_allowed (office_db\<lparr>geo_fences := [office_fence\<lparr>gf_radius := 1\<rparr>]\<rparr>)
     (Some (108 / 10)) (Some (106 / 10)) = Inr False"
    using geo_allowed_safe [of "54 / 5" "53 / 5"
        "office_db\<lparr>geo_fences := [office_fence\<lparr>gf_radius := 1\<rparr>]\<rparr>"] s
    by (simp add: office_fence_def o f point_dt_office_edge)
  have "(10 - 53 / 5 :: real)\<^sup>2 + (10 - 54 / 5)\<^sup>2 = 1"
    by (simp add: power2_eq_square)
  then show "fence_distance (office_fence\<lparr>gf_radius := 1\<rparr>) (108 / 10) (106 / 10) = 1"
    by (simp add: fence_distance_def office_fence_def o)
  show "geo_allowed (office_db\<lparr>geo_fences := [depot_fence]\<rparr>) (Some 10) (Some (73 / 10)) =
          Inr False"
    using geo_allowed_safe [of 10 "73 / 10" "office_db\<lparr>geo_fences := [depot_fence]\<rparr>"] f
    by (simp add: depot_fence_def of_rat_samples point_dt_depot power_int_minus)
  have "(83 / 10 - 73 / 10 :: real) = 1" by simp
  then show "fence_distance depot_fence 10 (73 / 10) = 1"
    by (simp add: fence_distance_def depot_fence_def of_rat_samples)
  show "gf_radius depot_fence = 1"
    by (simp add: depot_fence_def)
qed

text \<open>
  The point of longitude \<open>510\<close> at the latitude of the office lies on the edge of the
  fence of the office, of radius \<open>500\<close> around longitude \<open>10\<close>, and is accepted.
\<close>

theorem geo_allowed_on_float8_edge_witness:
  "geo_allowed office_db (Some 10) (Some 510) = Inr True \<and>
   fence_distance office_fence 10 510 = of_int (gf_radius office_fence) \<and>
   0 < gf_radius office_fence"
  using geo_allowed_on_float8_edge [where db = office_db and f = office_fence and la = 10
      and lo = 510]
  by (simp add: office_db_def office_fence_def float8_safe_def float8_round_10)

section \<open>The audit trigger and the mutations\<close>

subsection \<open>What a successful run of the trigger leaves\<close>

lemma insert_audit_logs_Inr:
  "insert_audit_logs a db = Inr db' \<Longrightarrow> db' = db\<lparr>audit_logs := audit_logs db @ [a]\<rparr>"
  by (auto simp: insert_audit_logs_def split: if_splits)

lemma audit_log_changes_Inr:
  assumes "audit_log_changes s TG_OP t OLD NEW db = Inr db'"
  shows "\<exists>a. db' = db\<lparr>audit_logs := audit_logs db @ [a]\<rparr> \<and>
           al_user_id a = auth_uid s \<and>
           al_action a = tg_op_text TG_OP \<and>
           al_table_name a = Some (tg_table_name t) \<and>
           al_record_id a = coalesce (map_option row_id NEW) (map_option row_id OLD) \<and>
           al_old_data a = (if TG_OP = DELETE then map_option row_to_json OLD else None) \<and>
           al_new_data a = (if TG_OP = INSERT \<or> TG_OP = UPDATE then map_option row_to_json NEW else None) \<and>
           (\<exists>j. request_headers s = Some j \<and> al_ip_address a = json_field_text j ''x-forwarded-for'')"
  using assms unfolding audit_log_changes_def current_setting_request_headers_def cast_json_def
  by (auto split: option.splits sum.splits json_text.splits dest!: insert_audit_logs_Inr)

lemma audit_each_Inr:
  "audit_each s rs db = Inr db' \<Longrightarrow>
     \<exists>as. db' = db\<lparr>audit_logs := audit_logs db @ as\<rparr> \<and>
          map al_action as = map (\<lambda>r. ''DELETE'') rs \<and>
          map al_table_name as = map (\<lambda>r. Some (tg_table_name (row_table r))) rs \<and>
          map al_record_id as = map (\<lambda>r. Some (row_id r)) rs \<and>
          map al_old_data as = map (\<lambda>r. Some (row_to_json r)) rs \<and>
          map al_new_data as = map (\<lambda>r. None) rs"
proof (induction rs arbitrary: db)
  case Nil
  then show ?case by simp
next
  case (Cons r rs)
  from Cons.prems obtain db1 where
    1: "audit_log_changes s DELETE (row_table r) (Some r) None db = Inr db1" and
    2: "audit_each s rs db1 = Inr db'"
    by (auto split: sum.splits)
  from audit_log_changes_Inr [OF 1] obtain a where
    a: "db1 = db\<lparr>audit_logs := audit_logs db @ [a]\<rparr>" "al_action a = ''DELETE''"
       "al_table_name a = Some (tg_table_name (row_table r))" "al_record_id a = Some (row_id r)"
       "al_old_data a = Some (row_to_json r)" "al_new_data a = None"
    by (auto simp: coalesce_def)
  from Cons.IH [OF 2] obtain as where
    as: "db' = db1\<lparr>audit_logs := audit_logs db1 @ as\<rparr>"
        "map al_action as = map (\<lambda>r. ''DELETE'') rs"
        "map al_table_name as = map (\<lambda>r. Some (tg_table_name (row_table r))) rs"
        "map al_record_id as = map (\<lambda>r. Some (row_id r)) rs"
        "map al_old_data as = map (\<lambda>r. Some (row_to_json r)) rs"
        "map al_new_data as = map (\<lambda>r. None) rs"
    by auto
  show ?case
    by (rule exI [of _ "a # as"]) (use a as in simp)
qed

lemma isl_audit_log_changes:
  "isl (audit_log_changes s TG_OP t OLD NEW db) \<longleftrightarrow>
     request_headers s = None \<or> request_headers s = Some NotJson \<or>
     gen_random_uuid s (length (audit_logs db)) \<in> set (map al_id (audit_logs db)) \<or>
     \<not> refs_profile (auth_uid s) db"
  by (cases "request_headers s"; cases "the (request_headers s)")
     (auto simp: audit_log_changes_def current_setting_request_headers_def cast_json_def
        insert_audit_logs_def)

lemma audit_log_changes_unavailable:
  "request_headers s = None \<or> request_headers s = Some NotJson \<Longrightarrow>
   audit_log_changes s TG_OP t OLD NEW db \<noteq> Inr db'"
  by (auto simp: audit_log_changes_def current_setting_request_headers_def cast_json_def)

subsection \<open>Rows and tables\<close>

lemma row_count_audit [simp]: "row_count (db\<lparr>audit_logs := as\<rparr>) = row_count db"
  by (simp add: row_count_def)

lemma table_rows_audit [simp]: "table_rows t (db\<lparr>audit_logs := as\<rparr>) = table_rows t db"
  by (cases t) simp_all

lemma row_table_in_table_rows: "r \<in> set (table_rows t db) \<Longrightarrow> row_table r = t"
  by (cases t) auto

lemma find_row_Some:
  assumes "find_row t i db = Some r"
  shows "r \<in> set (table_rows t db)" and "row_id r = i" and "row_table r = t"
proof -
  from assms have "find (\<lambda>r. row_id r = i) (table_rows t db) = Some r"
    by (simp add: find_row_def)
  then show "r \<in> set (table_rows t db)" and "row_id r = i"
    by (auto simp: find_Some_iff in_set_conv_nth)
  then show "row_table r = t"
    by (simp add: row_table_in_table_rows)
qed

lemma put_row_audit_logs [simp]: "audit_logs (put_row r db) = audit_logs db"
  by (cases r) simp_all

lemma put_row_table_rows [simp]:
  "table_rows (row_table r) (put_row r db) = table_rows (row_table r) db @ [r]"
  by (cases r) simp_all

lemma put_row_row_count [simp]: "row_count (put_row r db) = Suc (row_count db)"
  by (cases r) (simp_all add: row_count_def)

lemma remove_row_audit_logs [simp]: "audit_logs (remove_row r db) = audit_logs db"
  by (cases r) simp_all

lemma remove_row_row_count:
  "r \<in> set (table_rows t db) \<Longrightarrow> Suc (row_count (remove_row r db)) = row_count db"
  by (cases t; cases r) (auto simp: row_count_def length_remove1 intro: Suc_pred length_pos_if_in_set)

lemma length_replace1 [simp]: "length (replace1 a b xs) = length xs"
  by (induction xs) simp_all

lemma replace1_mem: "a \<in> set xs \<Longrightarrow> b \<in> set (replace1 a b xs)"
  by (induction xs) auto

lemma set_replace1: "set (replace1 a b xs) \<subseteq> insert b (set xs)"
  by (induction xs) auto

lemma replace_row_audit_logs [simp]: "audit_logs (replace_row r r' db) = audit_logs db"
  by (cases r; cases r') simp_all

lemma replace_row_row_count [simp]: "row_count (replace_row r r' db) = row_count db"
  by (cases r; cases r') (simp_all add: row_count_def)

lemma replace_row_mem:
  "r \<in> set (table_rows t db) \<Longrightarrow> row_table r' = t \<Longrightarrow> r' \<in> set (table_rows t (replace_row r r' db))"
  by (cases t; cases r; cases r') (auto simp: replace1_mem)

lemma insert_row_Inr: "insert_row NEW db = Inr db1 \<Longrightarrow> db1 = put_row NEW db"
  by (auto simp: insert_row_def split: if_splits)

lemma update_row_Inr: "update_row OLD NEW db = Inr db1 \<Longrightarrow> db1 = replace_row OLD NEW db"
  by (auto simp: update_row_def split: if_splits)

lemma length_filter_split:
  "length (filter P xs) + length (filter (\<lambda>x. \<not> P x) xs) = length xs"
  by (induction xs) simp_all

subsection \<open>What a successful mutation leaves\<close>

lemma length_cascaded_rows:
  "length (cascaded_rows u db) +
     (length (filter (\<lambda>e. te_user_id e \<noteq> Some u) (time_entries db)) +
      length (filter (\<lambda>c. sc_user_id c \<noteq> Some u) (schedules db))) =
   length (time_entries db) + length (schedules db)"
  using length_filter_split [of "\<lambda>e. te_user_id e = Some u" "time_entries db"]
        length_filter_split [of "\<lambda>c. sc_user_id c = Some u" "schedules db"]
  by (simp add: cascaded_rows_def)

lemma cascaded_rows_in_tables:
  "r \<in> set (cascaded_rows u db) \<Longrightarrow> r \<in> set (table_rows (row_table r) db)"
  by (auto simp: cascaded_rows_def)

lemma delete_profile_actions_Inr:
  assumes "delete_profile_actions p db = Inr db'"
  shows "db' = db\<lparr>time_entries := filter (\<lambda>e. te_user_id e \<noteq> Some (p_id p)) (time_entries db),
                   schedules := filter (\<lambda>c. sc_user_id c \<noteq> Some (p_id p)) (schedules db)\<rparr>"
    and "\<not> restrict_refs (p_id p) db'"
  using assms by (auto simp: delete_profile_actions_def Let_def split: if_splits)

lemma delete_row_Inr:
  assumes "delete_row OLD db = Inr db1" and "OLD \<in> set (table_rows t db)"
  shows "audit_logs db1 = audit_logs db"
    and "Suc (length (queued_rows OLD db) + row_count db1) = row_count db"
    and "t \<noteq> Profiles \<longrightarrow> queued_rows OLD db = []"
    and "ip_whitelist db1 = ip_whitelist (remove_row OLD db)"
    and "profiles db1 = profiles (remove_row OLD db)"
proof -
  have t: "row_table OLD = t"
    using assms(2) by (rule row_table_in_table_rows)
  note c = remove_row_row_count [OF assms(2)]
  show "audit_logs db1 = audit_logs db"
    using assms(1) by (cases OLD) (auto dest!: delete_profile_actions_Inr(1))
  show "t \<noteq> Profiles \<longrightarrow> queued_rows OLD db = []"
    using t by (cases OLD) auto
  show "ip_whitelist db1 = ip_whitelist (remove_row OLD db)"
    using assms(1) by (cases OLD) (auto dest!: delete_profile_actions_Inr(1))
  show "profiles db1 = profiles (remove_row OLD db)"
    using assms(1) by (cases OLD) (auto dest!: delete_profile_actions_Inr(1))
  show "Suc (length (queued_rows OLD db) + row_count db1) = row_count db"
  proof (cases OLD)
    case (ProfilesRow p)
    with assms(1) have "delete_profile_actions p (remove_row OLD db) = Inr db1"
      by simp
    from delete_profile_actions_Inr(1) [OF this] ProfilesRow
      length_cascaded_rows [of "p_id p" db] c
    show ?thesis
      by (simp add: row_count_def)
  next
    case (TimeEntriesRow e)
    with assms(1) c show ?thesis by auto
  next
    case (SchedulesRow c')
    with assms(1) c show ?thesis by auto
  next
    case (IpWhitelistRow w)
    with assms(1) c show ?thesis by auto
  next
    case (GeoFencesRow g)
    with assms(1) c show ?thesis by auto
  qed
qed

lemma queued_rows_in_tables:
  "r \<in> set (queued_rows OLD db) \<Longrightarrow> r \<in> set (table_rows (row_table r) db)"
  by (cases OLD) (auto dest: cascaded_rows_in_tables)

lemma table_insert_Inr:
  assumes "table_insert s NEW db = Inr db'"
  shows "\<exists>a. db' = (put_row NEW db)\<lparr>audit_logs := audit_logs db @ [a]\<rparr> \<and>
           al_action a = ''INSERT'' \<and>
           al_table_name a = Some (tg_table_name (row_table NEW)) \<and>
           al_record_id a = Some (row_id NEW) \<and>
           al_old_data a = None \<and> al_new_data a = Some (row_to_json NEW)"
proof -
  from assms obtain db1 where
    1: "insert_row NEW db = Inr db1" and
    2: "audit_log_changes s INSERT (row_table NEW) None (Some NEW) db1 = Inr db'"
    by (auto simp: table_insert_def split: sum.splits)
  from audit_log_changes_Inr [OF 2] insert_row_Inr [OF 1] show ?thesis
    by (auto simp: coalesce_def)
qed

lemma table_update_Inr:
  assumes "table_update s target NEW db = Inr db'"
    and "find_row (row_table NEW) target db = Some OLD"
  shows "\<exists>a. db' = (replace_row OLD NEW db)\<lparr>audit_logs := audit_logs db @ [a]\<rparr> \<and>
           al_action a = ''UPDATE'' \<and>
           al_table_name a = Some (tg_table_name (row_table NEW)) \<and>
           al_record_id a = Some (row_id NEW) \<and>
           al_old_data a = None \<and> al_new_data a = Some (row_to_json NEW)"
proof -
  from assms obtain db1 where
    1: "update_row OLD NEW db = Inr db1" and
    2: "audit_log_changes s UPDATE (row_table NEW) (Some OLD) (Some NEW) db1 = Inr db'"
    by (auto simp: table_update_def split: sum.splits)
  from audit_log_changes_Inr [OF 2] update_row_Inr [OF 1] show ?thesis
    by (auto simp: coalesce_def)
qed

lemma table_delete_Inr:
  assumes "table_delete s t target db = Inr db'"
    and "find_row t target db = Some OLD"
  shows "\<exists>a as. audit_logs db' = audit_logs db @ a # as \<and>
           Suc (length as + row_count db') = row_count db \<and>
           (t \<noteq> Profiles \<longrightarrow> as = []) \<and>
           ip_whitelist db' = ip_whitelist (remove_row OLD db) \<and>
           al_action a = ''DELETE'' \<and>
           al_table_name a = Some (tg_table_name t) \<and>
           al_record_id a = Some target \<and>
           al_old_data a = Some (row_to_json OLD) \<and> al_new_data a = None \<and>
           map al_action as = map (\<lambda>r. ''DELETE'') (queued_rows OLD db) \<and>
           map al_table_name as = map (\<lambda>r. Some (tg_table_name (row_table r))) (queued_rows OLD db) \<and>
           map al_record_id as = map (\<lambda>r. Some (row_id r)) (queued_rows OLD db) \<and>
           map al_old_data as = map (\<lambda>r. Some (row_to_json r)) (queued_rows OLD db) \<and>
           map al_new_data as = map (\<lambda>r. None) (queued_rows OLD db)"
proof -
  from assms obtain db1 db2 where
    1: "delete_row OLD db = Inr db1" and
    2: "audit_log_changes s DELETE t (Some OLD) None db1 = Inr db2" and
    3: "audit_each s (queued_rows OLD db) db2 = Inr db'"
    by (auto simp: table_delete_def split: sum.splits)
  note f = find_row_Some [OF assms(2)]
  note d = delete_row_Inr [OF 1 f(1)]
  from audit_log_changes_Inr [OF 2] obtain a where
    a: "db2 = db1\<lparr>audit_logs := audit_logs db1 @ [a]\<rparr>"
       "al_action a = ''DELETE''" "al_table_name a = Some (tg_table_name t)"
       "al_record_id a = Some (row_id OLD)"
       "al_old_data a = Some (row_to_json OLD)" "al_new_data a = None"
    by (auto simp: coalesce_def)
  from audit_each_Inr [OF 3] obtain as where
    as: "db' = db2\<lparr>audit_logs := audit_logs db2 @ as\<rparr>"
        "map al_action as = map (\<lambda>r. ''DELETE'') (queued_rows OLD db)"
        "map al_table_name as = map (\<lambda>r. Some (tg_table_name (row_table r))) (queued_rows OLD db)"
        "map al_record_id as = map (\<lambda>r. Some (row_id r)) (queued_rows OLD db)"
        "map al_old_data as = map (\<lambda>r. Some (row_to_json r)) (queued_rows OLD db)"
        "map al_new_data as = map (\<lambda>r. None) (queued_rows OLD db)"
    by blast
  have l: "length as = length (queued_rows OLD db)"
    using arg_cong [OF as(2), of length] by simp
  have n: "t \<noteq> Profiles \<longrightarrow> as = []"
    using d(3) l by auto
  have logs: "audit_logs db' = audit_logs db @ a # as"
    using a(1) as(1) d(1) by simp
  have cnt: "Suc (length as + row_count db') = row_count db"
    using d(2) l a(1) as(1) by simp
  have w: "ip_whitelist db' = ip_whitelist (remove_row OLD db)"
    using d(4) a(1) as(1) by simp
  show ?thesis
    by (rule exI [of _ a], rule exI [of _ as]) (use logs cnt n w a f(2) as in simp)
qed

subsection \<open>Evaluation of the sample data\<close>

lemmas sample_defs = admin_profile_def alice_profile_def office_ip_def office_fence_def
  empty_policy_db_def office_db_def draw_uuid_def alice_session_def service_session_def clock_in_def

lemmas step_defs = table_insert_def insert_row_def table_update_def update_row_def
  table_delete_def find_row_def audit_log_changes_def insert_audit_logs_def
  current_setting_request_headers_def cast_json_def json_field_text_def refs_profile_def
  coalesce_def insert_time_entries_def users_can_insert_their_own_time_entries_def
  sql_eq_def sql_where_def cascade_refs_def restrict_refs_def delete_profile_actions_def cascaded_rows_def

section \<open>One audit record for each mutated row\<close>

text \<open>
  C3. Every successful mutation of a row of the five audited tables writes exactly one
  audit record in the same statement. An insert adds one row to its table and one
  record with action \<^verbatim>\<open>INSERT\<close>; an update writes one record with action
  \<^verbatim>\<open>UPDATE\<close>; a delete writes one record with action \<^verbatim>\<open>DELETE\<close> for the deleted
  row. When time entries and schedules of a deleted profile are deleted with it, the
  record of the profile comes first and is followed by one record with action
  \<^verbatim>\<open>DELETE\<close> for each of those rows, the time entries before the schedules, each
  naming the table and the identifier of its row: the log grows by exactly the number
  of rows removed. A delete in another table writes the one record only. In particular
  a successful insert into \<^verbatim>\<open>time_entries\<close> adds exactly one time entry and exactly
  one audit record, with action \<^verbatim>\<open>INSERT\<close> and table \<^verbatim>\<open>time_entries\<close>.
\<close>

theorem one_audit_record_per_mutation:
  "(table_insert s NEW db = Inr db' \<longrightarrow>
      (\<exists>a. audit_logs db' = audit_logs db @ [a] \<and> al_action a = ''INSERT'' \<and>
           al_table_name a = Some (tg_table_name (row_table NEW)) \<and>
           al_record_id a = Some (row_id NEW)) \<and>
      table_rows (row_table NEW) db' = table_rows (row_table NEW) db @ [NEW] \<and>
      row_count db' = row_count db + 1) \<and>
   (find_row (row_table NEW) target db = Some OLD \<and> table_update s target NEW db = Inr db' \<longrightarrow>
      (\<exists>a. audit_logs db' = audit_logs db @ [a] \<and> al_action a = ''UPDATE'' \<and>
           al_table_name a = Some (tg_table_name (row_table NEW)) \<and>
           al_record_id a = Some (row_id NEW)) \<and>
      row_count db' = row_count db) \<and>
   (find_row t target db = Some OLD \<and> table_delete s t target db = Inr db' \<longrightarrow>
      (\<exists>a as. audit_logs db' = audit_logs db @ a # as \<and>
           al_action a = ''DELETE'' \<and> al_table_name a = Some (tg_table_name t) \<and>
           al_record_id a = Some target \<and>
           map al_action as = map (\<lambda>r. ''DELETE'') (queued_rows OLD db) \<and>
           map al_table_name as = map (\<lambda>r. Some (tg_table_name (row_table r))) (queued_rows OLD db) \<and>
           map al_record_id as = map (\<lambda>r. Some (row_id r)) (queued_rows OLD db) \<and>
           row_count db = row_count db' + length (a # as) \<and>
           (t \<noteq> Profiles \<longrightarrow> as = []))) \<and>
   (insert_time_entries s e db = Inr db' \<longrightarrow>
      (\<exists>a. audit_logs db' = audit_logs db @ [a] \<and> al_action a = ''INSERT'' \<and>
           al_table_name a = Some ''time_entries'' \<and> al_record_id a = Some (te_id e)) \<and>
      time_entries db' = time_entries db @ [e])"
proof (intro conjI impI)
  assume h: "table_insert s NEW db = Inr db'"
  from table_insert_Inr [OF h] obtain a where
    a: "db' = (put_row NEW db)\<lparr>audit_logs := audit_logs db @ [a]\<rparr>" "al_action a = ''INSERT''"
       "al_table_name a = Some (tg_table_name (row_table NEW))" "al_record_id a = Some (row_id NEW)"
    by blast
  then show "\<exists>a. audit_logs db' = audit_logs db @ [a] \<and> al_action a = ''INSERT'' \<and>
           al_table_name a = Some (tg_table_name (row_table NEW)) \<and>
           al_record_id a = Some (row_id NEW)"
    by auto
  from a(1) show "table_rows (row_table NEW) db' = table_rows (row_table NEW) db @ [NEW]"
    by simp
  from a(1) show "row_count db' = row_count db + 1"
    by simp
next
  assume h: "find_row (row_table NEW) target db = Some OLD \<and> table_update s target NEW db = Inr db'"
  from table_update_Inr [of s target NEW db db' OLD] h obtain a where
    a: "db' = (replace_row OLD NEW db)\<lparr>audit_logs := audit_logs db @ [a]\<rparr>" "al_action a = ''UPDATE''"
       "al_table_name a = Some (tg_table_name (row_table NEW))" "al_record_id a = Some (row_id NEW)"
    by blast
  then show "\<exists>a. audit_logs db' = audit_logs db @ [a] \<and> al_action a = ''UPDATE'' \<and>
           al_table_name a = Some (tg_table_name (row_table NEW)) \<and>
           al_record_id a = Some (row_id NEW)"
    by auto
  from a(1) show "row_count db' = row_count db"
    by simp
next
  assume h: "find_row t target db = Some OLD \<and> table_delete s t target db = Inr db'"
  from table_delete_Inr [of s t target db db' OLD] h obtain a as where
    a: "audit_logs db' = audit_logs db @ a # as"
       "Suc (length as + row_count db') = row_count db"
       "t \<noteq> Profiles \<longrightarrow> as = []"
       "al_action a = ''DELETE''" "al_table_name a = Some (tg_table_name t)"
       "al_record_id a = Some target"
       "map al_action as = map (\<lambda>r. ''DELETE'') (queued_rows OLD db)"
       "map al_table_name as = map (\<lambda>r. Some (tg_table_name (row_table r))) (queued_rows OLD db)"
       "map al_record_id as = map (\<lambda>r. Some (row_id r)) (queued_rows OLD db)"
    by blast
  have "row_count db = row_count db' + length (a # as)"
    using a(2) by simp
  with a show "\<exists>a as. audit_logs db' = audit_logs db @ a # as \<and>
           al_action a = ''DELETE'' \<and> al_table_name a = Some (tg_table_name t) \<and>
           al_record_id a = Some target \<and>
           map al_action as = map (\<lambda>r. ''DELETE'') (queued_rows OLD db) \<and>
           map al_table_name as = map (\<lambda>r. Some (tg_table_name (row_table r))) (queued_rows OLD db) \<and>
           map al_record_id as = map (\<lambda>r. Some (row_id r)) (queued_rows OLD db) \<and>
           row_count db = row_count db' + length (a # as) \<and>
           (t \<noteq> Profiles \<longrightarrow> as = [])"
    by blast
next
  assume h: "insert_time_entries s e db = Inr db'"
  then have "table_insert s (TimeEntriesRow e) db = Inr db'"
    by (auto simp: insert_time_entries_def split: if_splits)
  from table_insert_Inr [OF this] obtain a where
    a: "db' = (put_row (TimeEntriesRow e) db)\<lparr>audit_logs := audit_logs db @ [a]\<rparr>"
       "al_action a = ''INSERT''"
       "al_table_name a = Some (tg_table_name (row_table (TimeEntriesRow e)))"
       "al_record_id a = Some (row_id (TimeEntriesRow e))"
    by blast
  then show "\<exists>a. audit_logs db' = audit_logs db @ [a] \<and> al_action a = ''INSERT'' \<and>
           al_table_name a = Some ''time_entries'' \<and> al_record_id a = Some (te_id e)"
    by auto
  from a(1) show "time_entries db' = time_entries db @ [e]"
    by simp
qed

text \<open>
  An insert of a time entry by its owner, an insert and an update by the service role,
  and the delete of a profile that has one time entry: the record of the profile is
  followed by the record of the time entry.
\<close>

theorem one_audit_record_per_mutation_witness:
  "(\<exists>db' a. insert_time_entries alice_session clock_in office_db = Inr db' \<and>
       time_entries db' = [clock_in] \<and> audit_logs db' = [a] \<and>
       al_action a = ''INSERT'' \<and> al_table_name a = Some ''time_entries'') \<and>
   (\<exists>db' a. table_insert service_session (IpWhitelistRow office_ip) empty_policy_db = Inr db' \<and>
       ip_whitelist db' = [office_ip] \<and> audit_logs db' = [a] \<and> al_action a = ''INSERT'') \<and>
   (\<exists>db' a. table_update service_session ''g1'' (GeoFencesRow (office_fence\<lparr>gf_radius := 250\<rparr>))
         office_db = Inr db' \<and>
       audit_logs db' = [a] \<and> al_action a = ''UPDATE'' \<and> al_record_id a = Some ''g1'') \<and>
   (\<exists>db' a b. table_delete service_session Profiles ''u1''
         (empty_policy_db\<lparr>time_entries := [clock_in]\<rparr>) = Inr db' \<and>
       audit_logs db' = [a, b] \<and>
       al_table_name a = Some ''profiles'' \<and> al_record_id a = Some ''u1'' \<and>
       al_table_name b = Some ''time_entries'' \<and> al_record_id b = Some ''t1'' \<and>
       row_count db' = 1)"
proof (intro conjI)
  obtain db' where r: "insert_time_entries alice_session clock_in office_db = Inr db'"
    by (simp add: step_defs sample_defs)
  with one_audit_record_per_mutation [where s = alice_session and e = clock_in and db = office_db
      and db' = db']
  have "(\<exists>a. audit_logs db' = audit_logs office_db @ [a] \<and> al_action a = ''INSERT'' \<and>
           al_table_name a = Some ''time_entries'' \<and> al_record_id a = Some (te_id clock_in)) \<and>
      time_entries db' = time_entries office_db @ [clock_in]"
    by blast
  with r show "\<exists>db' a. insert_time_entries alice_session clock_in office_db = Inr db' \<and>
       time_entries db' = [clock_in] \<and> audit_logs db' = [a] \<and>
       al_action a = ''INSERT'' \<and> al_table_name a = Some ''time_entries''"
    by (auto simp: office_db_def empty_policy_db_def)
next
  let ?r = "IpWhitelistRow office_ip"
  obtain db' where r: "table_insert service_session ?r empty_policy_db = Inr db'"
    by (simp add: step_defs sample_defs)
  with one_audit_record_per_mutation [where s = service_session and NEW = ?r
      and db = empty_policy_db and db' = db']
  have "(\<exists>a. audit_logs db' = audit_logs empty_policy_db @ [a] \<and> al_action a = ''INSERT'' \<and>
           al_table_name a = Some (tg_table_name (row_table ?r)) \<and>
           al_record_id a = Some (row_id ?r)) \<and>
      table_rows (row_table ?r) db' = table_rows (row_table ?r) empty_policy_db @ [?r]"
    by blast
  with r show "\<exists>db' a. table_insert service_session ?r empty_policy_db = Inr db' \<and>
       ip_whitelist db' = [office_ip] \<and> audit_logs db' = [a] \<and> al_action a = ''INSERT''"
    by (auto simp: empty_policy_db_def)
next
  let ?r = "GeoFencesRow (office_fence\<lparr>gf_radius := 250\<rparr>)"
  have f: "find_row (row_table ?r) ''g1'' office_db = Some (GeoFencesRow office_fence)"
    by (simp add: find_row_def sample_defs)
  obtain db' where r: "table_update service_session ''g1'' ?r office_db = Inr db'"
    by (simp add: step_defs sample_defs)
  with f one_audit_record_per_mutation [where s = service_session and NEW = ?r and target = "''g1''"
      and OLD = "GeoFencesRow office_fence" and db = office_db and db' = db']
  have "\<exists>a. audit_logs db' = audit_logs office_db @ [a] \<and> al_action a = ''UPDATE'' \<and>
           al_table_name a = Some (tg_table_name (row_table ?r)) \<and>
           al_record_id a = Some (row_id ?r)"
    by blast
  with r show "\<exists>db' a. table_update service_session ''g1'' ?r office_db = Inr db' \<and>
       audit_logs db' = [a] \<and> al_action a = ''UPDATE'' \<and> al_record_id a = Some ''g1''"
    by (auto simp: office_db_def empty_policy_db_def office_fence_def)
next
  let ?db = "empty_policy_db\<lparr>time_entries := [clock_in]\<rparr>"
  let ?o = "ProfilesRow alice_profile"
  have f: "find_row Profiles ''u1'' ?db = Some ?o"
    by (simp add: find_row_def sample_defs)
  have q: "queued_rows ?o ?db = [TimeEntriesRow clock_in]"
    by (simp add: cascaded_rows_def sample_defs)
  obtain db' where r: "table_delete service_session Profiles ''u1'' ?db = Inr db'"
    by (simp add: step_defs sample_defs)
  with f one_audit_record_per_mutation [where s = service_session and t = Profiles
      and target = "''u1''" and OLD = ?o and db = ?db and db' = db']
  obtain a as where a: "audit_logs db' = audit_logs ?db @ a # as"
      "al_table_name a = Some (tg_table_name Profiles)" "al_record_id a = Some ''u1''"
      "map al_table_name as = map (\<lambda>r. Some (tg_table_name (row_table r))) (queued_rows ?o ?db)"
      "map al_record_id as = map (\<lambda>r. Some (row_id r)) (queued_rows ?o ?db)"
      "row_count ?db = row_count db' + length (a # as)"
    by blast
  from a(4) q obtain b where b: "as = [b]" "al_table_name b = Some ''time_entries''"
    by (cases as) auto
  with a(5) q have "al_record_id b = Some ''t1''"
    by (simp add: clock_in_def)
  with a b r show "\<exists>db' a b. table_delete service_session Profiles ''u1'' ?db = Inr db' \<and>
       audit_logs db' = [a, b] \<and>
       al_table_name a = Some ''profiles'' \<and> al_record_id a = Some ''u1'' \<and>
       al_table_name b = Some ''time_entries'' \<and> al_record_id b = Some ''t1'' \<and>
       row_count db' = 1"
    by (auto simp: empty_policy_db_def row_count_def)
qed

section \<open>The snapshots of an audit record\<close>

text \<open>
  C5, as the trigger function has it. The audit record of an insert and of an update
  holds the new row in \<^verbatim>\<open>new_data\<close> and NULL in \<^verbatim>\<open>old_data\<close>: the row as it was
  before an update is not recorded. The audit record of a delete holds the deleted row
  in \<^verbatim>\<open>old_data\<close> and NULL in \<^verbatim>\<open>new_data\<close>. The records of the rows deleted with
  a profile follow the record of the profile, in the order of those rows, and each
  holds its own row in \<^verbatim>\<open>old_data\<close> and NULL in \<^verbatim>\<open>new_data\<close>. The row in
  \<^verbatim>\<open>new_data\<close> is a row of the table after the mutation, every row in
  \<^verbatim>\<open>old_data\<close> was a row of its table before it.
\<close>

theorem audit_snapshots:
  "(table_insert s NEW db = Inr db' \<longrightarrow>
      (\<exists>a. audit_logs db' = audit_logs db @ [a] \<and>
           al_old_data a = None \<and> al_new_data a = Some (row_to_json NEW)) \<and>
      NEW \<in> set (table_rows (row_table NEW) db')) \<and>
   (find_row (row_table NEW) target db = Some OLD \<and> table_update s target NEW db = Inr db' \<longrightarrow>
      (\<exists>a. audit_logs db' = audit_logs db @ [a] \<and>
           al_old_data a = None \<and> al_new_data a = Some (row_to_json NEW)) \<and>
      NEW \<in> set (table_rows (row_table NEW) db')) \<and>
   (find_row t target db = Some OLD \<and> table_delete s t target db = Inr db' \<longrightarrow>
      (\<exists>a as. audit_logs db' = audit_logs db @ a # as \<and>
           al_old_data a = Some (row_to_json OLD) \<and> al_new_data a = None \<and>
           map al_old_data as = map (\<lambda>r. Some (row_to_json r)) (queued_rows OLD db) \<and>
           map al_new_data as = map (\<lambda>r. None) (queued_rows OLD db)) \<and>
      OLD \<in> set (table_rows t db) \<and>
      list_all (\<lambda>r. r \<in> set (table_rows (row_table r) db)) (queued_rows OLD db))"
proof (intro conjI impI)
  assume h: "table_insert s NEW db = Inr db'"
  from table_insert_Inr [OF h] obtain a where
    a: "db' = (put_row NEW db)\<lparr>audit_logs := audit_logs db @ [a]\<rparr>"
       "al_old_data a = None" "al_new_data a = Some (row_to_json NEW)"
    by blast
  then show "\<exists>a. audit_logs db' = audit_logs db @ [a] \<and>
           al_old_data a = None \<and> al_new_data a = Some (row_to_json NEW)"
    by auto
  from a(1) show "NEW \<in> set (table_rows (row_table NEW) db')"
    by simp
next
  assume h: "find_row (row_table NEW) target db = Some OLD \<and> table_update s target NEW db = Inr db'"
  from table_update_Inr [of s target NEW db db' OLD] h obtain a where
    a: "db' = (replace_row OLD NEW db)\<lparr>audit_logs := audit_logs db @ [a]\<rparr>"
       "al_old_data a = None" "al_new_data a = Some (row_to_json NEW)"
    by blast
  then show "\<exists>a. audit_logs db' = audit_logs db @ [a] \<and>
           al_old_data a = None \<and> al_new_data a = Some (row_to_json NEW)"
    by auto
  from h have "OLD \<in> set (table_rows (row_table NEW) db)"
    using find_row_Some(1) by blast
  then show "NEW \<in> set (table_rows (row_table NEW) db')"
    using a(1) by (simp add: replace_row_mem)
next
  assume h: "find_row t target db = Some OLD \<and> table_delete s t target db = Inr db'"
  from table_delete_Inr [of s t target db db' OLD] h
  show "\<exists>a as. audit_logs db' = audit_logs db @ a # as \<and>
           al_old_data a = Some (row_to_json OLD) \<and> al_new_data a = None \<and>
           map al_old_data as = map (\<lambda>r. Some (row_to_json r)) (queued_rows OLD db) \<and>
           map al_new_data as = map (\<lambda>r. None) (queued_rows OLD db)"
    by blast
  from h show "OLD \<in> set (table_rows t db)"
    using find_row_Some(1) by blast
  show "list_all (\<lambda>r. r \<in> set (table_rows (row_table r) db)) (queued_rows OLD db)"
    by (simp add: list_all_iff queued_rows_in_tables)
qed

text \<open>
  The update of the description of an allowed address: the audit record has no
  \<^verbatim>\<open>old_data\<close>, although the row before the update is known.
\<close>

theorem audit_snapshots_counterexample:
  "find_row IpWhitelist ''w1'' office_db = Some (IpWhitelistRow office_ip) \<and>
   table_update service_session ''w1'' (IpWhitelistRow (office_ip\<lparr>iw_description := Some ''hq''\<rparr>))
       office_db =
     Inr (office_db\<lparr>ip_whitelist := [office_ip\<lparr>iw_description := Some ''hq''\<rparr>],
       audit_logs := [\<lparr>al_id = ''a'', al_user_id = None, al_action = ''UPDATE'',
         al_table_name = Some ''ip_whitelist'', al_record_id = Some ''w1'', al_old_data = None,
         al_new_data = Some (row_to_json (IpWhitelistRow (office_ip\<lparr>iw_description := Some ''hq''\<rparr>))),
         al_ip_address = None, al_created_at = Some ''2025-02-10 13:41:18+00''\<rparr>]\<rparr>)"
  by (simp add: step_defs sample_defs)

text \<open>
  An insert, an update and a delete by the service role, and the delete of a profile
  with one time entry: the first record holds the profile, the second the time entry.
\<close>

theorem audit_snapshots_witness:
  "(\<exists>db' a. table_insert service_session (GeoFencesRow office_fence) empty_policy_db = Inr db' \<and>
       audit_logs db' = [a] \<and> al_old_data a = None \<and>
       al_new_data a = Some (row_to_json (GeoFencesRow office_fence)) \<and>
       geo_fences db' = [office_fence]) \<and>
   (\<exists>db' a. table_update service_session ''w1''
         (IpWhitelistRow (office_ip\<lparr>iw_ip_address := ''5.6.7.8''\<rparr>)) office_db = Inr db' \<and>
       audit_logs db' = [a] \<and> al_old_data a = None \<and>
       al_new_data a = Some (row_to_json (IpWhitelistRow (office_ip\<lparr>iw_ip_address := ''5.6.7.8''\<rparr>))) \<and>
       ip_whitelist db' = [office_ip\<lparr>iw_ip_address := ''5.6.7.8''\<rparr>]) \<and>
   (\<exists>db' a. table_delete service_session GeoFences ''g1'' office_db = Inr db' \<and>
       audit_logs db' = [a] \<and> al_old_data a = Some (row_to_json (GeoFencesRow office_fence)) \<and>
       al_new_data a = None \<and> geo_fences db' = []) \<and>
   (\<exists>db' a b. table_delete service_session Profiles ''u1''
         (empty_policy_db\<lparr>time_entries := [clock_in]\<rparr>) = Inr db' \<and>
       audit_logs db' = [a, b] \<and>
       al_old_data a = Some (row_to_json (ProfilesRow alice_profile)) \<and>
       al_old_data b = Some (row_to_json (TimeEntriesRow clock_in)) \<and>
       al_new_data a = None \<and> al_new_data b = None)"
proof (intro conjI)
  let ?r = "GeoFencesRow office_fence"
  obtain db' where r: "table_insert service_session ?r empty_policy_db = Inr db'"
    and g: "geo_fences db' = [office_fence]"
    by (simp add: step_defs sample_defs)
  with audit_snapshots [where s = service_session and NEW = ?r and db = empty_policy_db and db' = db']
  have "\<exists>a. audit_logs db' = audit_logs empty_policy_db @ [a] \<and>
           al_old_data a = None \<and> al_new_data a = Some (row_to_json ?r)"
    by blast
  with r g show "\<exists>db' a. table_insert service_session ?r empty_policy_db = Inr db' \<and>
       audit_logs db' = [a] \<and> al_old_data a = None \<and> al_new_data a = Some (row_to_json ?r) \<and>
       geo_fences db' = [office_fence]"
    by (auto simp: empty_policy_db_def)
next
  let ?w = "office_ip\<lparr>iw_ip_address := ''5.6.7.8''\<rparr>"
  let ?r = "IpWhitelistRow ?w"
  have f: "find_row (row_table ?r) ''w1'' office_db = Some (IpWhitelistRow office_ip)"
    by (simp add: find_row_def sample_defs)
  obtain db' where r: "table_update service_session ''w1'' ?r office_db = Inr db'"
    and g: "ip_whitelist db' = [?w]"
    by (simp add: step_defs sample_defs)
  with f audit_snapshots [where s = service_session and NEW = ?r and target = "''w1''"
      and OLD = "IpWhitelistRow office_ip" and db = office_db and db' = db']
  have "\<exists>a. audit_logs db' = audit_logs office_db @ [a] \<and>
           al_old_data a = None \<and> al_new_data a = Some (row_to_json ?r)"
    by blast
  with r g show "\<exists>db' a. table_update service_session ''w1'' ?r office_db = Inr db' \<and>
       audit_logs db' = [a] \<and> al_old_data a = None \<and> al_new_data a = Some (row_to_json ?r) \<and>
       ip_whitelist db' = [?w]"
    by (auto simp: office_db_def empty_policy_db_def)
next
  let ?o = "GeoFencesRow office_fence"
  have f: "find_row GeoFences ''g1'' office_db = Some ?o"
    by (simp add: find_row_def sample_defs)
  obtain db' where r: "table_delete service_session GeoFences ''g1'' office_db = Inr db'"
    and g: "geo_fences db' = []" and n: "length (audit_logs db') = 1"
    by (simp add: step_defs sample_defs)
  with f audit_snapshots [where s = service_session and t = GeoFences and target = "''g1''"
      and OLD = ?o and db = office_db and db' = db']
  obtain a as where a: "audit_logs db' = audit_logs office_db @ a # as"
      "al_old_data a = Some (row_to_json ?o)" "al_new_data a = None"
    by blast
  with n have "as = []"
    by (simp add: office_db_def empty_policy_db_def)
  with a r g show "\<exists>db' a. table_delete service_session GeoFences ''g1'' office_db = Inr db' \<and>
       audit_logs db' = [a] \<and> al_old_data a = Some (row_to_json ?o) \<and>
       al_new_data a = None \<and> geo_fences db' = []"
    by (auto simp: office_db_def empty_policy_db_def)
next
  let ?db = "empty_policy_db\<lparr>time_entries := [clock_in]\<rparr>"
  let ?o = "ProfilesRow alice_profile"
  have f: "find_row Profiles ''u1'' ?db = Some ?o"
    by (simp add: find_row_def sample_defs)
  have q: "queued_rows ?o ?db = [TimeEntriesRow clock_in]"
    by (simp add: cascaded_rows_def sample_defs)
  obtain db' where r: "table_delete service_session Profiles ''u1'' ?db = Inr db'"
    by (simp add: step_defs sample_defs)
  with f audit_snapshots [where s = service_session and t = Profiles and target = "''u1''"
      and OLD = ?o and db = ?db and db' = db']
  obtain a as where a: "audit_logs db' = audit_logs ?db @ a # as"
      "al_old_data a = Some (row_to_json ?o)" "al_new_data a = None"
      "map al_old_data as = map (\<lambda>r. Some (row_to_json r)) (queued_rows ?o ?db)"
      "map al_new_data as = map (\<lambda>r. None) (queued_rows ?o ?db)"
    by blast
  from a(4) q obtain b where b: "as = [b]" "al_old_data b = Some (row_to_json (TimeEntriesRow clock_in))"
    by (cases as) auto
  with a(5) q have "al_new_data b = None"
    by simp
  with a b r show "\<exists>db' a b. table_delete service_session Profiles ''u1'' ?db = Inr db' \<and>
       audit_logs db' = [a, b] \<and>
       al_old_data a = Some (row_to_json ?o) \<and>
       al_old_data b = Some (row_to_json (TimeEntriesRow clock_in)) \<and>
       al_new_data a = None \<and> al_new_data b = None"
    by (auto simp: empty_policy_db_def)
qed

section \<open>No mutation without its audit record\<close>

lemma audit_each_append:
  "audit_each s (rs1 @ rs2) db =
     (case audit_each s rs1 db of Inl e \<Rightarrow> Inl e | Inr d \<Rightarrow> audit_each s rs2 d)"
  by (induction rs1 arbitrary: db) (auto split: sum.splits)

text \<open>
  C2. The row change and its audit record take effect together or not at all. When the
  trigger fails to write the audit record of an insert, an update or a delete, or the
  record of a row that is deleted with a profile, the mutation fails with the error of
  the trigger and yields no new state. A mutation that takes effect has its audit
  record: after a successful insert, update or delete the log is the log before it
  followed by the record of the mutation, which names the action, the table and the
  row, and after the delete of a profile by one such record for every row deleted with
  it. In a session in which the record cannot be written, no row can be inserted,
  updated or deleted: when \<^verbatim>\<open>request.headers\<close> is not set or is not JSON, when the
  identifier drawn for the record is that of an earlier record, and, for an insert,
  when the user of the session has no profile.
\<close>

theorem audit_failure_aborts_mutation:
  "(insert_row NEW db = Inr db1 \<and>
    audit_log_changes s INSERT (row_table NEW) None (Some NEW) db1 = Inl e \<longrightarrow>
      table_insert s NEW db = Inl e) \<and>
   (find_row (row_table NEW) target db = Some OLD \<and> update_row OLD NEW db = Inr db1 \<and>
    audit_log_changes s UPDATE (row_table NEW) (Some OLD) (Some NEW) db1 = Inl e \<longrightarrow>
      table_update s target NEW db = Inl e) \<and>
   (find_row t target db = Some OLD \<and> delete_row OLD db = Inr db1 \<and>
    audit_log_changes s DELETE t (Some OLD) None db1 = Inl e \<longrightarrow>
      table_delete s t target db = Inl e) \<and>
   (find_row t target db = Some OLD \<and> delete_row OLD db = Inr db1 \<and>
    audit_log_changes s DELETE t (Some OLD) None db1 = Inr db2 \<and>
    queued_rows OLD db = rs1 @ r # rs2 \<and> audit_each s rs1 db2 = Inr db3 \<and>
    audit_log_changes s DELETE (row_table r) (Some r) None db3 = Inl e \<longrightarrow>
      table_delete s t target db = Inl e) \<and>
   (table_insert s NEW db = Inr db' \<longrightarrow>
      (\<exists>a. audit_logs db' = audit_logs db @ [a] \<and> al_action a = ''INSERT'' \<and>
           al_table_name a = Some (tg_table_name (row_table NEW)) \<and>
           al_record_id a = Some (row_id NEW))) \<and>
   (find_row (row_table NEW) target db = Some OLD \<and> table_update s target NEW db = Inr db' \<longrightarrow>
      (\<exists>a. audit_logs db' = audit_logs db @ [a] \<and> al_action a = ''UPDATE'' \<and>
           al_table_name a = Some (tg_table_name (row_table NEW)) \<and>
           al_record_id a = Some (row_id NEW))) \<and>
   (find_row t target db = Some OLD \<and> table_delete s t target db = Inr db' \<longrightarrow>
      (\<exists>a as. audit_logs db' = audit_logs db @ a # as \<and> al_action a = ''DELETE'' \<and>
           al_table_name a = Some (tg_table_name t) \<and> al_record_id a = Some target \<and>
           map al_table_name as = map (\<lambda>r. Some (tg_table_name (row_table r))) (queued_rows OLD db) \<and>
           map al_record_id as = map (\<lambda>r. Some (row_id r)) (queued_rows OLD db))) \<and>
   (request_headers s = None \<or> request_headers s = Some NotJson \<or>
    gen_random_uuid s (length (audit_logs db)) \<in> set (map al_id (audit_logs db)) \<longrightarrow>
      table_insert s NEW db \<noteq> Inr db' \<and>
      (find_row (row_table NEW) target db = Some OLD \<longrightarrow> table_update s target NEW db \<noteq> Inr db') \<and>
      (find_row t target db = Some OLD \<longrightarrow> table_delete s t target db \<noteq> Inr db')) \<and>
   (\<not> refs_profile (auth_uid s) (put_row NEW db) \<longrightarrow> table_insert s NEW db \<noteq> Inr db')"
proof (intro conjI impI)
  assume "insert_row NEW db = Inr db1 \<and>
    audit_log_changes s INSERT (row_table NEW) None (Some NEW) db1 = Inl e"
  then show "table_insert s NEW db = Inl e"
    by (simp add: table_insert_def)
next
  assume "find_row (row_table NEW) target db = Some OLD \<and> update_row OLD NEW db = Inr db1 \<and>
    audit_log_changes s UPDATE (row_table NEW) (Some OLD) (Some NEW) db1 = Inl e"
  then show "table_update s target NEW db = Inl e"
    by (simp add: table_update_def)
next
  assume "find_row t target db = Some OLD \<and> delete_row OLD db = Inr db1 \<and>
    audit_log_changes s DELETE t (Some OLD) None db1 = Inl e"
  then show "table_delete s t target db = Inl e"
    by (simp add: table_delete_def)
next
  assume h: "find_row t target db = Some OLD \<and> delete_row OLD db = Inr db1 \<and>
    audit_log_changes s DELETE t (Some OLD) None db1 = Inr db2 \<and>
    queued_rows OLD db = rs1 @ r # rs2 \<and> audit_each s rs1 db2 = Inr db3 \<and>
    audit_log_changes s DELETE (row_table r) (Some r) None db3 = Inl e"
  then have "audit_each s (rs1 @ r # rs2) db2 = Inl e"
    by (simp add: audit_each_append)
  with h show "table_delete s t target db = Inl e"
    by (simp add: table_delete_def)
next
  assume h: "table_insert s NEW db = Inr db'"
  from table_insert_Inr [OF h]
  show "\<exists>a. audit_logs db' = audit_logs db @ [a] \<and> al_action a = ''INSERT'' \<and>
           al_table_name a = Some (tg_table_name (row_table NEW)) \<and>
           al_record_id a = Some (row_id NEW)"
    by auto
next
  assume h: "find_row (row_table NEW) target db = Some OLD \<and> table_update s target NEW db = Inr db'"
  from table_update_Inr [of s target NEW db db' OLD] h
  show "\<exists>a. audit_logs db' = audit_logs db @ [a] \<and> al_action a = ''UPDATE'' \<and>
           al_table_name a = Some (tg_table_name (row_table NEW)) \<and>
           al_record_id a = Some (row_id NEW)"
    by auto
next
  assume h: "find_row t target db = Some OLD \<and> table_delete s t target db = Inr db'"
  from table_delete_Inr [of s t target db db' OLD] h
  show "\<exists>a as. audit_logs db' = audit_logs db @ a # as \<and> al_action a = ''DELETE'' \<and>
           al_table_name a = Some (tg_table_name t) \<and> al_record_id a = Some target \<and>
           map al_table_name as = map (\<lambda>r. Some (tg_table_name (row_table r))) (queued_rows OLD db) \<and>
           map al_record_id as = map (\<lambda>r. Some (row_id r)) (queued_rows OLD db)"
    by blast
next
  assume u: "request_headers s = None \<or> request_headers s = Some NotJson \<or>
    gen_random_uuid s (length (audit_logs db)) \<in> set (map al_id (audit_logs db))"
  have a: "isl (audit_log_changes s INSERT v x y d)" if "audit_logs d = audit_logs db" for v x y d
    using u that by (auto simp: isl_audit_log_changes)
  show "table_insert s NEW db \<noteq> Inr db'"
  proof (cases "insert_row NEW db")
    case (Inl x)
    then show ?thesis by (simp add: table_insert_def)
  next
    case (Inr d)
    with insert_row_Inr [OF Inr] a [of d "row_table NEW" None "Some NEW"] show ?thesis
      by (auto simp: table_insert_def)
  qed
next
  assume u: "request_headers s = None \<or> request_headers s = Some NotJson \<or>
    gen_random_uuid s (length (audit_logs db)) \<in> set (map al_id (audit_logs db))"
    and f: "find_row (row_table NEW) target db = Some OLD"
  have a: "isl (audit_log_changes s UPDATE v x y d)" if "audit_logs d = audit_logs db" for v x y d
    using u that by (auto simp: isl_audit_log_changes)
  show "table_update s target NEW db \<noteq> Inr db'"
  proof (cases "update_row OLD NEW db")
    case (Inl x)
    with f show ?thesis by (simp add: table_update_def)
  next
    case (Inr d)
    with update_row_Inr [OF Inr] f a [of d "row_table NEW" "Some OLD" "Some NEW"]
    show ?thesis
      by (auto simp: table_update_def)
  qed
next
  assume u: "request_headers s = None \<or> request_headers s = Some NotJson \<or>
    gen_random_uuid s (length (audit_logs db)) \<in> set (map al_id (audit_logs db))"
    and f: "find_row t target db = Some OLD"
  have a: "isl (audit_log_changes s DELETE v x y d)" if "audit_logs d = audit_logs db" for v x y d
    using u that by (auto simp: isl_audit_log_changes)
  show "table_delete s t target db \<noteq> Inr db'"
  proof (cases "delete_row OLD db")
    case (Inl x)
    with f show ?thesis by (simp add: table_delete_def)
  next
    case (Inr d)
    with delete_row_Inr(1) [OF Inr find_row_Some(1) [OF f]] f a [of d t "Some OLD" None]
    show ?thesis
      by (auto simp: table_delete_def split: sum.splits)
  qed
next
  assume n: "\<not> refs_profile (auth_uid s) (put_row NEW db)"
  show "table_insert s NEW db \<noteq> Inr db'"
  proof (cases "insert_row NEW db")
    case (Inl x)
    then show ?thesis by (simp add: table_insert_def)
  next
    case (Inr d)
    with insert_row_Inr [OF Inr] n
    have "isl (audit_log_changes s INSERT (row_table NEW) None (Some NEW) d)"
      by (simp add: isl_audit_log_changes)
    with Inr show ?thesis
      by (auto simp: table_insert_def)
  qed
qed

text \<open>
  An insert, an update and a delete fail in a session without \<^verbatim>\<open>request.headers\<close>,
  and the delete of a profile fails when the record of its time entry collides with an
  earlier record; the same mutations succeed in the session of the service role and
  leave their records. An insert also fails when the headers are not JSON, when the
  record of the insert itself collides, and when the user of the session has no profile.
\<close>

theorem audit_failure_aborts_mutation_witness:
  "table_insert (service_session\<lparr>request_headers := None\<rparr>) (IpWhitelistRow office_ip)
       empty_policy_db = Inl UndefinedObject \<and>
   table_update (service_session\<lparr>request_headers := None\<rparr>) ''w1''
       (IpWhitelistRow (office_ip\<lparr>iw_description := Some ''hq''\<rparr>)) office_db = Inl UndefinedObject \<and>
   table_delete (service_session\<lparr>request_headers := None\<rparr>) IpWhitelist ''w1'' office_db
     = Inl UndefinedObject \<and>
   table_delete service_session Profiles ''u1''
       (empty_policy_db\<lparr>time_entries := [clock_in], audit_logs := [earlier_record]\<rparr>)
     = Inl UniqueViolation \<and>
   (\<exists>db' a b. table_delete service_session Profiles ''u1''
         (empty_policy_db\<lparr>time_entries := [clock_in]\<rparr>) = Inr db' \<and>
       audit_logs db' = [a, b] \<and> al_record_id a = Some ''u1'' \<and> al_record_id b = Some ''t1'') \<and>
   (\<exists>db' a. table_insert service_session (IpWhitelistRow office_ip) empty_policy_db = Inr db' \<and>
       audit_logs db' = [a] \<and> al_record_id a = Some ''w1'') \<and>
   (\<exists>db' a. table_update service_session ''w1''
         (IpWhitelistRow (office_ip\<lparr>iw_description := Some ''hq''\<rparr>)) office_db = Inr db' \<and>
       audit_logs db' = [a] \<and> al_record_id a = Some ''w1'') \<and>
   isl (table_insert (service_session\<lparr>request_headers := Some NotJson\<rparr>) (IpWhitelistRow office_ip)
       empty_policy_db) \<and>
   isl (table_insert service_session (IpWhitelistRow office_ip)
       (empty_policy_db\<lparr>audit_logs := [earlier_record\<lparr>al_id := ''aa''\<rparr>]\<rparr>)) \<and>
   isl (table_insert (service_session\<lparr>auth_uid := Some ''u9''\<rparr>) (IpWhitelistRow office_ip)
       empty_policy_db)"
proof -
  let ?s = "service_session\<lparr>request_headers := None\<rparr>"
  let ?r = "IpWhitelistRow office_ip"
  let ?v = "IpWhitelistRow (office_ip\<lparr>iw_description := Some ''hq''\<rparr>)"
  note t = audit_failure_aborts_mutation
  have i: "insert_row ?r empty_policy_db = Inr (put_row ?r empty_policy_db)"
    by (simp add: step_defs sample_defs)
  have ia: "audit_log_changes ?s INSERT (row_table ?r) None (Some ?r) (put_row ?r empty_policy_db)
             = Inl UndefinedObject"
    by (simp add: step_defs sample_defs)
  from t [where s = ?s and NEW = ?r and db = empty_policy_db
      and ?db1.0 = "put_row ?r empty_policy_db" and e = UndefinedObject] i ia
  have 1: "table_insert ?s ?r empty_policy_db = Inl UndefinedObject"
    by blast
  have f: "find_row (row_table ?v) ''w1'' office_db = Some ?r"
    by (simp add: find_row_def sample_defs)
  have u: "update_row ?r ?v office_db = Inr (replace_row ?r ?v office_db)"
    by (simp add: step_defs sample_defs)
  have ua: "audit_log_changes ?s UPDATE (row_table ?v) (Some ?r) (Some ?v) (replace_row ?r ?v office_db)
             = Inl UndefinedObject"
    by (simp add: step_defs sample_defs)
  from t [where s = ?s and NEW = ?v and target = "''w1''" and OLD = ?r
      and db = office_db and ?db1.0 = "replace_row ?r ?v office_db" and e = UndefinedObject] f u ua
  have 2: "table_update ?s ''w1'' ?v office_db = Inl UndefinedObject"
    by blast
  have f': "find_row IpWhitelist ''w1'' office_db = Some ?r"
    by (simp add: find_row_def sample_defs)
  have d: "delete_row ?r office_db = Inr (remove_row ?r office_db)"
    by simp
  have da: "audit_log_changes ?s DELETE IpWhitelist (Some ?r) None (remove_row ?r office_db)
             = Inl UndefinedObject"
    by (simp add: step_defs sample_defs)
  from t [where s = ?s and t = IpWhitelist and target = "''w1''"
      and OLD = ?r and db = office_db and ?db1.0 = "remove_row ?r office_db" and e = UndefinedObject]
    f' d da
  have 3: "table_delete ?s IpWhitelist ''w1'' office_db = Inl UndefinedObject"
    by blast
  let ?c = "empty_policy_db\<lparr>time_entries := [clock_in], audit_logs := [earlier_record]\<rparr>"
  let ?o = "ProfilesRow alice_profile"
  have cf: "find_row Profiles ''u1'' ?c = Some ?o"
    by (simp add: find_row_def sample_defs)
  obtain c1 where cd: "delete_row ?o ?c = Inr c1"
    by (simp add: step_defs sample_defs earlier_record_def)
  obtain c2 where ca: "audit_log_changes service_session DELETE Profiles (Some ?o) None c1 = Inr c2"
    using cd by (auto simp: step_defs sample_defs earlier_record_def)
  have cq: "queued_rows ?o ?c = [] @ TimeEntriesRow clock_in # []"
    by (simp add: cascaded_rows_def sample_defs)
  have ce: "audit_each service_session [] c2 = Inr c2"
    by simp
  have cx: "audit_log_changes service_session DELETE (row_table (TimeEntriesRow clock_in))
              (Some (TimeEntriesRow clock_in)) None c2 = Inl UniqueViolation"
    using cd ca by (auto simp: step_defs sample_defs earlier_record_def)
  from t [where s = service_session and t = Profiles and target = "''u1''" and OLD = ?o
      and db = ?c and ?db1.0 = c1 and ?db2.0 = c2 and ?rs1.0 = "[]"
      and r = "TimeEntriesRow clock_in" and ?rs2.0 = "[]" and ?db3.0 = c2 and e = UniqueViolation]
    cf cd ca cq ce cx
  have 4: "table_delete service_session Profiles ''u1'' ?c = Inl UniqueViolation"
    by blast
  let ?g = "empty_policy_db\<lparr>time_entries := [clock_in]\<rparr>"
  have gf: "find_row Profiles ''u1'' ?g = Some ?o"
    by (simp add: find_row_def sample_defs)
  have gq: "queued_rows ?o ?g = [TimeEntriesRow clock_in]"
    by (simp add: cascaded_rows_def sample_defs)
  obtain g' where gr: "table_delete service_session Profiles ''u1'' ?g = Inr g'"
    by (simp add: step_defs sample_defs)
  with gf t [where s = service_session and t = Profiles and target = "''u1''" and OLD = ?o
      and db = ?g and db' = g']
  obtain a as where a: "audit_logs g' = audit_logs ?g @ a # as" "al_record_id a = Some ''u1''"
      "map al_record_id as = map (\<lambda>r. Some (row_id r)) (queued_rows ?o ?g)"
    by blast
  from a(3) gq obtain b where "as = [b]" "al_record_id b = Some ''t1''"
    by (cases as) (auto simp: clock_in_def)
  with a gr have 5: "\<exists>db' a b. table_delete service_session Profiles ''u1'' ?g = Inr db' \<and>
       audit_logs db' = [a, b] \<and> al_record_id a = Some ''u1'' \<and> al_record_id b = Some ''t1''"
    by (auto simp: empty_policy_db_def)
  obtain i' where ir: "table_insert service_session ?r empty_policy_db = Inr i'"
    by (simp add: step_defs sample_defs)
  with t [where s = service_session and NEW = ?r and db = empty_policy_db and db' = i']
  have "\<exists>a. audit_logs i' = audit_logs empty_policy_db @ [a] \<and> al_action a = ''INSERT'' \<and>
           al_table_name a = Some (tg_table_name (row_table ?r)) \<and>
           al_record_id a = Some (row_id ?r)"
    by blast
  with ir have 6: "\<exists>db' a. table_insert service_session ?r empty_policy_db = Inr db' \<and>
       audit_logs db' = [a] \<and> al_record_id a = Some ''w1''"
    by (auto simp: empty_policy_db_def office_ip_def)
  obtain u' where ur: "table_update service_session ''w1'' ?v office_db = Inr u'"
    by (simp add: step_defs sample_defs)
  with f t [where s = service_session and NEW = ?v and target = "''w1''" and OLD = ?r
      and db = office_db and db' = u']
  have "\<exists>a. audit_logs u' = audit_logs office_db @ [a] \<and> al_action a = ''UPDATE'' \<and>
           al_table_name a = Some (tg_table_name (row_table ?v)) \<and>
           al_record_id a = Some (row_id ?v)"
    by blast
  with ur have 7: "\<exists>db' a. table_update service_session ''w1'' ?v office_db = Inr db' \<and>
       audit_logs db' = [a] \<and> al_record_id a = Some ''w1''"
    by (auto simp: office_db_def empty_policy_db_def office_ip_def)
  have 8: "isl (table_insert (service_session\<lparr>request_headers := Some NotJson\<rparr>) ?r empty_policy_db)"
  proof (cases "table_insert (service_session\<lparr>request_headers := Some NotJson\<rparr>) ?r empty_policy_db")
    case (Inl x)
    then show ?thesis by simp
  next
    case (Inr y)
    with t [where s = "service_session\<lparr>request_headers := Some NotJson\<rparr>" and NEW = ?r
        and db = empty_policy_db and db' = y]
    show ?thesis by simp
  qed
  let ?k = "empty_policy_db\<lparr>audit_logs := [earlier_record\<lparr>al_id := ''aa''\<rparr>]\<rparr>"
  have 9: "isl (table_insert service_session ?r ?k)"
  proof (cases "table_insert service_session ?r ?k")
    case (Inl x)
    then show ?thesis by simp
  next
    case (Inr y)
    have "gen_random_uuid service_session (length (audit_logs ?k)) \<in> set (map al_id (audit_logs ?k))"
      by (simp add: sample_defs)
    with Inr t [where s = service_session and NEW = ?r and db = ?k and db' = y]
    show ?thesis by blast
  qed
  let ?z = "service_session\<lparr>auth_uid := Some ''u9''\<rparr>"
  have 10: "isl (table_insert ?z ?r empty_policy_db)"
  proof (cases "table_insert ?z ?r empty_policy_db")
    case (Inl x)
    then show ?thesis by simp
  next
    case (Inr y)
    have "\<not> refs_profile (auth_uid ?z) (put_row ?r empty_policy_db)"
      by (simp add: refs_profile_def sample_defs)
    with Inr t [where s = ?z and NEW = ?r and db = empty_policy_db and db' = y]
    show ?thesis by blast
  qed
  from 1 2 3 4 5 6 7 8 9 10 show ?thesis by blast
qed

section \<open>Recording a clock event\<close>

lemma refs_profile_policy_store [simp]:
  "refs_profile u (db\<lparr>ip_whitelist := w, geo_fences := g\<rparr>) = refs_profile u db"
  "refs_profile u (db\<lparr>time_entries := es\<rparr>) = refs_profile u db"
  by (cases u; simp add: refs_profile_def)+

lemma audit_log_changes_policy_store:
  "audit_log_changes s TG_OP t OLD NEW (db\<lparr>ip_whitelist := w, geo_fences := g\<rparr>) =
   map_sum id (\<lambda>d. d\<lparr>ip_whitelist := w, geo_fences := g\<rparr>) (audit_log_changes s TG_OP t OLD NEW db)"
  by (simp add: audit_log_changes_def insert_audit_logs_def split: sum.splits)

lemma insert_row_time_entry_policy_store:
  "insert_row (TimeEntriesRow e) (db\<lparr>ip_whitelist := w, geo_fences := g\<rparr>) =
   map_sum id (\<lambda>d. d\<lparr>ip_whitelist := w, geo_fences := g\<rparr>) (insert_row (TimeEntriesRow e) db)"
  by (simp add: insert_row_def)

text \<open>
  C4, as the migration has it. An insert into \<^verbatim>\<open>time_entries\<close> is not checked
  against the location authorizer: no policy and no trigger of the table calls
  \<^verbatim>\<open>check_location_restrictions\<close>. Whether the insert is accepted, and with which
  error it is refused, is the same whatever the whitelist and the fences contain; an
  insert at a location that the authorizer rejects is stored, with its audit record,
  exactly when the same insert is stored at an allowed location.
\<close>

theorem insert_time_entries_ignores_policy_store:
  "insert_time_entries s NEW (db\<lparr>ip_whitelist := w, geo_fences := g\<rparr>) =
   map_sum id (\<lambda>d. d\<lparr>ip_whitelist := w, geo_fences := g\<rparr>) (insert_time_entries s NEW db)"
proof (cases "insert_row (TimeEntriesRow NEW) db")
  case (Inl e)
  then show ?thesis
    by (simp add: insert_time_entries_def table_insert_def insert_row_time_entry_policy_store)
next
  case (Inr db1)
  then show ?thesis
    by (simp add: insert_time_entries_def table_insert_def insert_row_time_entry_policy_store
        audit_log_changes_policy_store)
qed

lemma check_location_restrictions_samples:
  "check_location_restrictions office_db (Some 10) (Some 10) (Some ''1.2.3.4'') = Inr True"
  "check_location_restrictions empty_policy_db (Some 10) (Some 10) (Some ''9.9.9.9'') = Inr False"
  "check_location_restrictions (office_db\<lparr>ip_whitelist := [], geo_fences := []\<rparr>)
     (Some 10) (Some 10) (Some ''1.2.3.4'') = Inr False"
proof -
  have "geo_allowed office_db (Some 10) (Some 10) = Inr True"
    using geo_allowed_safe [of 10 10 office_db]
    by (simp add: office_db_def office_fence_def float8_round_10 point_dt_office)
  then show "check_location_restrictions office_db (Some 10) (Some 10) (Some ''1.2.3.4'') = Inr True"
    by (simp add: check_location_restrictions_def ip_allowed_iff office_db_def office_ip_def)
  have "geo_allowed empty_policy_db (Some 10) (Some 10) = Inr False"
    using geo_allowed_safe [of 10 10 empty_policy_db]
    by (simp add: empty_policy_db_def)
  then show "check_location_restrictions empty_policy_db (Some 10) (Some 10) (Some ''9.9.9.9'') =
      Inr False"
    by (simp add: check_location_restrictions_def)
  have "geo_allowed (office_db\<lparr>ip_whitelist := [], geo_fences := []\<rparr>) (Some 10) (Some 10) =
      Inr False"
    using geo_allowed_safe [of 10 10 "office_db\<lparr>ip_whitelist := [], geo_fences := []\<rparr>"]
    by simp
  then show "check_location_restrictions (office_db\<lparr>ip_whitelist := [], geo_fences := []\<rparr>)
     (Some 10) (Some 10) (Some ''1.2.3.4'') = Inr False"
    by (simp add: check_location_restrictions_def)
qed

text \<open>
  With an empty whitelist and no fences the authorizer rejects every location, and the
  clock-in of an employee is stored and audited all the same.
\<close>

theorem insert_time_entries_authorizer_counterexample:
  "check_location_restrictions empty_policy_db
     (te_latitude clock_in) (te_longitude clock_in) (te_ip_address clock_in) = Inr False \<and>
   insert_time_entries alice_session clock_in empty_policy_db =
     Inr (empty_policy_db\<lparr>time_entries := [clock_in],
       audit_logs := [\<lparr>al_id = ''a'', al_user_id = Some ''u1'', al_action = ''INSERT'',
         al_table_name = Some ''time_entries'', al_record_id = Some ''t1'', al_old_data = None,
         al_new_data = Some (row_to_json (TimeEntriesRow clock_in)),
         al_ip_address = Some ''9.9.9.9'', al_created_at = Some ''2025-02-10 13:41:18+00''\<rparr>]\<rparr>)"
proof
  show "check_location_restrictions empty_policy_db
     (te_latitude clock_in) (te_longitude clock_in) (te_ip_address clock_in) = Inr False"
    by (simp add: clock_in_def check_location_restrictions_samples)
  show "insert_time_entries alice_session clock_in empty_policy_db =
     Inr (empty_policy_db\<lparr>time_entries := [clock_in],
       audit_logs := [\<lparr>al_id = ''a'', al_user_id = Some ''u1'', al_action = ''INSERT'',
         al_table_name = Some ''time_entries'', al_record_id = Some ''t1'', al_old_data = None,
         al_new_data = Some (row_to_json (TimeEntriesRow clock_in)),
         al_ip_address = Some ''9.9.9.9'', al_created_at = Some ''2025-02-10 13:41:18+00''\<rparr>]\<rparr>)"
    by (simp add: step_defs sample_defs)
qed

theorem insert_time_entries_ignores_policy_store_witness:
  "check_location_restrictions office_db (Some 10) (Some 10) (Some ''1.2.3.4'') = Inr True \<and>
   check_location_restrictions (office_db\<lparr>ip_whitelist := [], geo_fences := []\<rparr>)
       (Some 10) (Some 10) (Some ''1.2.3.4'') = Inr False \<and>
   (\<exists>db'. insert_time_entries alice_session (clock_in\<lparr>te_ip_address := Some ''1.2.3.4''\<rparr>) office_db
            = Inr db' \<and>
          insert_time_entries alice_session (clock_in\<lparr>te_ip_address := Some ''1.2.3.4''\<rparr>)
            (office_db\<lparr>ip_whitelist := [], geo_fences := []\<rparr>)
            = Inr (db'\<lparr>ip_whitelist := [], geo_fences := []\<rparr>))"
proof -
  let ?e = "clock_in\<lparr>te_ip_address := Some ''1.2.3.4''\<rparr>"
  obtain db' where r: "insert_time_entries alice_session ?e office_db = Inr db'"
    by (simp add: step_defs sample_defs)
  from insert_time_entries_ignores_policy_store
         [where s = alice_session and NEW = ?e and db = office_db and w = "[]" and g = "[]"] r
  have "insert_time_entries alice_session ?e (office_db\<lparr>ip_whitelist := [], geo_fences := []\<rparr>)
          = Inr (db'\<lparr>ip_whitelist := [], geo_fences := []\<rparr>)"
    by simp
  then show ?thesis
    using r check_location_restrictions_samples(1,3) by blast
qed

text \<open>
  C7. For a caller subject to row-level security, whatever the role in the caller's
  profile, an insert into \<^verbatim>\<open>time_entries\<close> succeeds only when the caller's identifier
  equals the \<^verbatim>\<open>user_id\<close> of the new row; an insert that names another owner, or
  none, is refused with \<open>InsufficientPrivilege\<close>, so that no row and no audit record
  are written.
\<close>

theorem insert_time_entries_owner_only:
  assumes "\<not> bypassrls s"
  shows "(insert_time_entries s NEW db = Inr db' \<longrightarrow>
           (\<exists>u. auth_uid s = Some u \<and> te_user_id NEW = Some u)) \<and>
         (\<not> (\<exists>u. auth_uid s = Some u \<and> te_user_id NEW = Some u) \<longrightarrow>
           insert_time_entries s NEW db = Inl InsufficientPrivilege)"
  using assms
  by (cases "auth_uid s"; cases "te_user_id NEW")
     (auto simp: insert_time_entries_def users_can_insert_their_own_time_entries_def
        sql_eq_def sql_where_def)

text \<open>
  The administrator cannot record a clock event for the employee; the employee can.
\<close>

theorem insert_time_entries_owner_only_witness:
  "\<not> bypassrls (alice_session\<lparr>auth_uid := Some ''u0''\<rparr>) \<and>
   p_role admin_profile = ''admin'' \<and> p_id admin_profile = ''u0'' \<and>
   admin_profile \<in> set (profiles office_db) \<and>
   te_user_id clock_in = Some ''u1'' \<and>
   insert_time_entries (alice_session\<lparr>auth_uid := Some ''u0''\<rparr>) clock_in office_db
     = Inl InsufficientPrivilege \<and>
   (\<exists>db'. insert_time_entries alice_session clock_in office_db = Inr db')"
proof -
  have "insert_time_entries (alice_session\<lparr>auth_uid := Some ''u0''\<rparr>) clock_in office_db
     = Inl InsufficientPrivilege"
    using insert_time_entries_owner_only [of "alice_session\<lparr>auth_uid := Some ''u0''\<rparr>" clock_in office_db]
    by (simp add: sample_defs)
  moreover have "\<exists>db'. insert_time_entries alice_session clock_in office_db = Inr db'"
    by (simp add: step_defs sample_defs)
  ultimately show ?thesis
    by (simp add: sample_defs)
qed

section \<open>The radius of a fence\<close>

text \<open>
  C6, as the migration has it. The column \<^verbatim>\<open>geo_fences.radius\<close> has no constraint
  but \<^verbatim>\<open>NOT NULL\<close>: whether an insert of a fence is accepted does not depend on its
  radius, and an accepted fence is stored with the radius given, with one audit record.
  A fence with a radius of zero or less is stored like any other.
\<close>

theorem geo_fence_radius_unchecked:
  "isl (table_insert s (GeoFencesRow (g\<lparr>gf_radius := r\<rparr>)) db) =
     isl (table_insert s (GeoFencesRow g) db) \<and>
   (table_insert s (GeoFencesRow g) db = Inr db' \<longrightarrow>
      geo_fences db' = geo_fences db @ [g] \<and>
      (\<exists>a. audit_logs db' = audit_logs db @ [a] \<and>
           al_new_data a = Some (row_to_json (GeoFencesRow g))))"
proof
  have "refs_profile u (db\<lparr>geo_fences := fs\<rparr>) = refs_profile u db" for u fs
    by (cases u) (simp_all add: refs_profile_def)
  then show "isl (table_insert s (GeoFencesRow (g\<lparr>gf_radius := r\<rparr>)) db) =
     isl (table_insert s (GeoFencesRow g) db)"
    by (simp add: table_insert_def insert_row_def isl_audit_log_changes)
  show "table_insert s (GeoFencesRow g) db = Inr db' \<longrightarrow>
      geo_fences db' = geo_fences db @ [g] \<and>
      (\<exists>a. audit_logs db' = audit_logs db @ [a] \<and>
           al_new_data a = Some (row_to_json (GeoFencesRow g)))"
  proof
    assume "table_insert s (GeoFencesRow g) db = Inr db'"
    from table_insert_Inr [OF this] show "geo_fences db' = geo_fences db @ [g] \<and>
      (\<exists>a. audit_logs db' = audit_logs db @ [a] \<and>
           al_new_data a = Some (row_to_json (GeoFencesRow g)))"
      by auto
  qed
qed

text \<open>
  A fence of radius \<open>-1\<close> is inserted and audited.
\<close>

theorem geo_fence_radius_counterexample:
  "table_insert service_session (GeoFencesRow (office_fence\<lparr>gf_radius := - 1\<rparr>)) empty_policy_db =
     Inr (empty_policy_db\<lparr>geo_fences := [office_fence\<lparr>gf_radius := - 1\<rparr>],
       audit_logs := [\<lparr>al_id = ''a'', al_user_id = None, al_action = ''INSERT'',
         al_table_name = Some ''geo_fences'', al_record_id = Some ''g1'', al_old_data = None,
         al_new_data = Some (row_to_json (GeoFencesRow (office_fence\<lparr>gf_radius := - 1\<rparr>))),
         al_ip_address = None, al_created_at = Some ''2025-02-10 13:41:18+00''\<rparr>]\<rparr>)"
  by (simp add: step_defs sample_defs)

theorem geo_fence_radius_unchecked_witness:
  "(\<exists>db'. table_insert service_session (GeoFencesRow office_fence) empty_policy_db = Inr db') \<and>
   gf_radius (office_fence\<lparr>gf_radius := 0\<rparr>) \<le> 0 \<and>
   (\<exists>db'. table_insert service_session (GeoFencesRow (office_fence\<lparr>gf_radius := 0\<rparr>))
            empty_policy_db = Inr db' \<and>
          geo_fences db' = [office_fence\<lparr>gf_radius := 0\<rparr>] \<and> length (audit_logs db') = 1)"
proof -
  let ?g = "office_fence\<lparr>gf_radius := 0\<rparr>"
  have ok: "\<not> isl (table_insert service_session (GeoFencesRow office_fence) empty_policy_db)"
    by (simp add: step_defs sample_defs)
  with geo_fence_radius_unchecked
         [where s = service_session and g = office_fence and r = 0 and db = empty_policy_db]
  have "\<not> isl (table_insert service_session (GeoFencesRow ?g) empty_policy_db)"
    by simp
  then obtain db' where r: "table_insert service_session (GeoFencesRow ?g) empty_policy_db = Inr db'"
    by (cases "table_insert service_session (GeoFencesRow ?g) empty_policy_db") auto
  with geo_fence_radius_unchecked
         [where s = service_session and g = ?g and r = 0 and db = empty_policy_db and db' = db']
  have "geo_fences db' = [?g] \<and> length (audit_logs db') = 1"
    by (auto simp: empty_policy_db_def)
  with r ok show ?thesis
    by (cases "table_insert service_session (GeoFencesRow office_fence) empty_policy_db") auto
qed

section \<open>Allowed addresses are unique\<close>

lemma distinct_map_remove1: "distinct (map f xs) \<Longrightarrow> distinct (map f (remove1 x xs))"
proof (induction xs)
  case Nil
  then show ?case by simp
next
  case (Cons y ys)
  have "set (remove1 x ys) \<subseteq> set ys"
    by (rule set_remove1_subset)
  with Cons show ?case by auto
qed

lemma distinct_map_replace1:
  "distinct (map f xs) \<Longrightarrow> f b \<notin> f ` set (remove1 a xs) \<Longrightarrow> distinct (map f (replace1 a b xs))"
proof (induction xs)
  case Nil
  then show ?case by simp
next
  case (Cons y ys)
  show ?case
  proof (cases "y = a")
    case True
    with Cons.prems show ?thesis by simp
  next
    case False
    with Cons.prems have 1: "distinct (map f ys)" and 2: "f b \<notin> f ` set (remove1 a ys)"
      and 3: "f y \<notin> f ` set ys" and 4: "f b \<noteq> f y"
      by auto
    have "f y \<notin> f ` set (replace1 a b ys)"
      using set_replace1 [of a b ys] 3 4 by auto
    with Cons.IH [OF 1 2] False show ?thesis by simp
  qed
qed

lemma table_insert_distinct_ip:
  assumes "table_insert s r db = Inr db'" and "distinct (map iw_ip_address (ip_whitelist db))"
  shows "distinct (map iw_ip_address (ip_whitelist db'))"
proof -
  from assms(1) have u: "unique_ok r db"
    by (auto simp: table_insert_def insert_row_def split: sum.splits if_splits)
  from table_insert_Inr [OF assms(1)]
  have "ip_whitelist db' = ip_whitelist (put_row r db)"
    by auto
  with u assms(2) show ?thesis
    by (cases r) auto
qed

lemma table_update_distinct_ip:
  assumes "table_update s i r db = Inr db'" and "distinct (map iw_ip_address (ip_whitelist db))"
  shows "distinct (map iw_ip_address (ip_whitelist db'))"
proof (cases "find_row (row_table r) i db")
  case None
  with assms show ?thesis by (simp add: table_update_def)
next
  case (Some OLD)
  from assms(1) Some have u: "unique_ok r (remove_row OLD db)"
    by (auto simp: table_update_def update_row_def split: sum.splits if_splits)
  from table_update_Inr [OF assms(1) Some]
  have w: "ip_whitelist db' = ip_whitelist (replace_row OLD r db)"
    by auto
  from find_row_Some(3) [OF Some] have t: "row_table OLD = row_table r" .
  show ?thesis
  proof (cases r)
    case (IpWhitelistRow v)
    with t obtain w0 where o: "OLD = IpWhitelistRow w0"
      by (cases OLD) auto
    from u o IpWhitelistRow
    have "iw_ip_address v \<notin> iw_ip_address ` set (remove1 w0 (ip_whitelist db))"
      by simp
    from distinct_map_replace1 [OF assms(2) this] w o IpWhitelistRow show ?thesis
      by simp
  next
    case (ProfilesRow p)
    with t w assms(2) show ?thesis by (cases OLD) auto
  next
    case (TimeEntriesRow e)
    with t w assms(2) show ?thesis by (cases OLD) auto
  next
    case (SchedulesRow c)
    with t w assms(2) show ?thesis by (cases OLD) auto
  next
    case (GeoFencesRow g)
    with t w assms(2) show ?thesis by (cases OLD) auto
  qed
qed

lemma table_delete_distinct_ip:
  assumes "table_delete s t i db = Inr db'" and "distinct (map iw_ip_address (ip_whitelist db))"
  shows "distinct (map iw_ip_address (ip_whitelist db'))"
proof (cases "find_row t i db")
  case None
  with assms show ?thesis by (simp add: table_delete_def)
next
  case (Some OLD)
  from table_delete_Inr [OF assms(1) Some]
  have "ip_whitelist db' = ip_whitelist (remove_row OLD db)"
    by blast
  with assms(2) show ?thesis
    by (cases OLD) (auto simp: distinct_map_remove1)
qed

text \<open>
  C8. The insert of an allowed address that the whitelist already holds fails with
  \<open>UniqueViolation\<close> and yields no new state; in every reachable database the
  addresses of the whitelist are pairwise distinct.
\<close>

theorem ip_whitelist_unique:
  "(iw_ip_address w \<in> set (map iw_ip_address (ip_whitelist db)) \<longrightarrow>
      table_insert s (IpWhitelistRow w) db = Inl UniqueViolation) \<and>
   (reachable db \<longrightarrow> distinct (map iw_ip_address (ip_whitelist db)))"
proof (intro conjI impI)
  assume "iw_ip_address w \<in> set (map iw_ip_address (ip_whitelist db))"
  then show "table_insert s (IpWhitelistRow w) db = Inl UniqueViolation"
    by (simp add: table_insert_def insert_row_def)
next
  assume "reachable db"
  then show "distinct (map iw_ip_address (ip_whitelist db))"
  proof (induction rule: reachable.induct)
    case (reachable_init us)
    show ?case by simp
  next
    case (reachable_insert db s r db')
    then show ?case by (simp add: table_insert_distinct_ip)
  next
    case (reachable_update db s i r db')
    then show ?case by (simp add: table_update_distinct_ip)
  next
    case (reachable_delete db s t i db')
    then show ?case by (simp add: table_delete_distinct_ip)
  qed
qed

theorem ip_whitelist_unique_witness:
  "iw_ip_address (office_ip\<lparr>iw_id := ''w2''\<rparr>) \<in> set (map iw_ip_address (ip_whitelist office_db)) \<and>
   iw_id (office_ip\<lparr>iw_id := ''w2''\<rparr>) \<notin> set (map iw_id (ip_whitelist office_db)) \<and>
   table_insert service_session (IpWhitelistRow (office_ip\<lparr>iw_id := ''w2''\<rparr>)) office_db
     = Inl UniqueViolation \<and>
   (\<exists>db. reachable db \<and> map iw_ip_address (ip_whitelist db) = [''1.2.3.4''] \<and>
         distinct (map iw_ip_address (ip_whitelist db)))"
proof -
  let ?w = "office_ip\<lparr>iw_id := ''w2''\<rparr>"
  have m: "iw_ip_address ?w \<in> set (map iw_ip_address (ip_whitelist office_db))"
    by (simp add: sample_defs)
  with ip_whitelist_unique [where w = ?w and db = office_db and s = service_session]
  have 1: "table_insert service_session (IpWhitelistRow ?w) office_db = Inl UniqueViolation"
    by blast
  let ?v = "office_ip\<lparr>iw_created_by := None\<rparr>"
  let ?d = "\<lparr>auth_users = [], profiles = [], time_entries = [], schedules = [],
             audit_logs = [], ip_whitelist = [], geo_fences = []\<rparr>"
  obtain db where r: "table_insert service_session (IpWhitelistRow ?v) ?d = Inr db"
    and i: "map iw_ip_address (ip_whitelist db) = [''1.2.3.4'']"
    by (simp add: step_defs sample_defs)
  have "reachable ?d"
    by (rule reachable_init)
  from reachable_insert [OF this r] have re: "reachable db" .
  with ip_whitelist_unique [where db = db]
  have "distinct (map iw_ip_address (ip_whitelist db))"
    by blast
  with re i 1 m show ?thesis
    by (auto simp: sample_defs)
qed

section \<open>The origin address of an audit record\<close>

lemma without_ip_eqD:
  assumes "without_ip d1 = without_ip d2"
  shows "auth_users d1 = auth_users d2" "profiles d1 = profiles d2"
    "time_entries d1 = time_entries d2" "schedules d1 = schedules d2"
    "ip_whitelist d1 = ip_whitelist d2" "geo_fences d1 = geo_fences d2"
    "map (\<lambda>a. a\<lparr>al_ip_address := None\<rparr>) (audit_logs d1) =
     map (\<lambda>a. a\<lparr>al_ip_address := None\<rparr>) (audit_logs d2)"
    "length (audit_logs d1) = length (audit_logs d2)"
    "map al_id (audit_logs d1) = map al_id (audit_logs d2)"
    "map al_user_id (audit_logs d1) = map al_user_id (audit_logs d2)"
proof -
  from assms show 1: "auth_users d1 = auth_users d2" "profiles d1 = profiles d2"
    "time_entries d1 = time_entries d2" "schedules d1 = schedules d2"
    "ip_whitelist d1 = ip_whitelist d2" "geo_fences d1 = geo_fences d2"
    "map (\<lambda>a. a\<lparr>al_ip_address := None\<rparr>) (audit_logs d1) =
     map (\<lambda>a. a\<lparr>al_ip_address := None\<rparr>) (audit_logs d2)"
    by (cases d1; cases d2; simp add: without_ip_def)+
  from arg_cong [OF 1(7), of length] show "length (audit_logs d1) = length (audit_logs d2)"
    by simp
  from arg_cong [OF 1(7), of "map al_id"] show "map al_id (audit_logs d1) = map al_id (audit_logs d2)"
    by (simp add: comp_def)
  from arg_cong [OF 1(7), of "map al_user_id"]
  show "map al_user_id (audit_logs d1) = map al_user_id (audit_logs d2)"
    by (simp add: comp_def)
qed

lemma without_ip_eqI:
  assumes "d1\<lparr>audit_logs := []\<rparr> = d2\<lparr>audit_logs := []\<rparr>"
    and "map (\<lambda>a. a\<lparr>al_ip_address := None\<rparr>) (audit_logs d1) =
         map (\<lambda>a. a\<lparr>al_ip_address := None\<rparr>) (audit_logs d2)"
  shows "without_ip d1 = without_ip d2"
  using assms by (cases d1; cases d2) (simp add: without_ip_def)

lemma without_ip_append:
  assumes "without_ip d1 = without_ip d2" and "a1\<lparr>al_ip_address := None\<rparr> = a2\<lparr>al_ip_address := None\<rparr>"
  shows "without_ip (d1\<lparr>audit_logs := audit_logs d1 @ [a1]\<rparr>) =
         without_ip (d2\<lparr>audit_logs := audit_logs d2 @ [a2]\<rparr>)"
proof -
  from assms(1) have "(without_ip d1)\<lparr>audit_logs := []\<rparr> = (without_ip d2)\<lparr>audit_logs := []\<rparr>"
    by simp
  then have "d1\<lparr>audit_logs := []\<rparr> = d2\<lparr>audit_logs := []\<rparr>"
    by (simp add: without_ip_def)
  then show ?thesis
    using without_ip_eqD(7) [OF assms(1)] assms(2)
    by (intro without_ip_eqI) simp_all
qed

lemma refs_profile_cong: "profiles d1 = profiles d2 \<Longrightarrow> refs_profile u d1 = refs_profile u d2"
  by (cases u) (simp_all add: refs_profile_def)

lemma audit_log_changes_sim:
  assumes R: "without_ip d1 = without_ip d2"
    and h: "request_headers s = Some j" "j \<noteq> NotJson" "j' \<noteq> NotJson"
  shows "map_sum id without_ip (audit_log_changes s TG_OP t OLD NEW d1) =
         map_sum id without_ip (audit_log_changes (s\<lparr>request_headers := Some j'\<rparr>) TG_OP t OLD NEW d2)"
proof -
  note e = without_ip_eqD [OF R]
  have id: "set (map al_id (audit_logs d1)) = set (map al_id (audit_logs d2))"
    using e(9) by simp
  have c: "cast_json j = Inr j" "cast_json j' = Inr j'"
    using h(2,3) by (cases j; cases j'; simp add: cast_json_def)+
  show ?thesis
    unfolding audit_log_changes_def current_setting_request_headers_def insert_audit_logs_def
    using h(1) c id e(8) refs_profile_cong [OF e(2)]
    by (auto intro!: without_ip_append [OF R])
qed

lemma audit_each_sim:
  assumes "without_ip d1 = without_ip d2"
    and "request_headers s = Some j" "j \<noteq> NotJson" "j' \<noteq> NotJson"
  shows "map_sum id without_ip (audit_each s rs d1) =
         map_sum id without_ip (audit_each (s\<lparr>request_headers := Some j'\<rparr>) rs d2)"
  using assms(1)
proof (induction rs arbitrary: d1 d2)
  case Nil
  then show ?case by simp
next
  case (Cons r rs)
  let ?s' = "s\<lparr>request_headers := Some j'\<rparr>"
  note a = audit_log_changes_sim [OF Cons.prems assms(2,3,4), of DELETE "row_table r" "Some r" None]
  show ?case
  proof (cases "audit_log_changes s DELETE (row_table r) (Some r) None d1")
    case (Inl x)
    with a show ?thesis
      by (cases "audit_log_changes ?s' DELETE (row_table r) (Some r) None d2") auto
  next
    case (Inr x1)
    with a obtain x2 where x2: "audit_log_changes ?s' DELETE (row_table r) (Some r) None d2 = Inr x2"
        and "without_ip x1 = without_ip x2"
      by (cases "audit_log_changes ?s' DELETE (row_table r) (Some r) None d2") auto
    with Cons.IH [of x1 x2] Inr show ?thesis by simp
  qed
qed

lemma isl_map_sum_cong:
  "map_sum id f r1 = map_sum id g r2 \<Longrightarrow> isl r1 = isl r2"
  by (cases r1; cases r2) auto

lemma table_delete_sim:
  assumes h: "request_headers s = Some j" "j \<noteq> NotJson" "j' \<noteq> NotJson"
  shows "isl (table_delete s t target db) =
         isl (table_delete (s\<lparr>request_headers := Some j'\<rparr>) t target db)"
proof (cases "find_row t target db")
  case None
  then show ?thesis by (simp add: table_delete_def)
next
  case (Some OLD)
  let ?s' = "s\<lparr>request_headers := Some j'\<rparr>"
  show ?thesis
  proof (cases "delete_row OLD db")
    case (Inl x)
    with Some show ?thesis by (simp add: table_delete_def)
  next
    case (Inr d)
    note a = audit_log_changes_sim [OF refl h, of DELETE t "Some OLD" None d]
    show ?thesis
    proof (cases "audit_log_changes s DELETE t (Some OLD) None d")
      case (Inl x)
      with a Some Inr show ?thesis
        by (cases "audit_log_changes ?s' DELETE t (Some OLD) None d") (auto simp: table_delete_def)
    next
      case (Inr x1)
      with a obtain x2 where x2: "audit_log_changes ?s' DELETE t (Some OLD) None d = Inr x2"
          and R: "without_ip x1 = without_ip x2"
        by (cases "audit_log_changes ?s' DELETE t (Some OLD) None d") auto
      from isl_map_sum_cong [OF audit_each_sim [OF R h, of "queued_rows OLD db"]]
        Some \<open>delete_row OLD db = Inr d\<close> Inr x2
      show ?thesis by (simp add: table_delete_def)
    qed
  qed
qed

text \<open>
  C9, as the trigger function has it. When \<^verbatim>\<open>request.headers\<close> is set and is JSON
  that yields no \<^verbatim>\<open>x-forwarded-for\<close> (the member is missing or null, or the value is
  not an object), the audit record is written with a NULL \<^verbatim>\<open>ip_address\<close>, and the
  missing address does not fail the write: the trigger, and with it every insert, update
  and delete, succeeds or fails exactly as it does with any other JSON headers, for
  instance headers that carry the address.
\<close>

theorem audit_without_forwarded_for:
  assumes "request_headers s = Some j" and "j \<noteq> NotJson"
    and "json_field_text j ''x-forwarded-for'' = None"
  shows "(audit_log_changes s TG_OP t OLD NEW db = Inr db' \<longrightarrow>
            (\<exists>a. audit_logs db' = audit_logs db @ [a] \<and> al_ip_address a = None)) \<and>
         (j' \<noteq> NotJson \<longrightarrow>
            isl (audit_log_changes s TG_OP t OLD NEW db) =
              isl (audit_log_changes (s\<lparr>request_headers := Some j'\<rparr>) TG_OP t OLD NEW db) \<and>
            isl (table_insert s NEW' db) = isl (table_insert (s\<lparr>request_headers := Some j'\<rparr>) NEW' db) \<and>
            isl (table_update s target NEW' db) =
              isl (table_update (s\<lparr>request_headers := Some j'\<rparr>) target NEW' db) \<and>
            isl (table_delete s u target db) =
              isl (table_delete (s\<lparr>request_headers := Some j'\<rparr>) u target db) \<and>
            isl (insert_time_entries s e db) =
              isl (insert_time_entries (s\<lparr>request_headers := Some j'\<rparr>) e db))"
proof (intro conjI impI)
  assume "audit_log_changes s TG_OP t OLD NEW db = Inr db'"
  from audit_log_changes_Inr [OF this] assms
  show "\<exists>a. audit_logs db' = audit_logs db @ [a] \<and> al_ip_address a = None"
    by auto
next
  assume j': "j' \<noteq> NotJson"
  have a: "isl (audit_log_changes s op v x y d) =
           isl (audit_log_changes (s\<lparr>request_headers := Some j'\<rparr>) op v x y d)" for op v x y d
    using assms(1,2) j' by (simp add: isl_audit_log_changes)
  show "isl (audit_log_changes s TG_OP t OLD NEW db) =
          isl (audit_log_changes (s\<lparr>request_headers := Some j'\<rparr>) TG_OP t OLD NEW db)"
    by (rule a)
  have ti: "isl (table_insert s r db) = isl (table_insert (s\<lparr>request_headers := Some j'\<rparr>) r db)" for r
    by (cases "insert_row r db") (simp_all add: table_insert_def a)
  show "isl (table_insert s NEW' db) = isl (table_insert (s\<lparr>request_headers := Some j'\<rparr>) NEW' db)"
    by (rule ti)
  show "isl (table_update s target NEW' db) =
          isl (table_update (s\<lparr>request_headers := Some j'\<rparr>) target NEW' db)"
  proof (cases "find_row (row_table NEW') target db")
    case None
    then show ?thesis by (simp add: table_update_def)
  next
    case (Some r)
    then show ?thesis
      by (cases "update_row r NEW' db") (simp_all add: table_update_def a)
  qed
  show "isl (table_delete s u target db) =
          isl (table_delete (s\<lparr>request_headers := Some j'\<rparr>) u target db)"
    using assms(1,2) j' by (rule table_delete_sim)
  show "isl (insert_time_entries s e db) =
          isl (insert_time_entries (s\<lparr>request_headers := Some j'\<rparr>) e db)"
    using ti [of "TimeEntriesRow e"]
    by (simp add: insert_time_entries_def users_can_insert_their_own_time_entries_def)
qed

text \<open>
  When the parameter \<^verbatim>\<open>request.headers\<close> is not set at all, the read of the
  parameter raises and the insert of a time entry fails, which succeeds with the headers
  set.
\<close>

theorem audit_without_forwarded_for_counterexample:
  "request_headers (alice_session\<lparr>request_headers := None\<rparr>) = None \<and>
   insert_time_entries (alice_session\<lparr>request_headers := None\<rparr>) clock_in office_db
     = Inl UndefinedObject \<and>
   \<not> isl (insert_time_entries alice_session clock_in office_db)"
  by (simp add: step_defs sample_defs)

theorem audit_without_forwarded_for_witness:
  "request_headers service_session = Some (JsonObject [(''user-agent'', Some ''curl'')]) \<and>
   json_field_text (JsonObject [(''user-agent'', Some ''curl'')]) ''x-forwarded-for'' = None \<and>
   (\<exists>db' a. audit_log_changes service_session INSERT IpWhitelist None (Some (IpWhitelistRow office_ip))
               (put_row (IpWhitelistRow office_ip) empty_policy_db) = Inr db' \<and>
            audit_logs db' = [a] \<and> al_ip_address a = None) \<and>
   \<not> isl (insert_time_entries (alice_session\<lparr>request_headers := Some (JsonObject [])\<rparr>)
            clock_in office_db)"
proof -
  let ?j = "JsonObject [(''user-agent'', Some ''curl'')]"
  let ?r = "IpWhitelistRow office_ip"
  have h: "request_headers service_session = Some ?j"
    by (simp add: service_session_def)
  have n: "json_field_text ?j ''x-forwarded-for'' = None"
    by (simp add: json_field_text_def)
  obtain db' where r: "audit_log_changes service_session INSERT IpWhitelist None (Some ?r)
               (put_row ?r empty_policy_db) = Inr db'"
    by (simp add: step_defs sample_defs)
  with audit_without_forwarded_for [OF h _ n, where TG_OP = INSERT and t = IpWhitelist
      and OLD = None and NEW = "Some ?r" and db = "put_row ?r empty_policy_db" and db' = db']
  have "\<exists>a. audit_logs db' = audit_logs (put_row ?r empty_policy_db) @ [a] \<and> al_ip_address a = None"
    by simp
  with r have 1: "\<exists>db' a. audit_log_changes service_session INSERT IpWhitelist None (Some ?r)
               (put_row ?r empty_policy_db) = Inr db' \<and>
            audit_logs db' = [a] \<and> al_ip_address a = None"
    by (auto simp: empty_policy_db_def)
  let ?s = "alice_session\<lparr>request_headers := Some (JsonObject [])\<rparr>"
  have "\<not> isl (insert_time_entries alice_session clock_in office_db)"
    by (simp add: step_defs sample_defs)
  moreover have "isl (insert_time_entries ?s clock_in office_db) =
     isl (insert_time_entries (?s\<lparr>request_headers := Some (JsonObject [(''x-forwarded-for'', Some ''9.9.9.9'')])\<rparr>) clock_in office_db)"
    using audit_without_forwarded_for [where s = ?s and j = "JsonObject []"
        and j' = "JsonObject [(''x-forwarded-for'', Some ''9.9.9.9'')]" and e = clock_in and db = office_db]
    by (simp add: json_field_text_def)
  ultimately have 2: "\<not> isl (insert_time_entries ?s clock_in office_db)"
    by (simp add: alice_session_def)
  from h n 1 2 show ?thesis by blast
qed

end
